(* ===== verification/Prelude.thy ===== *)
theory Prelude
  imports Complex_Main
begin

text \<open>
  Shared vocabulary of the GTFS summary model (src/scripts/gtfs_faq_summary.py).
  The script is one Python module; an exception anywhere aborts the whole run. Every
  fallible step is therefore a value of \<open>'a res = py_error + 'a\<close>, \<open>Inl\<close> being the
  Python exception class that would be raised. Loops over CSV rows are \<open>fold_res\<close>,
  which stops at the first error as the uncaught exception does. A CSV row, as produced by
  \<open>csv.DictReader\<close>, is a map from column names to cell strings: \<open>row[k]\<close> raises
  \<open>KeyError\<close> on a missing column (\<open>get_col\<close>), \<open>row.get(k)\<close> is the map itself.
  Python dictionaries whose iteration order the script observes are association lists
  updated in place (\<open>dict_set\<close>): a new key goes to the end, an existing key keeps its
  position and takes the new value, as in CPython.
\<close>

named_theorems res_simps "evaluation rules of the error monad and the dictionary model"

datatype py_error = ValueError | KeyError | IndexError | OverflowError | StatisticsError

type_synonym 'a res = "py_error + 'a"

type_synonym row = "string \<rightharpoonup> string"

definition bind_res :: "'a res \<Rightarrow> ('a \<Rightarrow> 'b res) \<Rightarrow> 'b res" where
  "bind_res m f = (case m of Inl e \<Rightarrow> Inl e | Inr a \<Rightarrow> f a)"

definition get_col :: "row \<Rightarrow> string \<Rightarrow> string res" where
  "get_col r k = (case r k of None \<Rightarrow> Inl KeyError | Some v \<Rightarrow> Inr v)"

text \<open>\<open>d[k]\<close> on a dict: \<open>KeyError\<close> when the key is absent.\<close>

definition getitem :: "('k \<rightharpoonup> 'v) \<Rightarrow> 'k \<Rightarrow> 'v res" where
  "getitem m k = (case m k of None \<Rightarrow> Inl KeyError | Some v \<Rightarrow> Inr v)"

text \<open>Truthiness of an optional cell (\<open>row.get(k)\<close>): \<open>None\<close> and \<open>''''\<close> are false.\<close>

definition truthy :: "string option \<Rightarrow> bool" where
  "truthy v = (case v of None \<Rightarrow> False | Some s \<Rightarrow> s \<noteq> [])"

text \<open>Python's \<open>a or b\<close> on two optional cells.\<close>

definition py_or :: "string option \<Rightarrow> string option \<Rightarrow> string option" where
  "py_or a b = (if truthy a then a else b)"

fun fold_res :: "('s \<Rightarrow> 'a \<Rightarrow> 's res) \<Rightarrow> 'a list \<Rightarrow> 's \<Rightarrow> 's res" where
  "fold_res f [] s = Inr s"
| "fold_res f (x # xs) s = bind_res (f s x) (fold_res f xs)"

fun dict_set :: "('k \<times> 'v) list \<Rightarrow> 'k \<Rightarrow> 'v \<Rightarrow> ('k \<times> 'v) list" where
  "dict_set [] k v = [(k, v)]"
| "dict_set ((k', v') # d) k v =
     (if k' = k then (k, v) # d else (k', v') # dict_set d k v)"

subsection \<open>The error monad\<close>

lemma bind_res_Inl [simp, res_simps]: "bind_res (Inl e) f = Inl e"
  by (simp add: bind_res_def)

lemma bind_res_Inr [simp, res_simps]: "bind_res (Inr a) f = f a"
  by (simp add: bind_res_def)

lemma bind_res_eq_Inr [res_simps]:
  "bind_res m f = Inr b \<longleftrightarrow> (\<exists>a. m = Inr a \<and> f a = Inr b)"
  by (cases m) auto

lemma get_col_Inr [res_simps]: "get_col r k = Inr v \<longleftrightarrow> r k = Some v"
  by (simp add: get_col_def split: option.splits)

lemma get_col_Inl [res_simps]: "get_col r k = Inl e \<longleftrightarrow> r k = None \<and> e = KeyError"
  by (auto simp add: get_col_def split: option.splits)

lemma getitem_Some [simp, res_simps]: "m k = Some v \<Longrightarrow> getitem m k = Inr v"
  by (simp add: getitem_def)

lemma getitem_Inr [res_simps]: "getitem m k = Inr v \<longleftrightarrow> m k = Some v"
  by (simp add: getitem_def split: option.splits)

lemma truthy_Some [simp]: "truthy (Some s) \<longleftrightarrow> s \<noteq> []"
  by (simp add: truthy_def)

lemma truthy_None [simp]: "\<not> truthy None"
  by (simp add: truthy_def)

lemma truthy_py_or: "truthy (py_or a b) \<longleftrightarrow> truthy a \<or> truthy b"
  by (simp add: py_or_def)

subsection \<open>Fail-fast loops\<close>

lemma fold_res_append:
  "fold_res f (xs @ ys) s = bind_res (fold_res f xs s) (fold_res f ys)"
  by (induction xs arbitrary: s) (auto simp: bind_res_def split: sum.splits)

text \<open>
  The invariant rule of a fail-fast loop: a property that every successful step keeps
  holds after every successful run.
\<close>

lemma fold_res_invariant:
  assumes step: "\<And>s x s'. P s \<Longrightarrow> x \<in> set xs \<Longrightarrow> f s x = Inr s' \<Longrightarrow> P s'"
    and start: "P s"
    and run: "fold_res f xs s = Inr s'"
  shows "P s'"
  using step start run
proof (induction xs arbitrary: s)
  case Nil
  then show ?case by simp
next
  case (Cons x xs)
  from Cons.prems(3) obtain t where t: "f s x = Inr t" and rest: "fold_res f xs t = Inr s'"
    by (auto simp: bind_res_eq_Inr)
  have "P t" using Cons.prems(1)[OF Cons.prems(2) _ t] by simp
  moreover have "P u'" if "P u" "y \<in> set xs" "f u y = Inr u'" for u y u'
    using Cons.prems(1)[of u y u'] that by simp
  ultimately show ?case using Cons.IH rest by blast
qed

text \<open>A loop whose every step succeeds succeeds.\<close>

lemma fold_res_total:
  assumes "\<And>s x. x \<in> set xs \<Longrightarrow> \<exists>s'. f s x = Inr s'"
  shows "\<exists>s'. fold_res f xs s = Inr s'"
  using assms
proof (induction xs arbitrary: s)
  case Nil
  then show ?case by simp
next
  case (Cons x xs)
  obtain t where t: "f s x = Inr t" using Cons.prems[of x] by auto
  have "\<exists>u. fold_res f xs t = Inr u" using Cons.IH Cons.prems by simp
  with t show ?case by simp
qed

lemma fold_res_total_inv:
  assumes step: "\<And>s x. P s \<Longrightarrow> x \<in> set xs \<Longrightarrow> \<exists>s'. f s x = Inr s' \<and> P s'"
    and start: "P s"
  shows "\<exists>s'. fold_res f xs s = Inr s' \<and> P s'"
  using step start
proof (induction xs arbitrary: s)
  case Nil
  then show ?case by simp
next
  case (Cons x xs)
  obtain t where t: "f s x = Inr t" "P t" using Cons.prems by force
  have "\<exists>u. fold_res f xs t = Inr u \<and> P u" using Cons.IH [of t] Cons.prems(1) t(2) by simp
  with t show ?case by simp
qed

lemma fold_res_map:
  "fold_res f (map g xs) s = fold_res (\<lambda>s x. f s (g x)) xs s"
  by (induction xs arbitrary: s) (simp_all add: bind_res_def split: sum.splits)

text \<open>Two nested loops are one loop over the pairs they visit.\<close>

lemma fold_res_concat_map:
  "fold_res (\<lambda>s x. fold_res (g x) (ys x) s) xs s =
   fold_res (\<lambda>s (x, y). g x s y) (concat (map (\<lambda>x. map (Pair x) (ys x)) xs)) s"
proof (induction xs arbitrary: s)
  case Nil
  then show ?case by simp
next
  case (Cons x xs)
  have "fold_res (\<lambda>s (x, y). g x s y) (map (Pair x) (ys x)) s = fold_res (g x) (ys x) s"
    by (simp add: fold_res_map)
  moreover have "fold_res (\<lambda>s x. fold_res (g x) (ys x) s) xs =
      fold_res (\<lambda>s (x, y). g x s y) (concat (map (\<lambda>x. map (Pair x) (ys x)) xs))"
    by (rule ext) (rule Cons.IH)
  ultimately show ?case by (simp add: fold_res_append)
qed

text \<open>A lookup done before a non-empty loop fails or succeeds as the loop's first step does.\<close>

lemma fold_res_bind_out:
  "ys \<noteq> [] \<Longrightarrow>
     bind_res m (\<lambda>r. fold_res (g r) ys s) = fold_res (\<lambda>s y. bind_res m (\<lambda>r. g r s y)) ys s"
proof (cases m)
  case (Inl e)
  assume "ys \<noteq> []"
  then obtain y ys' where "ys = y # ys'" by (cases ys) auto
  with Inl show ?thesis by simp
next
  case (Inr r)
  then show ?thesis by simp
qed

text \<open>
  A loop whose step at item \<open>x\<close> changes an observation \<open>look\<close> only at the key of \<open>x\<close>: after
  the loop, each key visited once holds the step's value and every other key is unchanged.
\<close>

lemma fold_res_keyed:
  assumes step: "\<And>s x s'. x \<in> set xs \<Longrightarrow> f s x = Inr s' \<Longrightarrow>
                   look s' = (look s)(key x := h x (look s (key x)))"
    and dist: "distinct (map key xs)"
    and run: "fold_res f xs s = Inr s'"
  shows "(\<forall>x\<in>set xs. look s' (key x) = h x (look s (key x))) \<and>
         (\<forall>y. y \<notin> key ` set xs \<longrightarrow> look s' y = look s y)"
  using step dist run
proof (induction xs arbitrary: s)
  case Nil
  then show ?case by simp
next
  case (Cons x xs)
  from Cons.prems(3) obtain t where t: "f s x = Inr t" and rest: "fold_res f xs t = Inr s'"
    by (auto simp: bind_res_eq_Inr)
  have lt: "look t = (look s)(key x := h x (look s (key x)))" by (rule Cons.prems(1) [of x s t]) (simp_all add: t)
  have ih: "(\<forall>z\<in>set xs. look s' (key z) = h z (look t (key z))) \<and>
            (\<forall>y. y \<notin> key ` set xs \<longrightarrow> look s' y = look t y)"
    using Cons.IH [of t] Cons.prems(1,2) rest by simp
  have fresh: "key x \<notin> key ` set xs" using Cons.prems(2) by auto
  show ?case
  proof (intro conjI ballI allI impI)
    fix z assume "z \<in> set (x # xs)"
    then consider "z = x" | "z \<in> set xs" by auto
    then show "look s' (key z) = h z (look s (key z))"
    proof cases
      case 1
      then show ?thesis using ih fresh lt by simp
    next
      case 2
      then have "key z \<noteq> key x" using fresh by (metis image_eqI)
      then show ?thesis using ih 2 lt by simp
    qed
  next
    fix y assume "y \<notin> key ` set (x # xs)"
    then show "look s' y = look s y" using ih lt by simp
  qed
qed

subsection \<open>Insertion-ordered dictionaries\<close>

lemma map_of_dict_set [simp, res_simps]: "map_of (dict_set d k v) = (map_of d)(k \<mapsto> v)"
  by (induction d) auto

lemma keys_dict_set:
  "map fst (dict_set d k v) = (if k \<in> set (map fst d) then map fst d else map fst d @ [k])"
  by (induction d) force+

lemma distinct_dict_set:
  "distinct (map fst d) \<Longrightarrow> distinct (map fst (dict_set d k v))"
  by (simp add: keys_dict_set)

lemma set_dict_set_sub: "set (dict_set d k v) \<subseteq> insert (k, v) (set d)"
  by (induction d) (auto split: if_splits)

lemma set_keys_dict_set [simp]: "set (map fst (dict_set d k v)) = insert k (set (map fst d))"
  by (auto simp: keys_dict_set)

end
