(* ===== verification/PyBuiltins.thy ===== *)
theory PyBuiltins
  imports Prelude
begin

text \<open>
  The Python builtins the script applies to CSV cells and numbers, as CPython 3 defines
  them on ASCII text: \<open>str.strip()\<close> (\<open>py_strip\<close>), \<open>str.split(sep)\<close>
  (\<open>split_on\<close>), \<open>int(str)\<close> in base 10 (\<open>py_int\<close>: surrounding whitespace, one
  optional sign, decimal digits with single underscores between them, else
  \<open>ValueError\<close>), \<open>str(n)\<close> (\<open>show_int\<close>), \<open>format(n, '02d')\<close> (\<open>fmt_02d\<close>:
  zero padding after the sign up to width two) and \<open>round(x)\<close> on a number
  (\<open>py_round\<close>: to the nearest integer, ties to the even one). Strings are byte strings
  here: Unicode digits and whitespace beyond ASCII are not modelled. Floating-point values
  of the script are exact rationals in the model.
\<close>

definition is_py_space :: "char \<Rightarrow> bool" where
  "is_py_space c = (let n = (of_char c :: nat) in (9 \<le> n \<and> n \<le> 13) \<or> (28 \<le> n \<and> n \<le> 32))"

definition py_strip :: "string \<Rightarrow> string" where
  "py_strip s = rev (dropWhile is_py_space (rev (dropWhile is_py_space s)))"

fun split_on :: "char \<Rightarrow> string \<Rightarrow> string list" where
  "split_on c [] = [[]]"
| "split_on c (x # xs) =
     (if x = c then [] # split_on c xs
      else (case split_on c xs of [] \<Rightarrow> [[x]] | w # ws \<Rightarrow> (x # w) # ws))"

fun join_on :: "char \<Rightarrow> string list \<Rightarrow> string" where
  "join_on c [] = []"
| "join_on c [w] = w"
| "join_on c (w # ws) = w @ c # join_on c ws"

definition is_digit :: "char \<Rightarrow> bool" where
  "is_digit c = (48 \<le> (of_char c :: nat) \<and> (of_char c :: nat) \<le> 57)"

definition digit_val :: "char \<Rightarrow> nat" where
  "digit_val c = of_char c - 48"

definition digit_char :: "nat \<Rightarrow> char" where
  "digit_char n = char_of (48 + n)"

text \<open>The digits after the first one: a digit, or one underscore followed by a digit.\<close>

fun digits_from :: "nat \<Rightarrow> string \<Rightarrow> nat option" where
  "digits_from acc [] = Some acc"
| "digits_from acc (c # cs) =
     (if is_digit c then digits_from (10 * acc + digit_val c) cs
      else if c = CHR ''_'' then
        (case cs of
          d # ds \<Rightarrow> (if is_digit d then digits_from (10 * acc + digit_val d) ds else None)
        | [] \<Rightarrow> None)
      else None)"

definition parse_uint :: "string \<Rightarrow> nat option" where
  "parse_uint s = (case s of
      c # cs \<Rightarrow> (if is_digit c then digits_from (digit_val c) cs else None)
    | [] \<Rightarrow> None)"

definition py_int :: "string \<Rightarrow> int res" where
  "py_int s =
     (let t = py_strip s;
          r = (case t of
                 c # cs \<Rightarrow>
                   (if c = CHR ''-'' then map_option (\<lambda>n. - int n) (parse_uint cs)
                    else if c = CHR ''+'' then map_option int (parse_uint cs)
                    else map_option int (parse_uint t))
               | [] \<Rightarrow> None)
      in case r of None \<Rightarrow> Inl ValueError | Some n \<Rightarrow> Inr n)"

fun show_nat :: "nat \<Rightarrow> string" where
  "show_nat n = (if n < 10 then [digit_char n] else show_nat (n div 10) @ [digit_char (n mod 10)])"

declare show_nat.simps [simp del]

definition show_int :: "int \<Rightarrow> string" where
  "show_int i = (if 0 \<le> i then show_nat (nat i) else CHR ''-'' # show_nat (nat (- i)))"

definition fmt_02d :: "int \<Rightarrow> string" where
  "fmt_02d i =
     (let sign = (if i < 0 then ''-'' else []); ds = show_nat (nat \<bar>i\<bar>)
      in sign @ replicate (2 - length sign - length ds) CHR ''0'' @ ds)"

definition py_round :: "rat \<Rightarrow> int" where
  "py_round x =
     (let f = \<lfloor>x\<rfloor>; r = x - of_int f
      in if r < 1/2 then f else if 1/2 < r then f + 1 else if even f then f else f + 1)"

subsection \<open>Digits\<close>

lemma digit_char_props [simp]:
  assumes "n < 10"
  shows "is_digit (digit_char n)" and "digit_val (digit_char n) = n"
  using assms by (simp_all add: is_digit_def digit_val_def digit_char_def)

lemma show_nat_digits: "c \<in> set (show_nat n) \<Longrightarrow> is_digit c"
proof (induction n rule: show_nat.induct)
  case (1 n)
  then show ?case
    by (cases "n < 10") (auto simp: show_nat.simps [of n])
qed

lemma show_nat_not_Nil [simp]: "show_nat n \<noteq> []"
  by (simp add: show_nat.simps [of n])

lemma show_nat_hd: "\<exists>c cs. show_nat n = c # cs \<and> is_digit c"
  by (metis list.exhaust list.set_intros(1) show_nat_digits show_nat_not_Nil)

lemma digits_from_all_digits:
  "\<forall>c \<in> set cs. is_digit c \<Longrightarrow> digits_from acc cs = Some (foldl (\<lambda>a c. 10 * a + digit_val c) acc cs)"
  by (induction cs arbitrary: acc) auto

lemma foldl_show_nat: "foldl (\<lambda>a c. 10 * a + digit_val c) 0 (show_nat n) = n"
proof (induction n rule: show_nat.induct)
  case (1 n)
  then show ?case
    by (cases "n < 10") (simp_all add: show_nat.simps [of n])
qed

lemma parse_uint_show_nat [simp]: "parse_uint (show_nat n) = Some n"
proof -
  obtain c cs where n: "show_nat n = c # cs" and d: "is_digit c"
    using show_nat_hd by blast
  have all: "\<forall>x \<in> set cs. is_digit x" using show_nat_digits [of _ n] unfolding n by simp
  have "foldl (\<lambda>a c. 10 * a + digit_val c) 0 (c # cs) = n"
    using foldl_show_nat n by metis
  then show ?thesis
    using d all by (simp add: parse_uint_def n digits_from_all_digits)
qed

lemma py_strip_no_space: "\<forall>c \<in> set s. \<not> is_py_space c \<Longrightarrow> py_strip s = s"
proof -
  have keep: "dropWhile is_py_space xs = xs" if "\<forall>c \<in> set xs. \<not> is_py_space c" for xs
    using that by (cases xs) simp_all
  assume "\<forall>c \<in> set s. \<not> is_py_space c"
  then show ?thesis by (simp add: py_strip_def keep)
qed

lemma digit_not_space: "is_digit c \<Longrightarrow> \<not> is_py_space c"
  by (simp add: is_digit_def is_py_space_def)

lemma digit_not_sign [simp]:
  "is_digit c \<Longrightarrow> c \<noteq> CHR ''-''" "is_digit c \<Longrightarrow> c \<noteq> CHR ''+''"
  "is_digit c \<Longrightarrow> c \<noteq> CHR '':''" "is_digit c \<Longrightarrow> c \<noteq> CHR ''h''"
  by (auto simp: is_digit_def)

lemma parse_uint_digits:
  assumes "cs \<noteq> []" and "\<forall>c \<in> set cs. is_digit c"
  shows "parse_uint cs = Some (foldl (\<lambda>a c. 10 * a + digit_val c) 0 cs)"
  using assms by (cases cs) (simp_all add: parse_uint_def digits_from_all_digits)

lemma foldl_zeros:
  "foldl (\<lambda>a c. 10 * a + digit_val c) 0 (replicate k CHR ''0'' @ cs) =
   foldl (\<lambda>a c. 10 * a + digit_val c) 0 cs"
  by (induction k) (simp_all add: digit_val_def)

lemma is_digit_zero [simp]: "is_digit CHR ''0''"
  by (simp add: is_digit_def)

lemma parse_uint_padded [simp]: "parse_uint (replicate k CHR ''0'' @ show_nat n) = Some n"
proof -
  have "\<forall>c \<in> set (replicate k CHR ''0'' @ show_nat n). is_digit c"
    using show_nat_digits by auto
  then show ?thesis
    by (simp add: parse_uint_digits foldl_zeros foldl_show_nat del: foldl_append)
qed

lemma py_strip_digits:
  assumes "\<forall>c \<in> set cs. is_digit c"
  shows "py_strip cs = cs" and "py_strip (CHR ''-'' # cs) = CHR ''-'' # cs"
proof -
  have "\<not> is_py_space CHR ''-''" by (simp add: is_py_space_def)
  with assms digit_not_space show "py_strip cs = cs" and "py_strip (CHR ''-'' # cs) = CHR ''-'' # cs"
    by (auto intro!: py_strip_no_space)
qed

lemma padded_digits:
  obtains c cs where "replicate k CHR ''0'' @ show_nat n = c # cs" and "is_digit c"
    and "\<forall>x \<in> set (c # cs). is_digit x"
proof -
  let ?ds = "replicate k CHR ''0'' @ show_nat n"
  have ds: "\<forall>x \<in> set ?ds. is_digit x" using show_nat_digits by auto
  obtain c cs where "?ds = c # cs" by (cases ?ds) auto
  with ds that show ?thesis by simp
qed

lemma py_int_unsigned: "py_int (replicate k CHR ''0'' @ show_nat n) = Inr (int n)"
proof -
  obtain c cs where c: "replicate k CHR ''0'' @ show_nat n = c # cs" and d: "is_digit c"
    and all: "\<forall>x \<in> set (c # cs). is_digit x"
    by (rule padded_digits)
  have p: "parse_uint (c # cs) = Some n" using parse_uint_padded [of k n] c by simp
  show ?thesis using d p py_strip_digits(1) [OF all] by (simp add: py_int_def c)
qed

lemma py_int_negative: "py_int (CHR ''-'' # replicate k CHR ''0'' @ show_nat n) = Inr (- int n)"
proof -
  obtain c cs where c: "replicate k CHR ''0'' @ show_nat n = c # cs" and d: "is_digit c"
    and all: "\<forall>x \<in> set (c # cs). is_digit x"
    by (rule padded_digits)
  have p: "parse_uint (c # cs) = Some n" using parse_uint_padded [of k n] c by simp
  show ?thesis using d p py_strip_digits(2) [OF all] by (simp add: py_int_def c)
qed

text \<open>\<open>int(str(i)) == i\<close> and \<open>int(format(i, '02d')) == i\<close>.\<close>

lemma py_int_show_int [simp]: "py_int (show_int i) = Inr i"
  using py_int_unsigned [of 0 "nat i"] py_int_negative [of 0 "nat (- i)"]
  by (simp add: show_int_def)

lemma py_int_fmt_02d [simp]: "py_int (fmt_02d i) = Inr i"
proof (cases "i < 0")
  case True
  then show ?thesis using py_int_negative [of _ "nat (- i)"] by (simp add: fmt_02d_def Let_def)
next
  case False
  then show ?thesis using py_int_unsigned [of _ "nat i"] by (simp add: fmt_02d_def Let_def)
qed

lemma fmt_02d_chars: "c \<in> set (fmt_02d i) \<Longrightarrow> is_digit c \<or> c = CHR ''-''"
  using show_nat_digits by (auto simp: fmt_02d_def Let_def split: if_splits)

lemma fmt_02d_length: "0 \<le> i \<Longrightarrow> i < 100 \<Longrightarrow> length (fmt_02d i) = 2"
proof -
  assume i: "0 \<le> i" "i < 100"
  have "length (show_nat (nat i)) \<le> 2"
  proof (cases "i < 10")
    case True
    then have "nat i < 10" by simp
    then show ?thesis by (simp add: show_nat.simps [of "nat i"])
  next
    case False
    with i have "nat i div 10 < 10" by simp
    with False show ?thesis
      by (simp add: show_nat.simps [of "nat i"] show_nat.simps [of "nat i div 10"])
  qed
  with i show ?thesis by (simp add: fmt_02d_def Let_def)
qed

subsection \<open>Splitting\<close>

text \<open>\<open>sep.join(s.split(sep)) == s\<close>, and no piece contains the separator.\<close>

lemma split_on_not_Nil [simp]: "split_on c s \<noteq> []"
  by (induction s) (auto split: list.splits)

lemma join_on_split_on: "join_on c (split_on c s) = s"
proof (induction s)
  case Nil
  then show ?case by simp
next
  case (Cons x xs)
  then show ?case
    by (cases "split_on c xs"; cases "tl (split_on c xs)") auto
qed

lemma split_on_pieces: "w \<in> set (split_on c s) \<Longrightarrow> c \<notin> set w"
  by (induction s arbitrary: w) (auto split: if_splits list.splits)

lemma split_on_append_sep:
  "c \<notin> set u \<Longrightarrow> split_on c (u @ c # v) = u # split_on c v"
  by (induction u) auto

lemma split_on_no_sep: "c \<notin> set u \<Longrightarrow> split_on c u = [u]"
  by (induction u) auto

subsection \<open>Rounding\<close>

lemma py_round_dist: "\<bar>of_int (py_round x) - x\<bar> \<le> 1/2"
proof -
  have f: "of_int \<lfloor>x\<rfloor> \<le> x" "x < of_int \<lfloor>x\<rfloor> + 1" by linarith+
  then show ?thesis by (auto simp: py_round_def Let_def)
qed

lemma py_round_of_int [simp]: "py_round (of_int n) = n"
  by (simp add: py_round_def)

end
