(* ===== verification/Dates.thy ===== *)
theory Dates
  imports PyBuiltins
begin

text \<open>
  Calendar dates (src/scripts/gtfs_faq_summary.py, lines 41--79) over Python's
  \<open>datetime.date\<close>. A date is its proleptic Gregorian ordinal, \<open>date.toordinal()\<close>
  (1 is 0001-01-01, \<open>MAXORDINAL\<close> is 9999-12-31); comparison of dates is comparison of
  ordinals, \<open>d.weekday()\<close> is \<open>(ordinal + 6) mod 7\<close> (0 is Monday) and
  \<open>d + timedelta(days=k)\<close> is \<open>add_days\<close>, which raises \<open>OverflowError\<close> outside the
  range as CPython does. The three \<open>next_*\<close> loops of the script are one loop
  \<open>advance_while\<close> with different guards; it terminates because the ordinal grows
  and is bounded. The conversion between ordinals and year/month/day follows CPython's
  \<open>_ord2ymd\<close> and \<open>_ymd2ord\<close>; \<open>format_yyyymmdd\<close> is \<open>strftime("%Y%m%d")\<close> with
  glibc's unpadded \<open>%Y\<close>; \<open>parse_yyyymmdd\<close> is \<open>strptime(value, "%Y%m%d")\<close>: the
  regular expression \<open>(\d\d\d\d)(1[0-2]|0[1-9]|[1-9])(3[0-1]|[1-2]\d|0[1-9]|[1-9]| [1-9])\<close>
  matched with backtracking in alternative order, then the check that the whole string
  was consumed, then the range check of the \<open>date\<close> constructor.
\<close>

type_synonym date = nat

definition MAXORDINAL :: nat where
  "MAXORDINAL = 3652059"

definition valid_date :: "date \<Rightarrow> bool" where
  "valid_date d = (1 \<le> d \<and> d \<le> MAXORDINAL)"

definition weekday :: "date \<Rightarrow> nat" where
  "weekday d = (d + 6) mod 7"

definition add_days :: "date \<Rightarrow> int \<Rightarrow> date res" where
  "add_days d k =
     (let n = int d + k in if 0 < n \<and> n \<le> int MAXORDINAL then Inr (nat n) else Inl OverflowError)"

function advance_while :: "(date \<Rightarrow> bool) \<Rightarrow> date \<Rightarrow> date res" where
  "advance_while c d =
     (if c d then (case add_days d 1 of Inl e \<Rightarrow> Inl e | Inr d' \<Rightarrow> advance_while c d')
      else Inr d)"
  by pat_completeness auto
termination
  by (relation "measure (\<lambda>(c, d). Suc MAXORDINAL - d)") (auto simp: add_days_def Let_def split: if_splits)

declare advance_while.simps [simp del]

definition next_weekday :: "date \<Rightarrow> date res" where
  "next_weekday from_date = advance_while (\<lambda>d. 5 \<le> weekday d) from_date"

definition next_saturday :: "date \<Rightarrow> date res" where
  "next_saturday from_date = advance_while (\<lambda>d. weekday d \<noteq> 5) from_date"

definition next_sunday :: "date \<Rightarrow> date res" where
  "next_sunday from_date = advance_while (\<lambda>d. weekday d \<noteq> 6) from_date"

text \<open>The abstract contract of the three selectors: the first date on or after the start
  that satisfies the day-type predicate.\<close>

definition first_on_or_after :: "(date \<Rightarrow> bool) \<Rightarrow> date \<Rightarrow> date \<Rightarrow> bool" where
  "first_on_or_after P d r = (d \<le> r \<and> P r \<and> (\<forall>x. d \<le> x \<and> x < r \<longrightarrow> \<not> P x))"

definition WEEKDAY_NAMES :: "string list" where
  "WEEKDAY_NAMES = [''monday'', ''tuesday'', ''wednesday'', ''thursday'', ''friday'',
                    ''saturday'', ''sunday'']"

definition dow_field :: "date \<Rightarrow> string" where
  "dow_field d = WEEKDAY_NAMES ! weekday d"

subsection \<open>Gregorian calendar (CPython's datetime module)\<close>

definition is_leap :: "int \<Rightarrow> bool" where
  "is_leap year = (year mod 4 = 0 \<and> (year mod 100 \<noteq> 0 \<or> year mod 400 = 0))"

definition DAYS_IN_MONTH :: "int list" where
  "DAYS_IN_MONTH = [-1, 31, 28, 31, 30, 31, 30, 31, 31, 30, 31, 30, 31]"

definition DAYS_BEFORE_MONTH :: "int list" where
  "DAYS_BEFORE_MONTH = [-1, 0, 31, 59, 90, 120, 151, 181, 212, 243, 273, 304, 334]"

definition days_before_year :: "int \<Rightarrow> int" where
  "days_before_year year = (let y = year - 1 in y * 365 + y div 4 - y div 100 + y div 400)"

definition days_in_month :: "int \<Rightarrow> int \<Rightarrow> int" where
  "days_in_month year month =
     (if month = 2 \<and> is_leap year then 29 else DAYS_IN_MONTH ! nat month)"

definition days_before_month :: "int \<Rightarrow> int \<Rightarrow> int" where
  "days_before_month year month =
     DAYS_BEFORE_MONTH ! nat month + (if 2 < month \<and> is_leap year then 1 else 0)"

definition ymd2ord :: "int \<Rightarrow> int \<Rightarrow> int \<Rightarrow> int" where
  "ymd2ord year month day = days_before_year year + days_before_month year month + day"

definition DI400Y :: int where "DI400Y = days_before_year 401"
definition DI100Y :: int where "DI100Y = days_before_year 101"
definition DI4Y :: int where "DI4Y = days_before_year 5"

definition ord2ymd :: "int \<Rightarrow> int \<times> int \<times> int" where
  "ord2ymd n0 =
     (let n = n0 - 1;
          n400 = n div DI400Y; n = n mod DI400Y;
          year = n400 * 400 + 1;
          n100 = n div DI100Y; n = n mod DI100Y;
          n4 = n div DI4Y; n = n mod DI4Y;
          n1 = n div 365; n = n mod 365;
          year = year + n100 * 100 + n4 * 4 + n1
      in if n1 = 4 \<or> n100 = 4 then (year - 1, 12, 31)
         else
           (let leapyear = (n1 = 3 \<and> (n4 \<noteq> 24 \<or> n100 = 3));
                month = (n + 50) div 32;
                preceding = DAYS_BEFORE_MONTH ! nat month + (if 2 < month \<and> leapyear then 1 else 0);
                (month, preceding) =
                  (if n < preceding
                   then (month - 1, preceding - (DAYS_IN_MONTH ! nat (month - 1)
                                      + (if month - 1 = 2 \<and> leapyear then 1 else 0)))
                   else (month, preceding))
            in (year, month, n - preceding + 1)))"

definition format_yyyymmdd :: "date \<Rightarrow> string" where
  "format_yyyymmdd value =
     (case ord2ymd (int value) of (y, m, d) \<Rightarrow> show_int y @ fmt_02d m @ fmt_02d d)"

subsection \<open>strptime with the format "%Y%m%d"\<close>

text \<open>
  The alternatives of the month and day groups, in the order the regular expression
  tries them: the length each consumes and the test on the characters consumed.
\<close>

definition MONTH_ALTS :: "(nat \<times> (string \<Rightarrow> bool)) list" where
  "MONTH_ALTS =
     [(2, \<lambda>s. s ! 0 = CHR ''1'' \<and> s ! 1 \<in> {CHR ''0'', CHR ''1'', CHR ''2''}),
      (2, \<lambda>s. s ! 0 = CHR ''0'' \<and> is_digit (s ! 1) \<and> s ! 1 \<noteq> CHR ''0''),
      (1, \<lambda>s. is_digit (s ! 0) \<and> s ! 0 \<noteq> CHR ''0'')]"

definition DAY_ALTS :: "(nat \<times> (string \<Rightarrow> bool)) list" where
  "DAY_ALTS =
     [(2, \<lambda>s. s ! 0 = CHR ''3'' \<and> s ! 1 \<in> {CHR ''0'', CHR ''1''}),
      (2, \<lambda>s. s ! 0 \<in> {CHR ''1'', CHR ''2''} \<and> is_digit (s ! 1)),
      (2, \<lambda>s. s ! 0 = CHR ''0'' \<and> is_digit (s ! 1) \<and> s ! 1 \<noteq> CHR ''0''),
      (1, \<lambda>s. is_digit (s ! 0) \<and> s ! 0 \<noteq> CHR ''0''),
      (2, \<lambda>s. s ! 0 = CHR '' '' \<and> is_digit (s ! 1) \<and> s ! 1 \<noteq> CHR ''0'')]"

definition alt_matches :: "nat \<times> (string \<Rightarrow> bool) \<Rightarrow> string \<Rightarrow> bool" where
  "alt_matches alt s = (fst alt \<le> length s \<and> snd alt (take (fst alt) s))"

text \<open>The regular-expression match: the group lengths of the first successful path.\<close>

definition ymd_match :: "string \<Rightarrow> (nat \<times> nat) option" where
  "ymd_match s =
     (if 4 \<le> length s \<and> (\<forall>c \<in> set (take 4 s). is_digit c) then
        (case [(fst ma, fst da). ma \<leftarrow> MONTH_ALTS, da \<leftarrow> DAY_ALTS,
                alt_matches ma (drop 4 s), alt_matches da (drop (4 + fst ma) s)] of
           [] \<Rightarrow> None
         | p # _ \<Rightarrow> Some p)
      else None)"

definition parse_yyyymmdd :: "string \<Rightarrow> date res" where
  "parse_yyyymmdd value =
     (case ymd_match value of
        None \<Rightarrow> Inl ValueError
      | Some (ml, dl) \<Rightarrow>
          (if 4 + ml + dl \<noteq> length value then Inl ValueError
           else
             bind_res (py_int (take 4 value)) (\<lambda>year.
             bind_res (py_int (take ml (drop 4 value))) (\<lambda>month.
             bind_res (py_int (drop (4 + ml) value)) (\<lambda>day.
               if year < 1 \<or> day < 1 \<or> days_in_month year month < day then Inl ValueError
               else Inr (nat (ymd2ord year month day)))))))"

subsection \<open>Evaluation\<close>

text \<open>The equations that evaluate a date's formatting on a concrete ordinal by \<open>simp\<close>.\<close>

lemmas ymd_eval = ord2ymd_def DI400Y_def DI100Y_def DI4Y_def days_before_year_def
  DAYS_BEFORE_MONTH_def DAYS_IN_MONTH_def Let_def

lemmas format_eval = format_yyyymmdd_def ymd_eval show_int_def fmt_02d_def show_nat.simps
  digit_char_def char_of_eq_iff

subsection \<open>The day-advancing loop\<close>

lemma add_days_one:
  "add_days d 1 = (if Suc d \<le> MAXORDINAL then Inr (Suc d) else Inl OverflowError)"
  by (simp add: add_days_def Let_def nat_add_distrib)

lemma weekday_Suc: "weekday (Suc d) = Suc (weekday d) mod 7"
  by (simp add: weekday_def mod_Suc_eq)

lemma weekday_less: "weekday d < 7"
  by (simp add: weekday_def)

lemma advance_while_step:
  "c d \<Longrightarrow> advance_while c d =
     (if Suc d \<le> MAXORDINAL then advance_while c (Suc d) else Inl OverflowError)"
  by (simp add: advance_while.simps [of c d] add_days_one)

lemma advance_while_stop: "\<not> c d \<Longrightarrow> advance_while c d = Inr d"
  by (simp add: advance_while.simps [of c d])

text \<open>What the loop returns: the first date at or after its start where the guard fails.\<close>

lemma advance_while_Inr:
  "advance_while c d = Inr r \<Longrightarrow> d \<le> r \<and> \<not> c r \<and> (\<forall>x. d \<le> x \<and> x < r \<longrightarrow> c x)"
proof (induction c d rule: advance_while.induct)
  case (1 c d)
  show ?case
  proof (cases "c d")
    case False
    with "1.prems" show ?thesis by (auto simp: advance_while_stop)
  next
    case True
    with "1.prems" have le: "Suc d \<le> MAXORDINAL" and run: "advance_while c (Suc d) = Inr r"
      by (simp_all add: advance_while_step split: if_splits)
    from "1.IH" [OF True, of "Suc d"] le run
    have "Suc d \<le> r \<and> \<not> c r \<and> (\<forall>x. Suc d \<le> x \<and> x < r \<longrightarrow> c x)"
      by (simp add: add_days_one)
    with True show ?thesis by (metis Suc_leD le_antisym not_less_eq_eq)
  qed
qed

lemma advance_while_Inl: "advance_while c d = Inl e \<Longrightarrow> e = OverflowError"
proof (induction c d rule: advance_while.induct)
  case (1 c d)
  then show ?case
    by (cases "c d") (auto simp: advance_while_step advance_while_stop add_days_one split: if_splits)
qed

text \<open>The loop returns once the guard fails within the representable range.\<close>

lemma advance_while_reaches:
  assumes "\<forall>x. d \<le> x \<and> x < d + k \<longrightarrow> c x" and "\<not> c (d + k)" and "d + k \<le> MAXORDINAL"
  shows "advance_while c d = Inr (d + k)"
  using assms
proof (induction k arbitrary: d)
  case 0
  then show ?case by (simp add: advance_while_stop)
next
  case (Suc k)
  then have "c d" by simp
  moreover have "advance_while c (Suc d) = Inr (Suc d + k)"
    using Suc.prems by (intro Suc.IH) auto
  ultimately show ?case using Suc.prems(3) by (simp add: advance_while_step)
qed

lemma weekday_add: "weekday (d + k) = (weekday d + k) mod 7"
  unfolding weekday_def by (simp add: mod_add_right_eq ac_simps)

text \<open>Within seven days every weekday occurs, first after \<open>(t + 7 - weekday d) mod 7\<close> days.\<close>

lemma days_to_target_hit:
  "w < 7 \<Longrightarrow> t < 7 \<Longrightarrow> (w + (t + 7 - w) mod 7) mod (7::nat) = t"
  by (simp add: mod_add_right_eq)

lemma days_to_target_miss:
  assumes "w < 7" "t < (7::nat)" "j < (t + 7 - w) mod 7"
  shows "(w + j) mod 7 \<noteq> t"
proof (cases "w \<le> t")
  case True
  then have e: "t + 7 - w = (t - w) + 7" by simp
  have "(t + 7 - w) mod 7 = t - w" unfolding e mod_add_self2 using assms(2) by simp
  with assms True have "w + j < t" by simp
  then show ?thesis using assms(2) by simp
next
  case False
  then have k: "(t + 7 - w) mod 7 = t + 7 - w" using assms(1) by simp
  show ?thesis
  proof (cases "w + j < 7")
    case True
    with False show ?thesis by simp
  next
    case c: False
    then have "(w + j) mod 7 = (w + j - 7) mod 7" by (intro le_mod_geq) simp
    moreover have "w + j - 7 < t" using assms(3) k c by arith
    ultimately show ?thesis using assms(2) by simp
  qed
qed

lemma weekday_reached:
  assumes "t < 7"
  shows "weekday (d + (t + 7 - weekday d) mod 7) = t"
    and "\<forall>j < (t + 7 - weekday d) mod 7. weekday (d + j) \<noteq> t"
  using days_to_target_hit [OF weekday_less assms] days_to_target_miss [OF weekday_less assms]
  by (simp_all add: weekday_add)

lemma advance_to_weekday:
  assumes "t < 7" and "d + (t + 7 - weekday d) mod 7 \<le> MAXORDINAL"
  shows "advance_while (\<lambda>x. weekday x \<noteq> t) d = Inr (d + (t + 7 - weekday d) mod 7)"
proof (rule advance_while_reaches)
  show "\<forall>x. d \<le> x \<and> x < d + (t + 7 - weekday d) mod 7 \<longrightarrow> weekday x \<noteq> t"
  proof (intro allI impI)
    fix x
    assume x: "d \<le> x \<and> x < d + (t + 7 - weekday d) mod 7"
    then have "x - d < (t + 7 - weekday d) mod 7" and "x = d + (x - d)" by arith+
    with weekday_reached(2) [OF assms(1), of d] show "weekday x \<noteq> t" by metis
  qed
  show "\<not> weekday (d + (t + 7 - weekday d) mod 7) \<noteq> t"
    using weekday_reached(1) [OF assms(1)] by simp
qed (rule assms(2))

lemma advance_while_total:
  "\<not> c (d + k) \<Longrightarrow> d + k \<le> MAXORDINAL \<Longrightarrow> \<exists>r. advance_while c d = Inr r"
proof (induction k arbitrary: d)
  case 0
  then show ?case by (simp add: advance_while_stop)
next
  case (Suc k)
  show ?case
  proof (cases "c d")
    case True
    have "\<exists>r. advance_while c (Suc d) = Inr r" using Suc.prems by (intro Suc.IH) simp_all
    with True Suc.prems(2) show ?thesis by (simp add: advance_while_step)
  next
    case False
    then show ?thesis by (simp add: advance_while_stop)
  qed
qed

lemma advance_while_max: "c MAXORDINAL \<Longrightarrow> advance_while c MAXORDINAL = Inl OverflowError"
  using advance_while_step [of c MAXORDINAL] by simp

lemma day_selectors_total:
  assumes "d + 6 \<le> MAXORDINAL"
  shows "(\<exists>r. next_weekday d = Inr r) \<and> (\<exists>r. next_saturday d = Inr r) \<and> (\<exists>r. next_sunday d = Inr r)"
proof (intro conjI)
  have "\<not> 5 \<le> weekday (d + (7 - weekday d) mod 7)"
    using weekday_reached(1) [of 0 d] by simp
  moreover have "(7 - weekday d) mod 7 \<le> 6" by simp
  ultimately show "\<exists>r. next_weekday d = Inr r"
    unfolding next_weekday_def using assms
    by (intro advance_while_total [where k = "(7 - weekday d) mod 7"]) simp_all
  show "\<exists>r. next_saturday d = Inr r"
    unfolding next_saturday_def using assms weekday_reached(1) [of 5 d]
    by (intro advance_while_total [where k = "(5 + 7 - weekday d) mod 7"]) simp_all
  show "\<exists>r. next_sunday d = Inr r"
    unfolding next_sunday_def using assms weekday_reached(1) [of 6 d]
    by (intro advance_while_total [where k = "(6 + 7 - weekday d) mod 7"]) simp_all
qed

lemma advance_while_first:
  "advance_while c d = Inr r \<Longrightarrow> first_on_or_after (\<lambda>x. \<not> c x) d r"
  by (drule advance_while_Inr) (simp add: first_on_or_after_def)

subsection \<open>The day-type reference dates\<close>

text \<open>
  C4: \<open>next_weekday\<close> returns its argument when that is a Monday to Friday, and otherwise
  the following Monday; it returns whenever two more days are representable.
\<close>

theorem next_weekday_result:
  "d + 2 \<le> MAXORDINAL \<Longrightarrow>
   next_weekday d = Inr (if 5 \<le> weekday d then d + (7 - weekday d) else d)"
proof (cases "5 \<le> weekday d")
  case False
  then show ?thesis by (simp add: next_weekday_def advance_while_stop)
next
  case True
  assume room: "d + 2 \<le> MAXORDINAL"
  have w: "weekday d = 5 \<or> weekday d = 6" using True weekday_less [of d] by arith
  have "advance_while (\<lambda>x. 5 \<le> weekday x) d = Inr (d + (7 - weekday d))"
  proof (rule advance_while_reaches)
    show "\<forall>x. d \<le> x \<and> x < d + (7 - weekday d) \<longrightarrow> 5 \<le> weekday x"
    proof (intro allI impI)
      fix x
      assume x: "d \<le> x \<and> x < d + (7 - weekday d)"
      then have "x = d \<or> (x = d + 1 \<and> weekday d = 5)" using w by arith
      then show "5 \<le> weekday x" using True by (auto simp: weekday_Suc)
    qed
    show "\<not> 5 \<le> weekday (d + (7 - weekday d))"
      using w by (auto simp: weekday_add)
    show "d + (7 - weekday d) \<le> MAXORDINAL" using w room by arith
  qed
  with True show ?thesis by (simp add: next_weekday_def)
qed

theorem next_weekday_result_witness:
  "(738891::nat) + 2 \<le> MAXORDINAL \<and> next_weekday 738891 = Inr 738893 \<and>
   (738893::nat) + 2 \<le> MAXORDINAL \<and> next_weekday 738893 = Inr 738893"
  using next_weekday_result [of 738891] next_weekday_result [of 738893]
  by (simp add: MAXORDINAL_def weekday_def)

text \<open>
  C5: \<open>next_saturday\<close> returns the first Saturday on or after its argument, which lies
  \<open>(12 - weekday d) mod 7\<close> days ahead; it returns whenever six more days are representable.
\<close>

theorem next_saturday_result:
  "d + 6 \<le> MAXORDINAL \<Longrightarrow> next_saturday d = Inr (d + (12 - weekday d) mod 7)"
  using advance_to_weekday [of 5 d] by (simp add: next_saturday_def)

theorem next_saturday_result_witness:
  "(738886::nat) + 6 \<le> MAXORDINAL \<and> next_saturday 738886 = Inr 738891"
  using next_saturday_result [of 738886] by (simp add: MAXORDINAL_def weekday_def)

text \<open>
  C6: \<open>next_sunday\<close> returns the first Sunday on or after its argument, which lies
  \<open>(13 - weekday d) mod 7\<close> days ahead; it returns whenever six more days are representable.
\<close>

theorem next_sunday_result:
  "d + 6 \<le> MAXORDINAL \<Longrightarrow> next_sunday d = Inr (d + (13 - weekday d) mod 7)"
  using advance_to_weekday [of 6 d] by (simp add: next_sunday_def)

theorem next_sunday_result_witness:
  "(738892::nat) + 6 \<le> MAXORDINAL \<and> next_sunday 738892 = Inr 738892"
  using next_sunday_result [of 738892] by (simp add: MAXORDINAL_def weekday_def)

text \<open>
  C7: Whatever date the three selectors return is the first date on or after their argument
  of the requested day type (Monday to Friday, Saturday, Sunday); they never skip a match.
\<close>

theorem day_selectors_first:
  "(next_weekday d = Inr r \<longrightarrow> first_on_or_after (\<lambda>x. weekday x < 5) d r) \<and>
   (next_saturday d = Inr r \<longrightarrow> first_on_or_after (\<lambda>x. weekday x = 5) d r) \<and>
   (next_sunday d = Inr r \<longrightarrow> first_on_or_after (\<lambda>x. weekday x = 6) d r)"
  using advance_while_first [of "\<lambda>x. 5 \<le> weekday x" d r]
    advance_while_first [of "\<lambda>x. weekday x \<noteq> 5" d r]
    advance_while_first [of "\<lambda>x. weekday x \<noteq> 6" d r]
  by (auto simp: next_weekday_def next_saturday_def next_sunday_def not_le)

theorem day_selectors_first_witness:
  "next_saturday 738886 = Inr 738891 \<and> first_on_or_after (\<lambda>x. weekday x = 5) 738886 738891"
proof -
  have run: "next_saturday 738886 = Inr 738891"
    using next_saturday_result [of 738886] by (simp add: MAXORDINAL_def weekday_def)
  then show ?thesis using day_selectors_first [of 738886 738891] by simp
qed


end
