(* ===== verification/Calendar.thy ===== *)
theory Calendar
  imports Dates
begin

text \<open>
  The calendar resolver (src/scripts/gtfs_faq_summary.py, lines 26--38, 82--108 and
  132--157). A \<open>CalendarService\<close> is a record of its validity window and its weekday
  flags (the dict \<open>flags\<close>, a map from weekday names to integers). \<open>services\<close> maps a
  service id to its record, \<open>exceptions\<close> maps a pair (service id, date string) to the
  integer exception type; both are built by fail-fast loops over the CSV rows
  (\<open>load_services\<close>, \<open>load_exceptions\<close>), keeping the last row of a duplicated key.
  \<open>is_service_active\<close> follows the code's order: exception type 1, exception type 2, unknown
  service, date outside the window, weekday flag. \<open>daytypes_from_service\<close> (defined in the
  script and never called) takes the weekday flags as an ordered dict and raises
  \<open>KeyError\<close> on a missing weekday as \<open>flags[d]\<close> does; \<open>any\<close> stops at the first true
  flag.
\<close>

record calendar_service =
  start_date :: date
  end_date :: date
  flags :: "string \<rightharpoonup> int"

type_synonym services = "string \<rightharpoonup> calendar_service"
type_synonym exceptions = "string \<times> string \<rightharpoonup> int"

definition is_service_active ::
  "services \<Rightarrow> exceptions \<Rightarrow> string \<Rightarrow> date \<Rightarrow> bool" where
  "is_service_active services exceptions service_id d =
     (let ymd = format_yyyymmdd d;
          exception_type = exceptions (service_id, ymd)
      in if exception_type = Some 1 then True
         else if exception_type = Some 2 then False
         else (case services service_id of
                 None \<Rightarrow> False
               | Some svc \<Rightarrow>
                   if d < start_date svc \<or> end_date svc < d then False
                   else (case flags svc (dow_field d) of None \<Rightarrow> False | Some f \<Rightarrow> f \<noteq> 0)))"

fun py_any_flag :: "(string \<times> int) list \<Rightarrow> string list \<Rightarrow> bool res" where
  "py_any_flag fl [] = Inr False"
| "py_any_flag fl (d # ds) =
     (case map_of fl d of
        None \<Rightarrow> Inl KeyError
      | Some v \<Rightarrow> (if v \<noteq> 0 then Inr True else py_any_flag fl ds))"

definition flag_of :: "(string \<times> int) list \<Rightarrow> string \<Rightarrow> int res" where
  "flag_of fl d = (case map_of fl d of None \<Rightarrow> Inl KeyError | Some v \<Rightarrow> Inr v)"

definition daytypes_from_service ::
  "(string \<rightharpoonup> (string \<times> int) list) \<Rightarrow> string \<Rightarrow> string list res" where
  "daytypes_from_service calendar service_id =
     (case calendar service_id of
        None \<Rightarrow> Inr []
      | Some fl \<Rightarrow>
          (if fl = [] then Inr []
           else
             bind_res (py_any_flag fl (take 5 WEEKDAY_NAMES)) (\<lambda>wk.
             bind_res (flag_of fl ''saturday'') (\<lambda>sat.
             bind_res (flag_of fl ''sunday'') (\<lambda>sun.
               Inr ((if wk then [''weekday''] else []) @ (if sat \<noteq> 0 then [''saturday''] else []) @
                    (if sun \<noteq> 0 then [''sunday''] else [])))))))"

subsection \<open>Loading calendar.txt and calendar_dates.txt\<close>

text \<open>
  The weekday flags of a row, \<open>{d: int(row[d]) for d in [...]}\<close>, evaluated in weekday
  order.
\<close>

fun read_flags :: "row \<Rightarrow> string list \<Rightarrow> (string \<rightharpoonup> int) \<Rightarrow> (string \<rightharpoonup> int) res" where
  "read_flags r [] acc = Inr acc"
| "read_flags r (d # ds) acc =
     bind_res (get_col r d) (\<lambda>v. bind_res (py_int v) (\<lambda>n. read_flags r ds (acc(d \<mapsto> n))))"

text \<open>
  \<open>services[row["service_id"]] = CalendarService(...)\<close>: Python evaluates the right-hand
  side (both dates, then the flags) before the subscript.
\<close>

definition load_service_row :: "services \<Rightarrow> row \<Rightarrow> services res" where
  "load_service_row services r =
     bind_res (bind_res (get_col r ''start_date'') parse_yyyymmdd) (\<lambda>sd.
     bind_res (bind_res (get_col r ''end_date'') parse_yyyymmdd) (\<lambda>ed.
     bind_res (read_flags r WEEKDAY_NAMES Map.empty) (\<lambda>fl.
     bind_res (get_col r ''service_id'') (\<lambda>sid.
       Inr (services(sid \<mapsto> \<lparr>start_date = sd, end_date = ed, flags = fl\<rparr>))))))"

definition load_services :: "row list \<Rightarrow> services res" where
  "load_services rows = fold_res load_service_row rows Map.empty"

definition load_exception_row :: "exceptions \<Rightarrow> row \<Rightarrow> exceptions res" where
  "load_exception_row exceptions r =
     bind_res (bind_res (get_col r ''exception_type'') py_int) (\<lambda>et.
     bind_res (get_col r ''service_id'') (\<lambda>sid.
     bind_res (get_col r ''date'') (\<lambda>dt.
       Inr (exceptions((sid, dt) \<mapsto> et)))))"

definition load_exceptions :: "row list \<Rightarrow> exceptions res" where
  "load_exceptions rows = fold_res load_exception_row rows Map.empty"

subsection \<open>Resolution of a service on a date\<close>

lemma is_service_active_no_exception:
  assumes "exceptions (service_id, format_yyyymmdd d) \<notin> {Some 1, Some 2}"
  shows "is_service_active services exceptions service_id d =
           (case services service_id of
              None \<Rightarrow> False
            | Some svc \<Rightarrow> start_date svc \<le> d \<and> d \<le> end_date svc \<and>
                         flags svc (dow_field d) \<notin> {None, Some 0})"
  using assms by (auto simp: is_service_active_def Let_def not_less split: option.splits)

text \<open>
  C1: An exception recorded for the service on the date decides alone: type 1 makes the
  service active and type 2 inactive, whatever the weekday flags and the validity window say.
\<close>

theorem is_service_active_exception:
  "(exceptions (service_id, format_yyyymmdd d) = Some 1 \<longrightarrow>
      is_service_active services exceptions service_id d) \<and>
   (exceptions (service_id, format_yyyymmdd d) = Some 2 \<longrightarrow>
      \<not> is_service_active services exceptions service_id d)"
  by (simp add: is_service_active_def Let_def)

lemma format_20240101: "format_yyyymmdd 738886 = ''20240101''"
  by (simp add: format_eval)

theorem is_service_active_exception_witness:
  "[(''S'', ''20240101'') \<mapsto> (1::int)] (''S'', format_yyyymmdd 738886) = Some 1 \<and>
   is_service_active Map.empty [(''S'', ''20240101'') \<mapsto> 1] ''S'' 738886 \<and>
   [(''S'', ''20240101'') \<mapsto> (2::int)] (''S'', format_yyyymmdd 738886) = Some 2 \<and>
   \<not> is_service_active Map.empty [(''S'', ''20240101'') \<mapsto> 2] ''S'' 738886"
  using is_service_active_exception [where exceptions = "[(''S'', ''20240101'') \<mapsto> 1]"
      and service_id = "''S''" and d = 738886 and services = Map.empty]
    is_service_active_exception [where exceptions = "[(''S'', ''20240101'') \<mapsto> 2]"
      and service_id = "''S''" and d = 738886 and services = Map.empty]
  by (simp add: format_20240101)

text \<open>
  C2: Without an exception of type 1 or 2, a service that is unknown, or a date outside the
  service's validity window, resolves to inactive.
\<close>

theorem is_service_active_fail_safe:
  assumes "exceptions (service_id, format_yyyymmdd d) \<notin> {Some 1, Some 2}"
  shows "(services service_id = None \<longrightarrow> \<not> is_service_active services exceptions service_id d) \<and>
         (services service_id = Some svc \<and> (d < start_date svc \<or> end_date svc < d) \<longrightarrow>
            \<not> is_service_active services exceptions service_id d)"
  using is_service_active_no_exception [of exceptions service_id d services] assms by auto

theorem is_service_active_fail_safe_witness:
  "Map.empty (''S'', format_yyyymmdd 738886) \<notin> {Some 1, Some (2::int)} \<and>
   \<not> is_service_active Map.empty Map.empty ''S'' 738886 \<and>
   \<not> is_service_active [''S'' \<mapsto> \<lparr>start_date = 738887, end_date = 739000, flags = [''monday'' \<mapsto> 1]\<rparr>]
      Map.empty ''S'' 738886"
  using is_service_active_fail_safe [where exceptions = Map.empty and service_id = "''S''"
      and d = 738886 and services = "[''S'' \<mapsto> \<lparr>start_date = 738887, end_date = 739000, flags = [''monday'' \<mapsto> 1]\<rparr>]"
      and svc = "\<lparr>start_date = 738887, end_date = 739000, flags = [''monday'' \<mapsto> 1]\<rparr>"]
    is_service_active_fail_safe [where exceptions = Map.empty and service_id = "''S''"
      and d = 738886 and services = Map.empty]
  by simp

text \<open>
  C3: Without an exception of type 1 or 2, a known service on a date inside its window is
  active exactly when its flag for the date's weekday is present and non-zero; an exception
  of any other type (3, say) is ignored.
\<close>

theorem is_service_active_weekly:
  assumes "exceptions (service_id, format_yyyymmdd d) \<notin> {Some 1, Some 2}"
    and "services service_id = Some svc" and "start_date svc \<le> d" and "d \<le> end_date svc"
  shows "is_service_active services exceptions service_id d \<longleftrightarrow>
           (\<exists>f. flags svc (WEEKDAY_NAMES ! weekday d) = Some f \<and> f \<noteq> 0)"
  using is_service_active_no_exception [of exceptions service_id d services] assms
  by (cases "flags svc (WEEKDAY_NAMES ! weekday d)") (auto simp: dow_field_def)

theorem is_service_active_weekly_witness:
  "[(''S'', ''20240101'') \<mapsto> (3::int)] (''S'', format_yyyymmdd 738886) \<notin> {Some 1, Some 2} \<and>
   is_service_active [''S'' \<mapsto> \<lparr>start_date = 738886, end_date = 739000, flags = [''monday'' \<mapsto> 1]\<rparr>]
      [(''S'', ''20240101'') \<mapsto> 3] ''S'' 738886"
proof -
  have w: "weekday 738886 = 0" by (simp add: weekday_def)
  show ?thesis
    using is_service_active_weekly [where exceptions = "[(''S'', ''20240101'') \<mapsto> 3]"
        and service_id = "''S''" and d = 738886
        and services = "[''S'' \<mapsto> \<lparr>start_date = 738886, end_date = 739000, flags = [''monday'' \<mapsto> 1]\<rparr>]"
        and svc = "\<lparr>start_date = 738886, end_date = 739000, flags = [''monday'' \<mapsto> 1]\<rparr>"]
    by (simp add: format_20240101 w WEEKDAY_NAMES_def)
qed

end
