(* ===== verification/Times.thy ===== *)
theory Times
  imports PyBuiltins
begin

text \<open>
  GTFS clock times (src/scripts/gtfs_faq_summary.py, lines 13--23).
  \<open>parse_time_to_minutes\<close> reads \<open>H:MM:SS\<close> (hours may exceed 23) into minutes after
  midnight of the service day, \<open>int(h) * 60 + int(m) + int(s) / 60.0\<close>; the float is an
  exact rational here. \<open>fmt_hhmm\<close> rounds to whole minutes and prints \<open>HHhMM\<close> with
  floor division, so hours past 23 are kept (\<open>25h05\<close>) rather than wrapped.
  \<open>read_hhmm\<close> is the reading of that format a consumer of the report applies; it is
  not in the script and serves only to state that the printed form loses nothing but
  the rounding.
\<close>

definition parse_time_to_minutes :: "string \<Rightarrow> rat res" where
  "parse_time_to_minutes value =
     (case split_on CHR '':'' (py_strip value) of
        [h, m, s] \<Rightarrow>
          bind_res (py_int h) (\<lambda>h.
          bind_res (py_int m) (\<lambda>m.
          bind_res (py_int s) (\<lambda>s. Inr (of_int (h * 60 + m) + of_int s / 60))))
      | _ \<Rightarrow> Inl ValueError)"

definition fmt_hhmm :: "rat \<Rightarrow> string" where
  "fmt_hhmm minutes =
     (let minutes = py_round minutes; h = minutes div 60; m = minutes mod 60
      in fmt_02d h @ ''h'' @ fmt_02d m)"

definition read_hhmm :: "string \<Rightarrow> int res" where
  "read_hhmm t =
     (case split_on CHR ''h'' t of
        [a, b] \<Rightarrow> bind_res (py_int a) (\<lambda>h. bind_res (py_int b) (\<lambda>m. Inr (h * 60 + m)))
      | _ \<Rightarrow> Inl ValueError)"

subsection \<open>Parsing\<close>

lemma fmt_02d_no_char:
  "c \<noteq> CHR ''-'' \<Longrightarrow> \<not> is_digit c \<Longrightarrow> c \<notin> set (fmt_02d i)"
  using fmt_02d_chars by blast

lemma colon_not_in_fmt_02d [simp]: "CHR '':'' \<notin> set (fmt_02d i)"
  by (rule fmt_02d_no_char) (simp_all add: is_digit_def)

lemma h_not_in_fmt_02d [simp]: "CHR ''h'' \<notin> set (fmt_02d i)"
  by (rule fmt_02d_no_char) (simp_all add: is_digit_def)

lemma fmt_02d_no_space: "\<forall>c \<in> set (fmt_02d i). \<not> is_py_space c"
  using fmt_02d_chars digit_not_space by (fastforce simp: is_py_space_def)

lemma split_three:
  assumes "c \<notin> set a" "c \<notin> set b" "c \<notin> set d"
  shows "split_on c (a @ c # b @ c # d) = [a, b, d]"
  using assms by (simp add: split_on_append_sep split_on_no_sep)

lemma py_int_Inl: "py_int s = Inl e \<Longrightarrow> e = ValueError"
  by (simp add: py_int_def Let_def split: option.splits)

lemma fmt_02d_Cons: "\<exists>c cs. fmt_02d i = c # cs"
  by (cases "fmt_02d i") (auto simp: fmt_02d_def Let_def)

subsection \<open>Formatting\<close>

lemma fmt_hhmm_split: "split_on CHR ''h'' (fmt_hhmm x) = [fmt_02d (py_round x div 60), fmt_02d (py_round x mod 60)]"
  by (simp add: fmt_hhmm_def Let_def split_on_append_sep split_on_no_sep)

lemma py_strip_clock:
  "py_strip (fmt_02d h @ CHR '':'' # fmt_02d m @ CHR '':'' # fmt_02d s) =
     fmt_02d h @ CHR '':'' # fmt_02d m @ CHR '':'' # fmt_02d s"
proof (rule py_strip_no_space)
  have "\<not> is_py_space CHR '':''" by (simp add: is_py_space_def)
  then show "\<forall>c \<in> set (fmt_02d h @ CHR '':'' # fmt_02d m @ CHR '':'' # fmt_02d s). \<not> is_py_space c"
    using fmt_02d_no_space by auto
qed

text \<open>
  C9: A well-formed clock time \<open>HH:MM:SS\<close> (each field as \<open>format(n, '02d')\<close> prints it,
  hours unbounded) parses to \<open>h * 60 + m + s / 60\<close> minutes.
\<close>

theorem parse_time_to_minutes_clock:
  "parse_time_to_minutes (fmt_02d h @ '':'' @ fmt_02d m @ '':'' @ fmt_02d s) =
     Inr (of_int (h * 60 + m) + of_int s / 60)"
  using py_strip_clock [of h m s]
  by (simp add: parse_time_to_minutes_def split_three)

text \<open>
  C10: Printing minutes with \<open>fmt_hhmm\<close> and reading the \<open>HHhMM\<close> text back gives the
  rounded number of minutes: nothing but the rounding is lost, and hours past 23 are not
  wrapped.
\<close>

theorem fmt_hhmm_roundtrip: "read_hhmm (fmt_hhmm x) = Inr (py_round x)"
  by (simp add: read_hhmm_def fmt_hhmm_split)



end
