(* ===== verification/Trips.thy ===== *)
theory Trips
  imports Times
begin

text \<open>
  Loading routes, stops and trips, and the trip aggregator over stop_times.txt
  (src/scripts/gtfs_faq_summary.py, lines 10, 124--130, 159--208).
  \<open>route_id_by_short\<close> and \<open>trip_meta\<close> are dictionaries whose iteration order the script
  observes (the route-to-line lookup scans the first, the report iterates the second), so
  they are association lists kept in insertion order by \<open>dict_set\<close>; \<open>stop_name\<close> and
  the five dictionaries of the scan are maps. The scan is a fail-fast fold of
  \<open>scan_stop_time\<close> over the rows: rows of trips not in \<open>trip_meta\<close> are skipped
  before anything else of them is read; otherwise the stop sequence is parsed, the running
  minimum and maximum sequence are updated with strict comparisons (the first row reaching
  an extreme wins), and the departure is parsed only when the row lowers the minimum.
\<close>

definition LINES :: "string list" where
  "LINES = [''A'', ''B'', ''C'', ''D'']"

record trip_meta =
  line :: string
  service_id :: string
  direction_id :: int

type_synonym route_ids = "(string \<times> string) list"
type_synonym trip_metas = "(string \<times> trip_meta) list"

definition load_route_row :: "route_ids \<Rightarrow> row \<Rightarrow> route_ids res" where
  "load_route_row route_id_by_short r =
     (case r ''route_short_name'' of
        Some short \<Rightarrow>
          (if short \<in> set LINES
           then bind_res (get_col r ''route_id'') (\<lambda>rid. Inr (dict_set route_id_by_short short rid))
           else Inr route_id_by_short)
      | None \<Rightarrow> Inr route_id_by_short)"

definition load_routes :: "row list \<Rightarrow> route_ids res" where
  "load_routes rows = fold_res load_route_row rows []"

text \<open>\<open>stop_name[row["stop_id"]] = row.get("stop_name") or row["stop_id"]\<close>.\<close>

definition load_stop_row :: "(string \<rightharpoonup> string) \<Rightarrow> row \<Rightarrow> (string \<rightharpoonup> string) res" where
  "load_stop_row stop_name r =
     bind_res (case r ''stop_name'' of
                 Some n \<Rightarrow> (if n \<noteq> [] then Inr n else get_col r ''stop_id'')
               | None \<Rightarrow> get_col r ''stop_id'') (\<lambda>name.
     bind_res (get_col r ''stop_id'') (\<lambda>sid. Inr (stop_name(sid \<mapsto> name))))"

definition load_stops :: "row list \<Rightarrow> (string \<rightharpoonup> string) res" where
  "load_stops rows = fold_res load_stop_row rows Map.empty"

text \<open>\<open>next((sn for sn, route_id in route_id_by_short.items() if route_id == rid), None)\<close>.\<close>

definition line_of_route :: "route_ids \<Rightarrow> string \<Rightarrow> string option" where
  "line_of_route route_id_by_short rid = map_option fst (find (\<lambda>(sn, route_id). route_id = rid) route_id_by_short)"

definition read_direction :: "string option \<Rightarrow> int res" where
  "read_direction raw = (case raw of None \<Rightarrow> Inr 0 | Some s \<Rightarrow> if s = [] then Inr 0 else py_int s)"

definition load_trip_row :: "route_ids \<Rightarrow> trip_metas \<Rightarrow> row \<Rightarrow> trip_metas res" where
  "load_trip_row route_id_by_short tm r =
     bind_res (get_col r ''route_id'') (\<lambda>rid.
       (case line_of_route route_id_by_short rid of
          None \<Rightarrow> Inr tm
        | Some l \<Rightarrow>
            (if l = [] then Inr tm
             else
               bind_res (get_col r ''trip_id'') (\<lambda>trip_id.
               bind_res (read_direction (r ''direction_id'')) (\<lambda>dir.
               bind_res (get_col r ''service_id'') (\<lambda>sid.
                 Inr (dict_set tm trip_id \<lparr>line = l, service_id = sid, direction_id = dir\<rparr>)))))))"

definition load_trips :: "route_ids \<Rightarrow> row list \<Rightarrow> trip_metas res" where
  "load_trips route_id_by_short rows = fold_res (load_trip_row route_id_by_short) rows []"

subsection \<open>The stop_times scan\<close>

record scan_state =
  first_stop_seq :: "string \<rightharpoonup> int"
  last_stop_seq :: "string \<rightharpoonup> int"
  first_departure_min :: "string \<rightharpoonup> rat"
  first_stop_id :: "string \<rightharpoonup> string"
  last_stop_id :: "string \<rightharpoonup> string"

definition scan_init :: scan_state where
  "scan_init = \<lparr>first_stop_seq = Map.empty, last_stop_seq = Map.empty,
     first_departure_min = Map.empty, first_stop_id = Map.empty, last_stop_id = Map.empty\<rparr>"

text \<open>Lines 200--204: a new minimum sequence records the row's stop and, if present, its time.\<close>

definition update_first ::
  "string \<Rightarrow> int \<Rightarrow> string \<Rightarrow> string option \<Rightarrow> scan_state \<Rightarrow> scan_state res" where
  "update_first trip_id seq sid departure st =
     (if (case first_stop_seq st trip_id of None \<Rightarrow> True | Some f \<Rightarrow> seq < f) then
        (let st1 = st\<lparr>first_stop_seq := (first_stop_seq st)(trip_id \<mapsto> seq),
                      first_stop_id := (first_stop_id st)(trip_id \<mapsto> sid)\<rparr>
         in case departure of
              Some dep \<Rightarrow>
                (if dep \<noteq> [] then
                   bind_res (parse_time_to_minutes dep) (\<lambda>m.
                     Inr (st1\<lparr>first_departure_min := (first_departure_min st1)(trip_id \<mapsto> m)\<rparr>))
                 else Inr st1)
            | None \<Rightarrow> Inr st1)
      else Inr st)"

text \<open>Lines 206--208: a new maximum sequence records the row's stop.\<close>

definition update_last :: "string \<Rightarrow> int \<Rightarrow> string \<Rightarrow> scan_state \<Rightarrow> scan_state" where
  "update_last trip_id seq sid st =
     (if (case last_stop_seq st trip_id of None \<Rightarrow> True | Some l \<Rightarrow> l < seq) then
        st\<lparr>last_stop_seq := (last_stop_seq st)(trip_id \<mapsto> seq),
           last_stop_id := (last_stop_id st)(trip_id \<mapsto> sid)\<rparr>
      else st)"

definition scan_stop_time :: "trip_metas \<Rightarrow> scan_state \<Rightarrow> row \<Rightarrow> scan_state res" where
  "scan_stop_time tm st r =
     bind_res (get_col r ''trip_id'') (\<lambda>trip_id.
       if map_of tm trip_id = None then Inr st
       else
         bind_res (bind_res (get_col r ''stop_sequence'') py_int) (\<lambda>seq.
         bind_res (get_col r ''stop_id'') (\<lambda>sid.
         bind_res (update_first trip_id seq sid
                     (py_or (r ''departure_time'') (r ''arrival_time'')) st) (\<lambda>st2.
           Inr (update_last trip_id seq sid st2)))))"

definition scan_stop_times :: "trip_metas \<Rightarrow> row list \<Rightarrow> scan_state res" where
  "scan_stop_times tm rows = fold_res (scan_stop_time tm) rows scan_init"

text \<open>
  The agreement the five dictionaries keep: the first and last maps have the same trips,
  a first departure exists only for a trip with a first stop, and the first sequence is at
  most the last.
\<close>

definition scan_inv :: "scan_state \<Rightarrow> bool" where
  "scan_inv st =
     (dom (first_stop_seq st) = dom (first_stop_id st) \<and>
      dom (last_stop_seq st) = dom (last_stop_id st) \<and>
      dom (first_stop_seq st) = dom (last_stop_seq st) \<and>
      dom (first_departure_min st) \<subseteq> dom (first_stop_seq st) \<and>
      (\<forall>t f l. first_stop_seq st t = Some f \<longrightarrow> last_stop_seq st t = Some l \<longrightarrow> f \<le> l))"

text \<open>
  What the scan is specified against: the parsed stop sequences of a trip's rows, in row
  order, and the running minimum and maximum over them.
\<close>

definition row_seq :: "row \<Rightarrow> int option" where
  "row_seq r = (case r ''stop_sequence'' of
                  None \<Rightarrow> None
                | Some v \<Rightarrow> (case py_int v of Inl _ \<Rightarrow> None | Inr s \<Rightarrow> Some s))"

definition trip_seqs :: "row list \<Rightarrow> string \<Rightarrow> int list" where
  "trip_seqs rows t = List.map_filter (\<lambda>r. if r ''trip_id'' = Some t then row_seq r else None) rows"

definition min_opt :: "int option \<Rightarrow> int \<Rightarrow> int option" where
  "min_opt acc s = Some (case acc of None \<Rightarrow> s | Some f \<Rightarrow> min f s)"

definition max_opt :: "int option \<Rightarrow> int \<Rightarrow> int option" where
  "max_opt acc s = Some (case acc of None \<Rightarrow> s | Some l \<Rightarrow> max l s)"

text \<open>
  A sample of trips.txt and stop_times.txt for the witnesses: one trip \<open>t1\<close> whose rows come
  in file order with sequence 2 (departure 08:10:00) before sequence 1 (no departure), and a
  row of an unknown trip with an unparsable sequence, which the scan never reads.
\<close>

definition sample_trip_meta :: trip_metas where
  "sample_trip_meta = [(''t1'', \<lparr>line = ''A'', service_id = ''S'', direction_id = 0\<rparr>)]"

definition sample_stop_times :: "row list" where
  "sample_stop_times =
     [[''trip_id'' \<mapsto> ''t1'', ''stop_sequence'' \<mapsto> ''2'', ''stop_id'' \<mapsto> ''X'',
       ''departure_time'' \<mapsto> ''08:10:00''],
      [''trip_id'' \<mapsto> ''t1'', ''stop_sequence'' \<mapsto> ''1'', ''stop_id'' \<mapsto> ''Y'',
       ''departure_time'' \<mapsto> ''''],
      [''trip_id'' \<mapsto> ''zz'', ''stop_sequence'' \<mapsto> ''n/a'']]"

subsection \<open>One row of the scan\<close>

lemma update_last_fields [simp]:
  "first_stop_seq (update_last t s sid st) = first_stop_seq st"
  "first_stop_id (update_last t s sid st) = first_stop_id st"
  "first_departure_min (update_last t s sid st) = first_departure_min st"
  "last_stop_seq (update_last t s sid st) =
     (last_stop_seq st)(t \<mapsto> (case last_stop_seq st t of None \<Rightarrow> s | Some l \<Rightarrow> max l s))"
  by (auto simp: update_last_def split: option.splits)

lemma update_last_id:
  "last_stop_id (update_last t s sid st) =
     (if (case last_stop_seq st t of None \<Rightarrow> True | Some l \<Rightarrow> l < s)
      then (last_stop_id st)(t \<mapsto> sid) else last_stop_id st)"
  by (simp add: update_last_def)

lemma update_first_Inr:
  assumes "update_first t s sid dep st = Inr st'"
  shows "first_stop_seq st' =
           (first_stop_seq st)(t \<mapsto> (case first_stop_seq st t of None \<Rightarrow> s | Some f \<Rightarrow> min f s))"
    and "last_stop_seq st' = last_stop_seq st" and "last_stop_id st' = last_stop_id st"
    and "first_stop_id st' =
           (if (case first_stop_seq st t of None \<Rightarrow> True | Some f \<Rightarrow> s < f)
            then (first_stop_id st)(t \<mapsto> sid) else first_stop_id st)"
    and "dom (first_departure_min st') \<subseteq> insert t (dom (first_departure_min st))"
    and "\<forall>t'. t' \<noteq> t \<longrightarrow> first_departure_min st' t' = first_departure_min st t'"
  using assms
  by (auto simp: update_first_def Let_def bind_res_eq_Inr split: if_splits option.splits)

lemma scan_stop_time_cases:
  assumes "scan_stop_time tm st r = Inr st'"
  shows "(\<exists>t. r ''trip_id'' = Some t \<and> map_of tm t = None \<and> st' = st) \<or>
         (\<exists>t s sid st2. r ''trip_id'' = Some t \<and> map_of tm t \<noteq> None \<and>
            bind_res (get_col r ''stop_sequence'') py_int = Inr s \<and> r ''stop_id'' = Some sid \<and>
            update_first t s sid (py_or (r ''departure_time'') (r ''arrival_time'')) st = Inr st2 \<and>
            st' = update_last t s sid st2)"
  using assms
  by (auto simp: scan_stop_time_def bind_res_eq_Inr get_col_Inr split: if_splits)

lemma scan_inv_init: "scan_inv scan_init"
  by (simp add: scan_inv_def scan_init_def)

lemma scan_inv_step:
  assumes inv: "scan_inv st" and step: "update_first t s sid dep st = Inr st2"
  shows "scan_inv (update_last t s sid st2)"
proof -
  note u = update_first_Inr [OF step]
  let ?st' = "update_last t s sid st2"
  have df: "dom (first_stop_seq ?st') = insert t (dom (first_stop_seq st))" using u(1) by auto
  have dfi: "dom (first_stop_id ?st') = insert t (dom (first_stop_seq st))"
    using u(4) inv by (auto simp: scan_inv_def split: option.splits if_splits)
  have dl: "dom (last_stop_seq ?st') = insert t (dom (last_stop_seq st))" using u(2) by auto
  have dli: "dom (last_stop_id ?st') = insert t (dom (last_stop_seq st))"
    using u(2,3) inv by (auto simp: update_last_id scan_inv_def split: option.splits if_splits)
  have dd0: "dom (first_departure_min st) \<subseteq> dom (first_stop_seq st)"
    using inv unfolding scan_inv_def by blast
  have dd: "dom (first_departure_min ?st') \<subseteq> insert t (dom (first_stop_seq st))"
    using u(5) dd0 by (simp only: update_last_fields) blast
  have ord: "\<forall>t' f l. first_stop_seq ?st' t' = Some f \<longrightarrow> last_stop_seq ?st' t' = Some l \<longrightarrow> f \<le> l"
    using u(1,2) inv by (auto simp: scan_inv_def split: option.splits)
  have same: "dom (first_stop_seq st) = dom (last_stop_seq st)"
    using inv unfolding scan_inv_def by blast
  show ?thesis unfolding scan_inv_def using df dfi dl dli dd ord same by simp
qed

lemma scan_stop_time_inv:
  "scan_inv st \<Longrightarrow> scan_stop_time tm st r = Inr st' \<Longrightarrow> scan_inv st'"
  by (drule scan_stop_time_cases) (auto intro: scan_inv_step)

lemma scan_stop_time_seqs:
  assumes step: "scan_stop_time tm st r = Inr st'" and known: "map_of tm t \<noteq> None"
  shows "first_stop_seq st' t =
           (if r ''trip_id'' = Some t then min_opt (first_stop_seq st t) (the (row_seq r))
            else first_stop_seq st t)"
    and "last_stop_seq st' t =
           (if r ''trip_id'' = Some t then max_opt (last_stop_seq st t) (the (row_seq r))
            else last_stop_seq st t)"
    and "r ''trip_id'' = Some t \<Longrightarrow> row_seq r \<noteq> None"
proof -
  have "(\<exists>t'. r ''trip_id'' = Some t' \<and> t' \<noteq> t \<and> st' = st) \<or>
        (\<exists>t' s sid st2. r ''trip_id'' = Some t' \<and> row_seq r = Some s \<and>
           update_first t' s sid (py_or (r ''departure_time'') (r ''arrival_time'')) st = Inr st2 \<and>
           st' = update_last t' s sid st2)"
  proof (rule disjE [OF scan_stop_time_cases [OF step]])
    assume "\<exists>t. r ''trip_id'' = Some t \<and> map_of tm t = None \<and> st' = st"
    then show ?thesis using known by auto
  next
    assume "\<exists>t s sid st2. r ''trip_id'' = Some t \<and> map_of tm t \<noteq> None \<and>
            bind_res (get_col r ''stop_sequence'') py_int = Inr s \<and> r ''stop_id'' = Some sid \<and>
            update_first t s sid (py_or (r ''departure_time'') (r ''arrival_time'')) st = Inr st2 \<and>
            st' = update_last t s sid st2"
    then obtain t' s sid st2 where a: "r ''trip_id'' = Some t'"
      and p: "bind_res (get_col r ''stop_sequence'') py_int = Inr s"
      and u: "update_first t' s sid (py_or (r ''departure_time'') (r ''arrival_time'')) st = Inr st2"
      and e: "st' = update_last t' s sid st2"
      by blast
    from p have "row_seq r = Some s" by (auto simp: bind_res_eq_Inr get_col_Inr row_seq_def)
    with a u e show ?thesis by blast
  qed
  then consider (skip) t' where "r ''trip_id'' = Some t'" "t' \<noteq> t" "st' = st"
    | (upd) t' s sid st2 where "r ''trip_id'' = Some t'" "row_seq r = Some s"
        "update_first t' s sid (py_or (r ''departure_time'') (r ''arrival_time'')) st = Inr st2"
        "st' = update_last t' s sid st2"
    by blast
  then have "first_stop_seq st' t =
           (if r ''trip_id'' = Some t then min_opt (first_stop_seq st t) (the (row_seq r))
            else first_stop_seq st t) \<and>
         last_stop_seq st' t =
           (if r ''trip_id'' = Some t then max_opt (last_stop_seq st t) (the (row_seq r))
            else last_stop_seq st t) \<and>
         (r ''trip_id'' = Some t \<longrightarrow> row_seq r \<noteq> None)"
  proof cases
    case skip
    then show ?thesis by simp
  next
    case (upd t' s sid st2)
    note u = update_first_Inr(1,2) [OF upd(3)]
    show ?thesis using upd(1,2,4) u by (simp add: min_opt_def max_opt_def)
  qed
  then show "first_stop_seq st' t =
           (if r ''trip_id'' = Some t then min_opt (first_stop_seq st t) (the (row_seq r))
            else first_stop_seq st t)"
    and "last_stop_seq st' t =
           (if r ''trip_id'' = Some t then max_opt (last_stop_seq st t) (the (row_seq r))
            else last_stop_seq st t)"
    and "r ''trip_id'' = Some t \<Longrightarrow> row_seq r \<noteq> None"
    by simp_all
qed

lemma map_filter_Cons_if:
  "List.map_filter f (x # xs) = (case f x of None \<Rightarrow> List.map_filter f xs | Some y \<Rightarrow> y # List.map_filter f xs)"
  by (simp add: List.map_filter_def split: option.splits)

lemma fold_scan_seqs:
  assumes "fold_res (scan_stop_time tm) rows st0 = Inr st" and "map_of tm t \<noteq> None"
  shows "first_stop_seq st t = foldl min_opt (first_stop_seq st0 t) (trip_seqs rows t) \<and>
         last_stop_seq st t = foldl max_opt (last_stop_seq st0 t) (trip_seqs rows t)"
  using assms(1)
proof (induction rows arbitrary: st0)
  case Nil
  then show ?case by (simp add: trip_seqs_def List.map_filter_def)
next
  case (Cons r rows)
  then obtain st1 where s1: "scan_stop_time tm st0 r = Inr st1"
    and rest: "fold_res (scan_stop_time tm) rows st1 = Inr st"
    by (auto simp: bind_res_eq_Inr)
  note one = scan_stop_time_seqs [OF s1 assms(2)]
  show ?case
    using Cons.IH [OF rest] one
    by (cases "r ''trip_id'' = Some t") (auto simp: trip_seqs_def map_filter_Cons_if)
qed

lemma foldl_min_opt:
  "foldl min_opt acc xs = (if xs = [] then acc
     else Some (case acc of None \<Rightarrow> Min (set xs) | Some a \<Rightarrow> Min (insert a (set xs))))"
proof (induction xs arbitrary: acc)
  case Nil
  then show ?case by simp
next
  case (Cons x xs)
  show ?case
  proof (cases "xs = []")
    case True
    then show ?thesis by (simp add: min_opt_def split: option.splits)
  next
    case False
    have "foldl min_opt acc (x # xs) = foldl min_opt (min_opt acc x) xs" by simp
    also have "\<dots> = Some (case min_opt acc x of None \<Rightarrow> Min (set xs) | Some a \<Rightarrow> Min (insert a (set xs)))"
      using Cons.IH False by simp
    also have "\<dots> = Some (case acc of None \<Rightarrow> Min (set (x # xs)) | Some a \<Rightarrow> Min (insert a (set (x # xs))))"
      using False by (simp add: min_opt_def min.assoc split: option.splits)
    finally show ?thesis using False by simp
  qed
qed

lemma foldl_max_opt:
  "foldl max_opt acc xs = (if xs = [] then acc
     else Some (case acc of None \<Rightarrow> Max (set xs) | Some a \<Rightarrow> Max (insert a (set xs))))"
proof (induction xs arbitrary: acc)
  case Nil
  then show ?case by simp
next
  case (Cons x xs)
  show ?case
  proof (cases "xs = []")
    case True
    then show ?thesis by (simp add: max_opt_def split: option.splits)
  next
    case False
    have "foldl max_opt acc (x # xs) = foldl max_opt (max_opt acc x) xs" by simp
    also have "\<dots> = Some (case max_opt acc x of None \<Rightarrow> Max (set xs) | Some a \<Rightarrow> Max (insert a (set xs)))"
      using Cons.IH False by simp
    also have "\<dots> = Some (case acc of None \<Rightarrow> Max (set (x # xs)) | Some a \<Rightarrow> Max (insert a (set (x # xs))))"
      using False by (simp add: max_opt_def max.assoc split: option.splits)
    finally show ?thesis using False by simp
  qed
qed

lemma scan_stop_time_unknown:
  assumes "scan_stop_time tm st r = Inr st'" and "map_of tm t = None"
  shows "first_stop_seq st' t = first_stop_seq st t"
proof (rule disjE [OF scan_stop_time_cases [OF assms(1)]])
  assume "\<exists>t. r ''trip_id'' = Some t \<and> map_of tm t = None \<and> st' = st"
  then show ?thesis by auto
next
  assume "\<exists>t s sid st2. r ''trip_id'' = Some t \<and> map_of tm t \<noteq> None \<and>
            bind_res (get_col r ''stop_sequence'') py_int = Inr s \<and> r ''stop_id'' = Some sid \<and>
            update_first t s sid (py_or (r ''departure_time'') (r ''arrival_time'')) st = Inr st2 \<and>
            st' = update_last t s sid st2"
  then obtain t' s sid dep st2 where k: "map_of tm t' \<noteq> None"
    and u: "update_first t' s sid dep st = Inr st2" and e: "st' = update_last t' s sid st2"
    by blast
  from k assms(2) have "t \<noteq> t'" by auto
  with update_first_Inr(1) [OF u] e show ?thesis by simp
qed

lemma scan_stop_time_known_dom:
  "scan_stop_time tm st r = Inr st' \<Longrightarrow> dom (first_stop_seq st) \<subseteq> dom (map_of tm) \<Longrightarrow>
   dom (first_stop_seq st') \<subseteq> dom (map_of tm)"
  using scan_stop_time_unknown [of tm st r st'] by (fastforce simp: dom_def)

subsection \<open>The scan over all rows\<close>

text \<open>
  C12: After a successful scan of stop_times.txt, the five dictionaries agree: the trips
  with a first stop are those with a last stop, each with its stop id; a first departure is
  recorded only for such a trip; the first sequence is at most the last; and every trip
  recorded is one of \<open>trip_meta\<close>.
\<close>

theorem scan_stop_times_inv:
  "scan_stop_times tm rows = Inr st \<Longrightarrow> scan_inv st \<and> dom (first_stop_seq st) \<subseteq> dom (map_of tm)"
proof -
  assume run: "scan_stop_times tm rows = Inr st"
  show ?thesis
  proof (rule fold_res_invariant [where P = "\<lambda>st. scan_inv st \<and> dom (first_stop_seq st) \<subseteq> dom (map_of tm)"
        and f = "scan_stop_time tm" and xs = rows and s = scan_init])
    fix s x s'
    assume "scan_inv s \<and> dom (first_stop_seq s) \<subseteq> dom (map_of tm)" and "scan_stop_time tm s x = Inr s'"
    then show "scan_inv s' \<and> dom (first_stop_seq s') \<subseteq> dom (map_of tm)"
      using scan_stop_time_inv scan_stop_time_known_dom by blast
  next
    show "scan_inv scan_init \<and> dom (first_stop_seq scan_init) \<subseteq> dom (map_of tm)"
      using scan_inv_init by (simp add: scan_init_def)
  next
    show "fold_res (scan_stop_time tm) rows scan_init = Inr st"
      using run by (simp add: scan_stop_times_def)
  qed
qed

text \<open>
  C13: After a successful scan, a trip of \<open>trip_meta\<close> has as first and last sequence the
  minimum and the maximum of the stop sequences of its rows, and none if it has no row.
\<close>

theorem scan_stop_times_seqs:
  assumes "scan_stop_times tm rows = Inr st" and "t \<in> dom (map_of tm)"
  shows "first_stop_seq st t =
           (if trip_seqs rows t = [] then None else Some (Min (set (trip_seqs rows t)))) \<and>
         last_stop_seq st t =
           (if trip_seqs rows t = [] then None else Some (Max (set (trip_seqs rows t))))"
  using fold_scan_seqs [of tm rows scan_init st t] assms
  by (auto simp: scan_stop_times_def foldl_min_opt foldl_max_opt scan_init_def)

lemma sample_scan:
  "case scan_stop_times sample_trip_meta sample_stop_times of
     Inl _ \<Rightarrow> False
   | Inr st \<Rightarrow> first_stop_seq st ''t1'' = Some 1 \<and> last_stop_seq st ''t1'' = Some 2 \<and>
              first_stop_id st ''t1'' = Some ''Y'' \<and> last_stop_id st ''t1'' = Some ''X'' \<and>
              first_departure_min st ''t1'' = Some 490"
  unfolding sample_trip_meta_def sample_stop_times_def by code_simp

lemma sample_scan_Inr:
  obtains st where "scan_stop_times sample_trip_meta sample_stop_times = Inr st"
    and "first_stop_seq st ''t1'' = Some 1" and "last_stop_seq st ''t1'' = Some 2"
    and "first_stop_id st ''t1'' = Some ''Y''" and "last_stop_id st ''t1'' = Some ''X''"
    and "first_departure_min st ''t1'' = Some 490"
  using sample_scan by (auto split: sum.splits)

theorem scan_stop_times_inv_witness:
  "\<exists>st. scan_stop_times sample_trip_meta sample_stop_times = Inr st \<and>
        scan_inv st \<and> dom (first_stop_seq st) \<subseteq> dom (map_of sample_trip_meta)"
  using sample_scan_Inr scan_stop_times_inv by metis

theorem scan_stop_times_seqs_witness:
  "\<exists>st. scan_stop_times sample_trip_meta sample_stop_times = Inr st \<and>
        ''t1'' \<in> dom (map_of sample_trip_meta) \<and>
        first_stop_seq st ''t1'' = Some 1 \<and> last_stop_seq st ''t1'' = Some 2"
proof -
  obtain st where run: "scan_stop_times sample_trip_meta sample_stop_times = Inr st"
    using sample_scan_Inr by blast
  have k: "''t1'' \<in> dom (map_of sample_trip_meta)" by (simp add: sample_trip_meta_def)
  have seqs: "trip_seqs sample_stop_times ''t1'' = [2, 1]"
    unfolding sample_stop_times_def by code_simp
  show ?thesis using scan_stop_times_seqs [OF run k] run k seqs by auto
qed



subsection \<open>Loading routes and trips\<close>

lemma load_routes_keys:
  assumes "load_routes rows = Inr r"
  shows "distinct (map fst r) \<and> set (map fst r) \<subseteq> set LINES"
proof -
  have step: "distinct (map fst r') \<and> set (map fst r') \<subseteq> set LINES"
    if "distinct (map fst r0) \<and> set (map fst r0) \<subseteq> set LINES" "load_route_row r0 x = Inr r'" for r0 x r'
    using that by (auto simp: load_route_row_def bind_res_eq_Inr distinct_dict_set
        split: option.splits if_splits dest!: set_dict_set_sub [THEN subsetD])
  show ?thesis
    using fold_res_invariant [where P = "\<lambda>r. distinct (map fst r) \<and> set (map fst r) \<subseteq> set LINES",
        OF step _ assms [unfolded load_routes_def]] by simp
qed

lemma line_of_route_key: "line_of_route r rid = Some l \<Longrightarrow> l \<in> set (map fst r)"
  by (auto simp: line_of_route_def find_Some_iff) (metis fst_conv image_eqI nth_mem)

lemma load_trips_lines:
  assumes "load_trips r rows = Inr tm"
  shows "distinct (map fst tm) \<and> (\<forall>p\<in>set tm. line (snd p) \<in> set (map fst r))"
proof -
  have step: "distinct (map fst tm') \<and> (\<forall>p\<in>set tm'. line (snd p) \<in> set (map fst r))"
    if inv: "distinct (map fst tm0) \<and> (\<forall>p\<in>set tm0. line (snd p) \<in> set (map fst r))"
       and row: "load_trip_row r tm0 x = Inr tm'" for tm0 x tm'
  proof -
    obtain rid where rid: "get_col x ''route_id'' = Inr rid"
      and rest: "(case line_of_route r rid of
          None \<Rightarrow> Inr tm0
        | Some l \<Rightarrow>
            (if l = [] then Inr tm0
             else
               bind_res (get_col x ''trip_id'') (\<lambda>trip_id.
               bind_res (read_direction (x ''direction_id'')) (\<lambda>dir.
               bind_res (get_col x ''service_id'') (\<lambda>sid.
                 Inr (dict_set tm0 trip_id \<lparr>line = l, service_id = sid, direction_id = dir\<rparr>)))))) = Inr tm'"
      using row by (auto simp: load_trip_row_def bind_res_eq_Inr)
    show ?thesis
    proof (cases "line_of_route r rid")
      case None
      then show ?thesis using rest inv by simp
    next
      case (Some l)
      then have lk: "l \<in> set (map fst r)" by (rule line_of_route_key)
      show ?thesis
      proof (cases "l = []")
        case True
        then show ?thesis using rest inv Some by simp
      next
        case False
        then obtain tid dir sid where tm': "tm' = dict_set tm0 tid \<lparr>line = l, service_id = sid, direction_id = dir\<rparr>"
          using rest Some by (auto simp: bind_res_eq_Inr)
        show ?thesis
          using inv lk unfolding tm'
          by (auto simp: distinct_dict_set dest!: set_dict_set_sub [THEN subsetD]) force
      qed
    qed
  qed
  show ?thesis
    using fold_res_invariant [where P = "\<lambda>tm. distinct (map fst tm) \<and> (\<forall>p\<in>set tm. line (snd p) \<in> set (map fst r))",
        OF step _ assms [unfolded load_trips_def]] by simp
qed

text \<open>
  C24: After loading, \<open>route_id_by_short\<close> and \<open>trip_meta\<close> have no duplicate key (a
  repeated key keeps its first position and its last value), every short name kept is one
  of \<open>LINES\<close>, and so is the line of every loaded trip.
\<close>

theorem loaded_trip_lines:
  assumes "load_routes route_rows = Inr r" and "load_trips r trip_rows = Inr tm"
  shows "distinct (map fst r) \<and> set (map fst r) \<subseteq> set LINES \<and>
         distinct (map fst tm) \<and> (\<forall>p\<in>set tm. line (snd p) \<in> set LINES)"
  using load_routes_keys [OF assms(1)] load_trips_lines [OF assms(2)] by auto

theorem loaded_trip_lines_witness:
  "load_routes [[''route_short_name'' \<mapsto> ''A'', ''route_id'' \<mapsto> ''R1''],
                [''route_short_name'' \<mapsto> ''Z'', ''route_id'' \<mapsto> ''R9'']] = Inr [(''A'', ''R1'')] \<and>
   load_trips [(''A'', ''R1'')]
     [[''route_id'' \<mapsto> ''R1'', ''trip_id'' \<mapsto> ''t1'', ''service_id'' \<mapsto> ''S''],
      [''route_id'' \<mapsto> ''R9'', ''trip_id'' \<mapsto> ''t2'', ''service_id'' \<mapsto> ''S''],
      [''route_id'' \<mapsto> ''R1'', ''trip_id'' \<mapsto> ''t1'', ''service_id'' \<mapsto> ''S2'', ''direction_id'' \<mapsto> ''1'']] =
     Inr [(''t1'', \<lparr>line = ''A'', service_id = ''S2'', direction_id = 1\<rparr>)] \<and>
   line \<lparr>line = ''A'', service_id = ''S2'', direction_id = 1\<rparr> \<in> set LINES"
proof -
  have r: "load_routes [[''route_short_name'' \<mapsto> ''A'', ''route_id'' \<mapsto> ''R1''],
                [''route_short_name'' \<mapsto> ''Z'', ''route_id'' \<mapsto> ''R9'']] = Inr [(''A'', ''R1'')]"
    by code_simp
  have t: "load_trips [(''A'', ''R1'')]
     [[''route_id'' \<mapsto> ''R1'', ''trip_id'' \<mapsto> ''t1'', ''service_id'' \<mapsto> ''S''],
      [''route_id'' \<mapsto> ''R9'', ''trip_id'' \<mapsto> ''t2'', ''service_id'' \<mapsto> ''S''],
      [''route_id'' \<mapsto> ''R1'', ''trip_id'' \<mapsto> ''t1'', ''service_id'' \<mapsto> ''S2'', ''direction_id'' \<mapsto> ''1'']] =
     Inr [(''t1'', \<lparr>line = ''A'', service_id = ''S2'', direction_id = 1\<rparr>)]"
    by code_simp
  show ?thesis using loaded_trip_lines [OF r t] r t by simp
qed

end
