(* ===== verification/Stats.thy ===== *)
theory Stats
  imports Prelude
begin

text \<open>
  The headway statistics (src/scripts/gtfs_faq_summary.py, lines 111--116 and 253--261)
  and the library functions they call, as CPython 3.11 implements them:
  \<^item> \<open>gaps_of\<close> is the list comprehension of consecutive differences (line 254) and
    \<open>headway_gaps\<close> the filter dropping gaps of at most half a minute (line 255);
  \<^item> \<open>py_median\<close> is \<open>statistics.median\<close>: sort, middle element or mean of the two
    middle elements, \<open>StatisticsError\<close> on no data;
  \<^item> \<open>py_quantiles\<close> is \<open>statistics.quantiles(data, n=n)\<close> with the default exclusive
    method: \<open>m = len + 1\<close>, cut point \<open>i\<close> at \<open>j = i*m // n\<close> clamped to \<open>1..len-1\<close>,
    \<open>delta = i*m - j*n\<close>, linear interpolation \<open>(data[j-1]*(n-delta) + data[j]*delta)/n\<close>;
  \<^item> \<open>safe_quantiles\<close> is the script's wrapper returning the first and last decile;
  \<^item> \<open>most_common1\<close> is \<open>Counter(xs).most_common(1)[0][0]\<close>: the counter's keys in order
    of first occurrence (\<open>counter\<close>), \<open>heapq.nlargest(1, ...)\<close>, i.e. \<open>max\<close> by count, which keeps the
    first of equal maxima (\<open>first_max\<close>), and \<open>IndexError\<close> on an empty list.
\<close>

definition gaps_of :: "rat list \<Rightarrow> rat list" where
  "gaps_of ts = map (\<lambda>i. ts ! (i + 1) - ts ! i) [0..<length ts - 1]"

definition headway_gaps :: "rat list \<Rightarrow> rat list" where
  "headway_gaps ts = filter (\<lambda>g. 1/2 < g) (gaps_of ts)"

definition py_median :: "rat list \<Rightarrow> rat res" where
  "py_median data0 =
     (let data = sort data0; n = length data
      in if n = 0 then Inl StatisticsError
         else if n mod 2 = 1 then Inr (data ! (n div 2))
         else (let i = n div 2 in Inr ((data ! (i - 1) + data ! i) / 2)))"

definition quantile_cut :: "rat list \<Rightarrow> nat \<Rightarrow> nat \<Rightarrow> rat" where
  "quantile_cut data n i =
     (let ld = length data; m = ld + 1;
          j = i * m div n;
          j = (if j < 1 then 1 else if ld - 1 < j then ld - 1 else j);
          delta = int (i * m) - int (j * n)
      in (data ! (j - 1) * of_int (int n - delta) + data ! j * of_int delta) / of_nat n)"

definition py_quantiles :: "nat \<Rightarrow> rat list \<Rightarrow> rat list res" where
  "py_quantiles n data0 =
     (if n < 1 then Inl StatisticsError
      else (let data = sort data0
            in if length data < 2 then Inl StatisticsError
               else Inr (map (quantile_cut data n) [1..<n])))"

definition safe_quantiles :: "rat list \<Rightarrow> (rat option \<times> rat option) res" where
  "safe_quantiles values =
     (if length values < 10 then Inr (None, None)
      else bind_res (py_quantiles 10 values) (\<lambda>deciles.
             case deciles of
               [] \<Rightarrow> Inl IndexError
             | d # _ \<Rightarrow> Inr (Some d, Some (last deciles))))"

fun first_max :: "('a \<Rightarrow> nat) \<Rightarrow> 'a \<Rightarrow> 'a list \<Rightarrow> 'a" where
  "first_max key best [] = best"
| "first_max key best (x # xs) = (if key best < key x then first_max key x xs else first_max key best xs)"

text \<open>\<open>Counter(xs)\<close> runs \<open>_count_elements\<close>: \<open>mapping[elem] = mapping_get(elem, 0) + 1\<close>.\<close>

fun count_elements :: "('a \<times> nat) list \<Rightarrow> 'a list \<Rightarrow> ('a \<times> nat) list" where
  "count_elements m [] = m"
| "count_elements m (x # xs) =
     count_elements (dict_set m x ((case map_of m x of None \<Rightarrow> 0 | Some c \<Rightarrow> c) + 1)) xs"

definition counter :: "'a list \<Rightarrow> ('a \<times> nat) list" where
  "counter xs = count_elements [] xs"

definition most_common1 :: "'a list \<Rightarrow> 'a res" where
  "most_common1 xs =
     (case counter xs of [] \<Rightarrow> Inl IndexError | p # ps \<Rightarrow> Inr (fst (first_max snd p ps)))"

subsection \<open>Gaps\<close>

lemma gaps_of_Cons_Cons [simp]: "gaps_of (a # b # rest) = (b - a) # gaps_of (b # rest)"
  by (simp add: gaps_of_def map_upt_Suc del: upt_Suc)

lemma gaps_of_short [simp]: "gaps_of [] = []" "gaps_of [a] = []"
  by (simp_all add: gaps_of_def)

lemma length_gaps_of: "length (gaps_of ts) = length ts - 1"
  by (simp add: gaps_of_def)

lemma gaps_of_sorted_nonneg: "sorted ts \<Longrightarrow> g \<in> set (gaps_of ts) \<Longrightarrow> 0 \<le> g"
  by (induction ts rule: induct_list012) auto

lemma sum_gaps_of: "ts \<noteq> [] \<Longrightarrow> sum_list (gaps_of ts) = last ts - hd ts"
  by (induction ts rule: induct_list012) auto

subsection \<open>Order statistics of a sorted list\<close>

lemma sorted_nth_le: "sorted xs \<Longrightarrow> i \<le> j \<Longrightarrow> j < length xs \<Longrightarrow> xs ! i \<le> xs ! j"
  by (rule sorted_nth_mono)

lemma mean_between: "(a::rat) \<le> b \<Longrightarrow> a \<le> (a + b) / 2 \<and> (a + b) / 2 \<le> b"
  by (simp add: field_simps)

lemma py_median_Inr:
  "xs \<noteq> [] \<Longrightarrow> py_median xs =
     Inr (if odd (length xs) then sort xs ! (length xs div 2)
          else (sort xs ! (length xs div 2 - 1) + sort xs ! (length xs div 2)) / 2)"
proof -
  assume "xs \<noteq> []"
  then have "sort xs \<noteq> []" by (metis length_0_conv length_sort)
  then show ?thesis by (simp add: py_median_def Let_def odd_iff_mod_2_eq_one)
qed

lemma py_median_Nil: "py_median [] = Inl StatisticsError"
  by (simp add: py_median_def)

text \<open>The median lies between the two middle elements of the sorted data.\<close>

lemma py_median_sorted:
  assumes "xs \<noteq> []"
  shows "\<exists>m. py_median xs = Inr m \<and>
           sort xs ! ((length xs - 1) div 2) \<le> m \<and> m \<le> sort xs ! (length xs div 2)"
proof (cases "odd (length xs)")
  case True
  then have "(length xs - 1) div 2 = length xs div 2" by presburger
  with True assms show ?thesis by (simp add: py_median_Inr)
next
  case False
  let ?d = "sort xs" and ?n = "length xs"
  have "?n \<noteq> 0" using assms by simp
  with False have even: "1 \<le> ?n div 2" "(?n - 1) div 2 = ?n div 2 - 1" by presburger+
  have "?n div 2 < length ?d" using assms by simp
  then have "?d ! (?n div 2 - 1) \<le> ?d ! (?n div 2)"
    by (intro sorted_nth_mono) auto
  then have "?d ! (?n div 2 - 1) \<le> (?d ! (?n div 2 - 1) + ?d ! (?n div 2)) / 2 \<and>
    (?d ! (?n div 2 - 1) + ?d ! (?n div 2)) / 2 \<le> ?d ! (?n div 2)" by (rule mean_between)
  moreover have "py_median xs = Inr ((?d ! (?n div 2 - 1) + ?d ! (?n div 2)) / 2)"
    using False assms by (simp add: py_median_Inr)
  ultimately show ?thesis unfolding even(2) by blast
qed

lemma interp_between:
  fixes a b d n :: rat
  assumes "a \<le> b" "0 \<le> d" "d \<le> n" "0 < n"
  shows "a \<le> (a * (n - d) + b * d) / n \<and> (a * (n - d) + b * d) / n \<le> b"
proof -
  have e: "a * (n - d) + b * d = a * n + (b - a) * d" by (simp add: algebra_simps)
  have "0 \<le> (b - a) * d" using assms by simp
  moreover have "(b - a) * d \<le> (b - a) * n" using assms by (simp add: mult_left_mono)
  ultimately have "a * n \<le> a * (n - d) + b * d" "a * (n - d) + b * d \<le> b * n"
    unfolding e by (simp_all add: algebra_simps)
  with assms show ?thesis by (simp add: divide_le_eq le_divide_eq)
qed

lemma quantile_cut_between:
  assumes s: "sorted data" and n: "0 < n"
    and lo: "1 \<le> i * (length data + 1) div n" and hi: "i * (length data + 1) div n \<le> length data - 1"
  shows "data ! (i * (length data + 1) div n - 1) \<le> quantile_cut data n i \<and>
         quantile_cut data n i \<le> data ! (i * (length data + 1) div n)"
proof -
  let ?m = "length data + 1"
  let ?j = "i * ?m div n"
  have j: "\<not> ?j < 1" "\<not> length data - 1 < ?j" using lo hi by simp_all
  have dl: "int (i * ?m) - int (?j * n) = int (i * ?m mod n)"
    by (simp add: minus_div_mult_eq_mod [symmetric] of_nat_diff)
  have dlt: "i * ?m mod n < n" using n by simp
  have ab: "data ! (?j - 1) \<le> data ! ?j"
    using s lo hi by (intro sorted_nth_mono) auto
  have "data ! (?j - 1) \<le> (data ! (?j - 1) * of_int (int n - int (i * ?m mod n)) +
                           data ! ?j * of_int (int (i * ?m mod n))) / of_nat n \<and>
        (data ! (?j - 1) * of_int (int n - int (i * ?m mod n)) +
                           data ! ?j * of_int (int (i * ?m mod n))) / of_nat n \<le> data ! ?j"
    using interp_between [OF ab, of "of_nat (i * ?m mod n)" "of_nat n"] dlt n
    by (simp add: of_nat_diff)
  then show ?thesis unfolding quantile_cut_def Let_def using j dl by simp
qed

lemma decile_index_lo: "10 \<le> (ld::nat) \<Longrightarrow> 1 \<le> (ld + 1) div 10 \<and> (ld + 1) div 10 \<le> (ld - 1) div 2"
  by linarith

lemma decile_index_hi:
  assumes "10 \<le> (ld::nat)" shows "ld div 2 + 1 \<le> 9 * (ld + 1) div 10 \<and> 9 * (ld + 1) div 10 \<le> ld - 1"
proof -
  have "ld div 2 * 2 \<le> ld" by simp
  with assms have "ld div 2 * 10 + 10 \<le> 9 * ld + 9" by linarith
  then have "(ld div 2 + 1) * 10 \<le> 9 * (ld + 1)" by simp
  then have a: "ld div 2 + 1 \<le> 9 * (ld + 1) div 10" by (simp add: less_eq_div_iff_mult_less_eq)
  have "9 * (ld + 1) < ld * 10" using assms by simp
  then have "9 * (ld + 1) div 10 < ld" by (simp add: div_less_iff_less_mult)
  with a show ?thesis by linarith
qed
lemma py_quantiles_Inr:
  "0 < n \<Longrightarrow> 2 \<le> length xs \<Longrightarrow> py_quantiles n xs = Inr (map (quantile_cut (sort xs) n) [1..<n])"
  by (simp add: py_quantiles_def)

lemma safe_quantiles_Inr:
  "10 \<le> length gs \<Longrightarrow>
     safe_quantiles gs = Inr (Some (quantile_cut (sort gs) 10 1), Some (quantile_cut (sort gs) 10 9))"
  by (simp add: safe_quantiles_def py_quantiles_Inr upt_rec eval_nat_numeral)

text \<open>
  C15: \<open>safe_quantiles\<close> returns no percentiles for fewer than ten gaps; for ten or more
  it returns both deciles without raising, the median exists, and
  p10 <= median <= p90.
\<close>

theorem safe_quantiles_deciles:
  "(length gs < 10 \<longrightarrow> safe_quantiles gs = Inr (None, None)) \<and>
   (10 \<le> length gs \<longrightarrow>
      (\<exists>p10 p90 med. safe_quantiles gs = Inr (Some p10, Some p90) \<and> py_median gs = Inr med \<and>
                     p10 \<le> med \<and> med \<le> p90))"
proof (intro conjI impI)
  show "length gs < 10 \<Longrightarrow> safe_quantiles gs = Inr (None, None)"
    by (simp add: safe_quantiles_def)
next
  assume ld: "10 \<le> length gs"
  let ?d = "sort gs" and ?ld = "length gs"
  have s: "sorted ?d" and l: "length ?d = ?ld" by simp_all
  have ne: "gs \<noteq> []" using ld by auto
  obtain med where med: "py_median gs = Inr med"
    and mlo: "?d ! ((?ld - 1) div 2) \<le> med" and mhi: "med \<le> ?d ! (?ld div 2)"
    using py_median_sorted [OF ne] by blast
  have lo: "1 \<le> (?ld + 1) div 10" "(?ld + 1) div 10 \<le> (?ld - 1) div 2"
    using decile_index_lo [OF ld] by simp_all
  have hi: "?ld div 2 + 1 \<le> 9 * (?ld + 1) div 10" "9 * (?ld + 1) div 10 \<le> ?ld - 1"
    using decile_index_hi [OF ld] by simp_all
  have p10: "quantile_cut ?d 10 1 \<le> ?d ! ((?ld + 1) div 10)"
    using quantile_cut_between [OF s, of 10 1] lo by (simp add: l)
  have p90: "?d ! (9 * (?ld + 1) div 10 - 1) \<le> quantile_cut ?d 10 9"
    using quantile_cut_between [OF s, of 10 9] lo hi by (simp add: l)
  have "?d ! ((?ld + 1) div 10) \<le> ?d ! ((?ld - 1) div 2)"
    using s lo ld by (intro sorted_nth_mono) (auto simp: l)
  moreover have "?d ! (?ld div 2) \<le> ?d ! (9 * (?ld + 1) div 10 - 1)"
    using s hi ld by (intro sorted_nth_mono) (auto simp: l)
  ultimately show "\<exists>p10 p90 med. safe_quantiles gs = Inr (Some p10, Some p90) \<and>
      py_median gs = Inr med \<and> p10 \<le> med \<and> med \<le> p90"
    using safe_quantiles_Inr [OF ld] med mlo mhi p10 p90 by fastforce
qed

lemma first_max_split:
  "\<exists>pre post. b # ys = pre @ first_max key b ys # post \<and>
     (\<forall>z\<in>set pre. key z < key (first_max key b ys)) \<and> (\<forall>z\<in>set post. key z \<le> key (first_max key b ys))"
proof (induction ys arbitrary: b)
  case Nil
  show ?case by (intro exI [of _ "[]"]) simp
next
  case (Cons x xs)
  define r where "r = first_max key b (x # xs)"
  have "\<exists>pre post. b # x # xs = pre @ r # post \<and>
          (\<forall>z\<in>set pre. key z < key r) \<and> (\<forall>z\<in>set post. key z \<le> key r)"
  proof (cases "key b < key x")
    case True
    then have "r = first_max key x xs" by (simp add: r_def)
    with Cons.IH [of x] obtain pre post where sp: "x # xs = pre @ r # post"
      and lt: "\<forall>z\<in>set pre. key z < key r" and le: "\<forall>z\<in>set post. key z \<le> key r"
      by blast
    have "key x \<le> key r" using sp lt by (cases pre) auto
    with True have "key b < key r" by simp
    then have "b # x # xs = (b # pre) @ r # post \<and> (\<forall>z\<in>set (b # pre). key z < key r) \<and>
               (\<forall>z\<in>set post. key z \<le> key r)"
      using sp lt le by simp
    then show ?thesis by blast
  next
    case False
    then have "r = first_max key b xs" by (simp add: r_def)
    with Cons.IH [of b] obtain pre post where sp: "b # xs = pre @ r # post"
      and lt: "\<forall>z\<in>set pre. key z < key r" and le: "\<forall>z\<in>set post. key z \<le> key r"
      by blast
    show ?thesis
    proof (cases pre)
      case Nil
      with sp have "b # x # xs = [] @ r # (x # post)" by simp
      moreover have "\<forall>z\<in>set (x # post). key z \<le> key r" using sp le False Nil by auto
      ultimately show ?thesis by (intro exI [of _ "[]"] exI [of _ "x # post"]) simp
    next
      case (Cons b' pre')
      with sp have bb: "b' = b" and xs: "xs = pre' @ r # post" by simp_all
      have "key b < key r" using lt Cons bb by simp
      with False have "key x < key r" by simp
      then have "b # x # xs = (b # x # pre') @ r # post \<and>
                 (\<forall>z\<in>set (b # x # pre'). key z < key r) \<and> (\<forall>z\<in>set post. key z \<le> key r)"
        using xs lt le Cons bb by simp
      then show ?thesis by blast
    qed
  qed
  then show ?case unfolding r_def .
qed

lemma count_elements_append:
  "count_elements m (xs @ ys) = count_elements (count_elements m xs) ys"
  by (induction xs arbitrary: m) auto

lemma count_elements_map_of:
  "map_of (count_elements m xs) k =
     (if k \<in> set xs then Some ((case map_of m k of None \<Rightarrow> 0 | Some c \<Rightarrow> c) + count_list xs k)
      else map_of m k)"
  by (induction xs arbitrary: m) (auto split: option.splits)

lemma count_elements_distinct:
  "distinct (map fst m) \<Longrightarrow> distinct (map fst (count_elements m xs))"
  by (induction xs arbitrary: m) (auto simp: distinct_dict_set)

lemma counter_keys: "map fst (counter xs) = rev (remdups (rev xs))"
  by (induction xs rule: rev_induct) (auto simp: counter_def count_elements_append keys_dict_set)

lemma counter_counts: "(k, c) \<in> set (counter xs) \<Longrightarrow> c = count_list xs k"
proof -
  assume kc: "(k, c) \<in> set (counter xs)"
  have "distinct (map fst (counter xs))" by (simp add: counter_def count_elements_distinct)
  with kc have "map_of (counter xs) k = Some c" by simp
  then show ?thesis by (simp add: counter_def count_elements_map_of split: if_splits)
qed

lemma counter_pairs:
  "z \<in> set (counter xs) \<Longrightarrow> snd z = count_list xs (fst z)"
  using counter_counts [of "fst z" "snd z" xs] by simp

lemma counter_Nil_iff: "counter xs = [] \<longleftrightarrow> xs = []"
proof -
  have "counter xs = [] \<longleftrightarrow> map fst (counter xs) = []" by simp
  also have "\<dots> \<longleftrightarrow> xs = []" unfolding counter_keys by simp
  finally show ?thesis .
qed

lemma most_common1_nonempty:
  "xs \<noteq> [] \<Longrightarrow>
     \<exists>r pre post. most_common1 xs = Inr r \<and> rev (remdups (rev xs)) = pre @ r # post \<and>
       (\<forall>y\<in>set pre. count_list xs y < count_list xs r) \<and> (\<forall>y\<in>set post. count_list xs y \<le> count_list xs r)"
proof -
  assume "xs \<noteq> []"
  then obtain p ps where c: "counter xs = p # ps"
    by (cases "counter xs") (simp_all add: counter_Nil_iff)
  define r where "r = first_max snd p ps"
  obtain pre post where sp: "p # ps = pre @ r # post"
    and lt: "\<forall>z\<in>set pre. snd z < snd r" and le: "\<forall>z\<in>set post. snd z \<le> snd r"
    using first_max_split [where key = snd and b = p and ys = ps] unfolding r_def by blast
  have inc: "set pre \<subseteq> set (counter xs)" "set post \<subseteq> set (counter xs)" "r \<in> set (counter xs)"
    unfolding c sp by auto
  have cr: "snd r = count_list xs (fst r)" using inc(3) by (rule counter_pairs)
  have "\<forall>y\<in>set (map fst pre). count_list xs y < count_list xs (fst r)"
  proof
    fix y assume "y \<in> set (map fst pre)"
    then obtain z where z: "z \<in> set pre" "y = fst z" by auto
    then have "snd z = count_list xs y" using inc(1) counter_pairs by blast
    with z lt cr show "count_list xs y < count_list xs (fst r)" by fastforce
  qed
  moreover have "\<forall>y\<in>set (map fst post). count_list xs y \<le> count_list xs (fst r)"
  proof
    fix y assume "y \<in> set (map fst post)"
    then obtain z where z: "z \<in> set post" "y = fst z" by auto
    then have "snd z = count_list xs y" using inc(2) counter_pairs by blast
    with z le cr show "count_list xs y \<le> count_list xs (fst r)" by fastforce
  qed
  moreover have "rev (remdups (rev xs)) = map fst pre @ fst r # map fst post"
    using counter_keys [of xs] unfolding c sp by simp
  moreover have "most_common1 xs = Inr (fst r)" by (simp add: most_common1_def c r_def)
  ultimately show ?thesis by blast
qed

text \<open>
  C16: \<open>Counter(xs).most_common(1)[0][0]\<close> raises \<open>IndexError\<close> on an empty list;
  otherwise it returns the first element, in order of first occurrence, whose count is
  maximal: every element seen before it occurs fewer times, every element seen after it
  at most as often.
\<close>

theorem most_common1_spec:
  "(xs = [] \<longrightarrow> most_common1 xs = Inl IndexError) \<and>
   (xs \<noteq> [] \<longrightarrow>
     (\<exists>r pre post. most_common1 xs = Inr r \<and> rev (remdups (rev xs)) = pre @ r # post \<and>
       (\<forall>y\<in>set pre. count_list xs y < count_list xs r) \<and>
       (\<forall>y\<in>set post. count_list xs y \<le> count_list xs r)))"
proof (cases "xs = []")
  case True
  then show ?thesis by (simp add: most_common1_def counter_def)
next
  case False
  then show ?thesis using most_common1_nonempty [of xs] by blast
qed

lemma sum_list_filter_le:
  "\<forall>x\<in>set xs. 0 \<le> x \<Longrightarrow> sum_list (filter P xs) \<le> sum_list (xs :: rat list)"
  by (induction xs) (auto simp: add_increasing)

text \<open>
  C17: For sorted departure times, the consecutive gaps are non-negative and add up to the
  span from the first to the last departure; the headway gaps kept after the half-minute
  filter all exceed half a minute, and add up to at most that span.
\<close>

theorem headway_gaps_span:
  assumes "sorted ts" and "ts \<noteq> []"
  shows "(\<forall>g\<in>set (gaps_of ts). 0 \<le> g) \<and> sum_list (gaps_of ts) = last ts - hd ts \<and>
         (\<forall>g\<in>set (headway_gaps ts). 1/2 < g) \<and> sum_list (headway_gaps ts) \<le> last ts - hd ts"
proof -
  have nn: "\<forall>g\<in>set (gaps_of ts). 0 \<le> g" using assms(1) gaps_of_sorted_nonneg by blast
  have sm: "sum_list (gaps_of ts) = last ts - hd ts" using assms(2) by (rule sum_gaps_of)
  have "sum_list (headway_gaps ts) \<le> sum_list (gaps_of ts)"
    unfolding headway_gaps_def using nn by (rule sum_list_filter_le)
  with nn sm show ?thesis by (simp add: headway_gaps_def)
qed

subsection \<open>Facts used by the report\<close>

lemma safe_quantiles_total: "\<exists>p. safe_quantiles gs = Inr p"
proof (cases "length gs < 10")
  case True
  then show ?thesis by (simp add: safe_quantiles_def)
next
  case False
  then show ?thesis using safe_quantiles_Inr [of gs] by simp
qed

lemma hd_sort_Min: "xs \<noteq> [] \<Longrightarrow> hd (sort xs) = Min (set xs)"
proof -
  assume ne: "xs \<noteq> []"
  then obtain y ys where e: "sort xs = y # ys" by (metis length_0_conv length_sort neq_Nil_conv)
  have "sorted (y # ys)" using e [symmetric] by simp
  then have "\<forall>z\<in>set (sort xs). y \<le> z" unfolding e by auto
  moreover have "y \<in> set (sort xs)" unfolding e by simp
  ultimately have "Min (set (sort xs)) = y" by (intro Min_eqI) auto
  then have "Min (set xs) = y" by (simp only: set_sort)
  with e show ?thesis by simp
qed

lemma last_sort_Max: "xs \<noteq> [] \<Longrightarrow> last (sort xs) = Max (set xs)"
proof -
  assume ne: "xs \<noteq> []"
  then obtain ys y where e: "sort xs = ys @ [y]" by (metis length_0_conv length_sort rev_exhaust)
  have "sorted (ys @ [y])" using e [symmetric] by simp
  then have "\<forall>z\<in>set (sort xs). z \<le> y" unfolding e by (auto simp: sorted_append)
  moreover have "y \<in> set (sort xs)" unfolding e by simp
  ultimately have "Max (set (sort xs)) = y" by (intro Max_eqI) auto
  then have "Max (set xs) = y" by (simp only: set_sort)
  with e show ?thesis by simp
qed

lemma most_common1_total: "xs \<noteq> [] \<Longrightarrow> \<exists>r. most_common1 xs = Inr r \<and> r \<in> set xs"
proof -
  assume "xs \<noteq> []"
  then obtain r pre post where "most_common1 xs = Inr r" and "rev (remdups (rev xs)) = pre @ r # post"
    using most_common1_nonempty by blast
  then have "most_common1 xs = Inr r \<and> r \<in> set (rev (remdups (rev xs)))" by simp
  then show ?thesis by auto
qed

subsection \<open>Witnesses\<close>

theorem safe_quantiles_deciles_witness:
  "safe_quantiles [1, 2, 3, 4, 5, 6, 7, 8, 9, 10] = Inr (Some (11 / 10), Some (99 / 10)) \<and>
   (\<exists>p10 p90 med. safe_quantiles [1, 2, 3, 4, 5, 6, 7, 8, 9, 10] = Inr (Some p10, Some p90) \<and>
      py_median [1, 2, 3, 4, 5, 6, 7, 8, 9, 10] = Inr med \<and> p10 \<le> med \<and> med \<le> p90) \<and>
   safe_quantiles [1, 2, 3] = Inr (None, None)"
proof -
  have "safe_quantiles [1, 2, 3, 4, 5, 6, 7, 8, 9, 10] = Inr (Some (11 / 10), Some (99 / 10))"
    by code_simp
  moreover note safe_quantiles_deciles [of "[1, 2, 3, 4, 5, 6, 7, 8, 9, 10]"]
    safe_quantiles_deciles [of "[1, 2, 3]"]
  ultimately show ?thesis by simp
qed

theorem most_common1_spec_witness:
  "most_common1 [''S1'', ''S2'', ''S2'', ''S1'', ''S3''] = Inr ''S1'' \<and>
   most_common1 ([] :: string list) = Inl IndexError \<and>
   most_common1 [''S2'', ''S1'', ''S1''] = Inr ''S1'' \<and>
   rev (remdups (rev [''S2'', ''S1'', ''S1''])) = [''S2''] @ ''S1'' # [] \<and>
   count_list [''S2'', ''S1'', ''S1''] ''S2'' < count_list [''S2'', ''S1'', ''S1''] ''S1''"
proof -
  have a: "most_common1 [''S1'', ''S2'', ''S2'', ''S1'', ''S3''] = Inr ''S1''" by code_simp
  have b: "most_common1 [''S2'', ''S1'', ''S1''] = Inr ''S1''" by code_simp
  show ?thesis
    using a b most_common1_spec [of "[] :: string list"] most_common1_spec [of "[''S2'', ''S1'', ''S1'']"]
    by simp
qed

theorem headway_gaps_span_witness:
  "gaps_of [480, 480 + 1/5, 490] = [1/5, 49/5] \<and> headway_gaps [480, 480 + 1/5, 490] = [49/5] \<and>
   sum_list (gaps_of [480, 480 + 1/5, 490]) = 10 \<and> sum_list (headway_gaps [480, 480 + 1/5, 490 :: rat]) \<le> 10"
  using headway_gaps_span [of "[480, 480 + 1/5, 490]"] by (simp add: headway_gaps_def)

end
