(* ===== verification/Report.thy ===== *)
theory Report
  imports Calendar Trips Stats
begin

text \<open>
  The report assembler of \<open>main\<close> (src/scripts/gtfs_faq_summary.py, lines 210--275) and the
  whole pipeline of \<open>main\<close> from the parsed tables to the summary (lines 124--275).
  \<^item> \<open>summary\<close> is the nested dict \<open>summary[line][day type][str(direction)]\<close> as association
    lists, so that the key order of the printed JSON is the insertion order of the code;
  \<^item> \<open>line_trips\<close> is the comprehension of the trips of a line that have a first departure and
    both termini (lines 223--230); \<open>collect_step\<close> is one turn of the loop gathering the
    active trips' departures and termini of a bucket (lines 240--248);
  \<^item> \<open>bucket_of\<close> computes a bucket's entry from its departures and termini (lines 253--275),
    \<open>bucket_res\<close> a bucket's entry or its omission (\<open>if not times: continue\<close>, line 250);
  \<^item> \<open>summary_set\<close> is \<open>summary[line].setdefault(dt, {})[str(direction_id)] = ...\<close>;
    \<open>bucket_step\<close>, \<open>day_step\<close> and \<open>line_step\<close> are the bodies of the three nested loops
    and \<open>summarize\<close> the report phase with \<open>today\<close> as a parameter (\<open>date.today()\<close>);
  \<^item> the code's list \<open>times\<close> is called \<open>tms\<close> (\<open>times\<close> is multiplication in HOL);
  \<^item> \<open>gtfs_main\<close> chains the loaders, the stop_times scan and \<open>summarize\<close>.
\<close>

record headway =
  median_min :: "int option"
  p10_min :: "int option"
  p90_min :: "int option"

text \<open>The JSON object of a bucket; \<open>end'\<close> is the key \<open>"end"\<close>, a keyword of Isabelle.\<close>

record bucket =
  ref_date :: string
  start :: string
  end' :: string
  trips :: nat
  headway :: headway
  terminus_from :: string
  terminus_to :: string

type_synonym summary = "(string \<times> (string \<times> (string \<times> bucket) list) list) list"

definition DAY_TYPES :: "string list" where
  "DAY_TYPES = [''weekday'', ''saturday'', ''sunday'']"

definition line_trips :: "trip_metas \<Rightarrow> scan_state \<Rightarrow> string \<Rightarrow> string list" where
  "line_trips trip_meta st l =
     [tid. (tid, meta) \<leftarrow> trip_meta, line meta = l \<and> first_departure_min st tid \<noteq> None
        \<and> first_stop_id st tid \<noteq> None \<and> last_stop_id st tid \<noteq> None]"

definition collect_step ::
  "services \<Rightarrow> exceptions \<Rightarrow> trip_metas \<Rightarrow> scan_state \<Rightarrow> int \<Rightarrow> date \<Rightarrow>
     rat list \<times> string list \<times> string list \<Rightarrow> string \<Rightarrow> (rat list \<times> string list \<times> string list) res" where
  "collect_step services exceptions trip_meta st dir ref acc tid =
     (case acc of (tms, firsts, lasts) \<Rightarrow>
       bind_res (getitem (map_of trip_meta) tid) (\<lambda>meta.
         if direction_id meta \<noteq> dir then Inr acc
         else if \<not> is_service_active services exceptions (service_id meta) ref then Inr acc
         else
           bind_res (getitem (first_departure_min st) tid) (\<lambda>t.
           bind_res (getitem (first_stop_id st) tid) (\<lambda>f.
           bind_res (getitem (last_stop_id st) tid) (\<lambda>l.
             Inr (tms @ [t], firsts @ [f], lasts @ [l]))))))"

definition stop_display :: "(string \<rightharpoonup> string) \<Rightarrow> string \<Rightarrow> string" where
  "stop_display stop_name s = (case stop_name s of Some n \<Rightarrow> n | None \<Rightarrow> s)"

definition bucket_of ::
  "(string \<rightharpoonup> string) \<Rightarrow> date \<Rightarrow> rat list \<Rightarrow> string list \<Rightarrow> string list \<Rightarrow> bucket res" where
  "bucket_of stop_name ref tms0 firsts lasts =
     (let tms = sort tms0; gaps = headway_gaps tms
      in bind_res (if gaps \<noteq> [] then bind_res (py_median gaps) (\<lambda>m. Inr (Some m)) else Inr None) (\<lambda>median.
         bind_res (safe_quantiles gaps) (\<lambda>(p10, p90).
         bind_res (most_common1 firsts) (\<lambda>term_from.
         bind_res (most_common1 lasts) (\<lambda>term_to.
           Inr \<lparr>ref_date = format_yyyymmdd ref, start = fmt_hhmm (hd tms),
                end' = fmt_hhmm (last tms), trips = length tms,
                headway = \<lparr>median_min = map_option py_round median,
                           p10_min = map_option py_round p10, p90_min = map_option py_round p90\<rparr>,
                terminus_from = stop_display stop_name term_from,
                terminus_to = stop_display stop_name term_to\<rparr>)))))"

definition bucket_res ::
  "services \<Rightarrow> exceptions \<Rightarrow> (string \<rightharpoonup> string) \<Rightarrow> trip_metas \<Rightarrow> scan_state \<Rightarrow>
     string list \<Rightarrow> date \<Rightarrow> int \<Rightarrow> bucket option res" where
  "bucket_res services exceptions stop_name trip_meta st trip_ids ref dir =
     bind_res (fold_res (collect_step services exceptions trip_meta st dir ref) trip_ids ([], [], []))
       (\<lambda>(tms, firsts, lasts).
          if tms = [] then Inr None
          else bind_res (bucket_of stop_name ref tms firsts lasts) (\<lambda>b. Inr (Some b)))"

definition summary_set :: "summary \<Rightarrow> string \<Rightarrow> string \<Rightarrow> string \<Rightarrow> bucket \<Rightarrow> summary res" where
  "summary_set summary l dt k b =
     bind_res (getitem (map_of summary) l) (\<lambda>days.
       Inr (dict_set summary l
              (dict_set days dt
                 (dict_set (case map_of days dt of None \<Rightarrow> [] | Some dirs \<Rightarrow> dirs) k b))))"

definition bucket_step ::
  "services \<Rightarrow> exceptions \<Rightarrow> (string \<rightharpoonup> string) \<Rightarrow> trip_metas \<Rightarrow> scan_state \<Rightarrow>
     string list \<Rightarrow> string \<Rightarrow> string \<Rightarrow> date \<Rightarrow> summary \<Rightarrow> int \<Rightarrow> summary res" where
  "bucket_step services exceptions stop_name trip_meta st trip_ids l dt ref summary dir =
     bind_res (bucket_res services exceptions stop_name trip_meta st trip_ids ref dir) (\<lambda>ob.
       case ob of None \<Rightarrow> Inr summary | Some b \<Rightarrow> summary_set summary l dt (show_int dir) b)"

definition day_step ::
  "services \<Rightarrow> exceptions \<Rightarrow> (string \<rightharpoonup> string) \<Rightarrow> trip_metas \<Rightarrow> scan_state \<Rightarrow>
     (string \<rightharpoonup> date) \<Rightarrow> string list \<Rightarrow> string \<Rightarrow> summary \<Rightarrow> string \<Rightarrow> summary res" where
  "day_step services exceptions stop_name trip_meta st day_ref trip_ids l summary dt =
     bind_res (getitem day_ref dt) (\<lambda>ref.
       fold_res (bucket_step services exceptions stop_name trip_meta st trip_ids l dt ref) [0, 1] summary)"

definition line_step ::
  "services \<Rightarrow> exceptions \<Rightarrow> (string \<rightharpoonup> string) \<Rightarrow> trip_metas \<Rightarrow> scan_state \<Rightarrow>
     (string \<rightharpoonup> date) \<Rightarrow> summary \<Rightarrow> string \<Rightarrow> summary res" where
  "line_step services exceptions stop_name trip_meta st day_ref summary l =
     fold_res (day_step services exceptions stop_name trip_meta st day_ref (line_trips trip_meta st l) l)
       DAY_TYPES summary"

definition day_refs :: "date \<Rightarrow> (string \<rightharpoonup> date) res" where
  "day_refs today =
     bind_res (next_weekday today) (\<lambda>d_weekday.
     bind_res (next_saturday today) (\<lambda>d_saturday.
     bind_res (next_sunday today) (\<lambda>d_sunday.
       Inr [''weekday'' \<mapsto> d_weekday, ''saturday'' \<mapsto> d_saturday, ''sunday'' \<mapsto> d_sunday])))"

definition summarize ::
  "services \<Rightarrow> exceptions \<Rightarrow> (string \<rightharpoonup> string) \<Rightarrow> trip_metas \<Rightarrow> scan_state \<Rightarrow> date \<Rightarrow> summary res" where
  "summarize services exceptions stop_name trip_meta st today =
     bind_res (day_refs today) (\<lambda>day_ref.
       fold_res (line_step services exceptions stop_name trip_meta st day_ref) LINES
         (map (\<lambda>sn. (sn, [])) LINES))"

record gtfs_tables =
  routes_txt :: "row list"
  calendar_txt :: "row list"
  calendar_dates_txt :: "row list"
  stops_txt :: "row list"
  trips_txt :: "row list"
  stop_times_txt :: "row list"

definition gtfs_main :: "gtfs_tables \<Rightarrow> date \<Rightarrow> summary res" where
  "gtfs_main tables today =
     bind_res (load_routes (routes_txt tables)) (\<lambda>route_id_by_short.
     bind_res (load_services (calendar_txt tables)) (\<lambda>services.
     bind_res (load_exceptions (calendar_dates_txt tables)) (\<lambda>exceptions.
     bind_res (load_stops (stops_txt tables)) (\<lambda>stop_name.
     bind_res (load_trips route_id_by_short (trips_txt tables)) (\<lambda>trip_meta.
     bind_res (scan_stop_times trip_meta (stop_times_txt tables)) (\<lambda>st.
       summarize services exceptions stop_name trip_meta st today))))))"

subsection \<open>The report as one loop over its buckets\<close>

text \<open>
  The three nested loops visit the buckets \<open>report_items\<close> (line, day type, direction) in
  this order; \<open>report_step\<close> is the work done for one of them. \<open>lookup3\<close> reads
  \<open>summary[line][dt][k]\<close>, \<open>None\<close> where a key is missing; \<open>report_key\<close> is the key a bucket
  is stored under and \<open>report_val\<close> the value the bucket's step leaves there.
  \<open>active_trips\<close> are the trips of a bucket that pass the direction and calendar checks.
\<close>

definition active_trips ::
  "services \<Rightarrow> exceptions \<Rightarrow> trip_metas \<Rightarrow> string list \<Rightarrow> date \<Rightarrow> int \<Rightarrow> string list" where
  "active_trips services exceptions trip_meta trip_ids ref dir =
     filter (\<lambda>tid. case map_of trip_meta tid of
                     None \<Rightarrow> False
                   | Some meta \<Rightarrow> direction_id meta = dir \<and>
                                   is_service_active services exceptions (service_id meta) ref) trip_ids"

definition lookup3 :: "summary \<Rightarrow> string \<times> string \<times> string \<Rightarrow> bucket option" where
  "lookup3 summary = (\<lambda>(l, dt, k).
     Option.bind (map_of summary l) (\<lambda>days. Option.bind (map_of days dt) (\<lambda>dirs. map_of dirs k)))"

definition report_items :: "(string \<times> string \<times> int) list" where
  "report_items = concat (map (\<lambda>l. map (Pair l) (concat (map (\<lambda>dt. map (Pair dt) [0, 1]) DAY_TYPES))) LINES)"

definition report_step ::
  "services \<Rightarrow> exceptions \<Rightarrow> (string \<rightharpoonup> string) \<Rightarrow> trip_metas \<Rightarrow> scan_state \<Rightarrow>
     (string \<rightharpoonup> date) \<Rightarrow> summary \<Rightarrow> string \<times> string \<times> int \<Rightarrow> summary res" where
  "report_step services exceptions stop_name trip_meta st day_ref summary x =
     (case x of (l, dt, dir) \<Rightarrow>
        bind_res (getitem day_ref dt) (\<lambda>ref.
          bucket_step services exceptions stop_name trip_meta st (line_trips trip_meta st l) l dt ref summary dir))"

definition report_key :: "string \<times> string \<times> int \<Rightarrow> string \<times> string \<times> string" where
  "report_key x = (case x of (l, dt, dir) \<Rightarrow> (l, dt, show_int dir))"

definition report_val ::
  "services \<Rightarrow> exceptions \<Rightarrow> (string \<rightharpoonup> string) \<Rightarrow> trip_metas \<Rightarrow> scan_state \<Rightarrow>
     (string \<rightharpoonup> date) \<Rightarrow> string \<times> string \<times> int \<Rightarrow> bucket option \<Rightarrow> bucket option" where
  "report_val services exceptions stop_name trip_meta st day_ref x old =
     (case x of (l, dt, dir) \<Rightarrow>
        (case day_ref dt of
           None \<Rightarrow> old
         | Some ref \<Rightarrow>
             (case bucket_res services exceptions stop_name trip_meta st (line_trips trip_meta st l) ref dir of
                Inr (Some b) \<Rightarrow> Some b
              | _ \<Rightarrow> old)))"


subsection \<open>Example tables\<close>

text \<open>
  The end-to-end example of the specification: line A has one trip, in direction 0, whose
  service runs Monday to Friday; it leaves its first stop at 25:05:00 (past midnight) and
  reaches its last stop at 25:10:00. The report is run on Monday 2024-01-01 (ordinal 738886).
\<close>

definition example_services :: services where
  "example_services = [''S'' \<mapsto> \<lparr>start_date = 738886, end_date = 739251,
     flags = [''monday'' \<mapsto> 1, ''tuesday'' \<mapsto> 1, ''wednesday'' \<mapsto> 1, ''thursday'' \<mapsto> 1,
              ''friday'' \<mapsto> 1, ''saturday'' \<mapsto> 0, ''sunday'' \<mapsto> 0]\<rparr>]"

definition example_trip_meta :: trip_metas where
  "example_trip_meta = [(''t1'', \<lparr>line = ''A'', service_id = ''S'', direction_id = 0\<rparr>)]"

definition example_stop_times :: "row list" where
  "example_stop_times =
     [[''trip_id'' \<mapsto> ''t1'', ''stop_sequence'' \<mapsto> ''1'', ''stop_id'' \<mapsto> ''P1'',
       ''arrival_time'' \<mapsto> ''25:05:00'', ''departure_time'' \<mapsto> ''25:05:00''],
      [''trip_id'' \<mapsto> ''t1'', ''stop_sequence'' \<mapsto> ''2'', ''stop_id'' \<mapsto> ''P9'',
       ''arrival_time'' \<mapsto> ''25:10:00'', ''departure_time'' \<mapsto> ''25:10:00'']]"

definition example_state :: scan_state where
  "example_state = \<lparr>first_stop_seq = [''t1'' \<mapsto> 1], last_stop_seq = [''t1'' \<mapsto> 2],
     first_departure_min = [''t1'' \<mapsto> 1505], first_stop_id = [''t1'' \<mapsto> ''P1''],
     last_stop_id = [''t1'' \<mapsto> ''P9'']\<rparr>"

definition example_report :: summary where
  "example_report =
     [(''A'', [(''weekday'', [(''0'', \<lparr>ref_date = ''20240101'', start = ''25h05'', end' = ''25h05'',
         trips = 1, headway = \<lparr>median_min = None, p10_min = None, p90_min = None\<rparr>,
         terminus_from = ''P1'', terminus_to = ''P9''\<rparr>)])]),
      (''B'', []), (''C'', []), (''D'', [])]"

subsection \<open>The loops as one loop over the buckets\<close>

lemma day_step_flat:
  "day_step services exceptions stop_name trip_meta st dr (line_trips trip_meta st l) l s dt =
   fold_res (\<lambda>s dir. report_step services exceptions stop_name trip_meta st dr s (l, dt, dir)) [0, 1] s"
  unfolding day_step_def report_step_def by (subst fold_res_bind_out) simp_all

lemma line_step_flat:
  "line_step services exceptions stop_name trip_meta st dr s l =
   fold_res (\<lambda>s (dt, dir). report_step services exceptions stop_name trip_meta st dr s (l, dt, dir))
     (concat (map (\<lambda>dt. map (Pair dt) [0, 1]) DAY_TYPES)) s"
proof -
  have e: "day_step services exceptions stop_name trip_meta st dr (line_trips trip_meta st l) l =
      (\<lambda>s dt. fold_res (\<lambda>s dir. report_step services exceptions stop_name trip_meta st dr s (l, dt, dir))
                 [0, 1] s)"
    by (intro ext) (rule day_step_flat)
  show ?thesis unfolding line_step_def e by (rule fold_res_concat_map)
qed

lemma summarize_flat:
  "summarize services exceptions stop_name trip_meta st today =
   bind_res (day_refs today) (\<lambda>dr.
     fold_res (report_step services exceptions stop_name trip_meta st dr) report_items
       (map (\<lambda>sn. (sn, [])) LINES))"
proof -
  have "\<And>dr s. fold_res (line_step services exceptions stop_name trip_meta st dr) LINES s =
          fold_res (report_step services exceptions stop_name trip_meta st dr) report_items s"
    unfolding line_step_flat report_items_def fold_res_concat_map
    by (simp add: case_prod_beta')
  then show ?thesis by (simp add: summarize_def)
qed

lemma lookup3_summary_set:
  "summary_set s l dt k b = Inr s' \<Longrightarrow> lookup3 s' = (lookup3 s)((l, dt, k) := Some b)"
proof -
  assume "summary_set s l dt k b = Inr s'"
  then obtain days where l: "map_of s l = Some days"
    and s': "s' = dict_set s l (dict_set days dt
                  (dict_set (case map_of days dt of None \<Rightarrow> [] | Some dirs \<Rightarrow> dirs) k b))"
    by (auto simp: summary_set_def getitem_Inr bind_res_eq_Inr)
  show ?thesis
    using l unfolding s' by (cases "map_of days dt") (auto simp: lookup3_def fun_eq_iff)
qed

lemma report_step_effect:
  "report_step services exceptions stop_name trip_meta st dr s x = Inr s' \<Longrightarrow>
   lookup3 s' = (lookup3 s)(report_key x :=
     report_val services exceptions stop_name trip_meta st dr x (lookup3 s (report_key x)))"
  by (auto simp: report_step_def bucket_step_def report_key_def report_val_def bind_res_eq_Inr
       getitem_Inr lookup3_summary_set split: prod.splits option.splits)

lemma show_int_01: "show_int 0 \<noteq> show_int 1"
  by (metis py_int_show_int sum.inject(2) zero_neq_one)

lemma report_keys_distinct: "distinct (map report_key report_items)"
  using show_int_01 show_int_01 [symmetric]
  by (simp add: report_items_def report_key_def LINES_def DAY_TYPES_def)

lemma lookup3_init: "lookup3 (map (\<lambda>sn. (sn, [])) LINES) y = None"
  by (auto simp: lookup3_def LINES_def split: prod.splits)


lemma line_trips_defined:
  "tid \<in> set (line_trips trip_meta st l) \<Longrightarrow>
     map_of trip_meta tid \<noteq> None \<and> first_departure_min st tid \<noteq> None \<and>
     first_stop_id st tid \<noteq> None \<and> last_stop_id st tid \<noteq> None"
  by (auto simp: line_trips_def map_of_eq_None_iff split: prod.splits)
     (metis fst_conv image_eqI)

text \<open>The collecting loop appends, in trip order, the data of exactly the active trips.\<close>

lemma collect_fold:
  assumes "\<forall>tid\<in>set ts. map_of trip_meta tid \<noteq> None \<and> first_departure_min st tid \<noteq> None \<and>
                         first_stop_id st tid \<noteq> None \<and> last_stop_id st tid \<noteq> None"
  shows "fold_res (collect_step services exceptions trip_meta st dir ref) ts (a, b, c) =
    Inr (a @ map (\<lambda>t. the (first_departure_min st t)) (active_trips services exceptions trip_meta ts ref dir),
         b @ map (\<lambda>t. the (first_stop_id st t)) (active_trips services exceptions trip_meta ts ref dir),
         c @ map (\<lambda>t. the (last_stop_id st t)) (active_trips services exceptions trip_meta ts ref dir))"
  using assms
proof (induction ts arbitrary: a b c)
  case Nil
  then show ?case by (simp add: active_trips_def)
next
  case (Cons tid ts)
  then obtain meta t f l where m: "map_of trip_meta tid = Some meta" and
    d: "first_departure_min st tid = Some t" "first_stop_id st tid = Some f" "last_stop_id st tid = Some l"
    by auto
  show ?case
    using Cons.IH Cons.prems m d by (simp add: collect_step_def active_trips_def)
qed

lemma bucket_of_total:
  assumes "tms \<noteq> []" "firsts \<noteq> []" "lasts \<noteq> []"
  shows "\<exists>b. bucket_of stop_name ref tms firsts lasts = Inr b \<and>
           ref_date b = format_yyyymmdd ref \<and> start b = fmt_hhmm (Min (set tms)) \<and>
           end' b = fmt_hhmm (Max (set tms)) \<and> trips b = length tms \<and>
           (\<forall>tf. most_common1 firsts = Inr tf \<longrightarrow> terminus_from b = stop_display stop_name tf) \<and>
           (\<forall>tt. most_common1 lasts = Inr tt \<longrightarrow> terminus_to b = stop_display stop_name tt)"
proof -
  let ?g = "headway_gaps (sort tms)"
  obtain med where med: "(if ?g \<noteq> [] then bind_res (py_median ?g) (\<lambda>m. Inr (Some m)) else Inr None) = Inr med"
    by (cases "?g = []") (simp_all add: py_median_Inr)
  obtain p10 p90 where q: "safe_quantiles ?g = Inr (p10, p90)"
    using safe_quantiles_total by (metis surj_pair)
  obtain tf tt where tf: "most_common1 firsts = Inr tf" and tt: "most_common1 lasts = Inr tt"
    using most_common1_total assms(2,3) by blast
  show ?thesis
    using assms(1) med q tf tt by (simp add: bucket_of_def Let_def hd_sort_Min last_sort_Max)
qed

text \<open>A bucket is omitted exactly when it has no active trip; otherwise it counts them and
  spans their earliest and latest first departures.\<close>

lemma bucket_res_line:
  "\<exists>ob. bucket_res services exceptions stop_name trip_meta st (line_trips trip_meta st l) ref dir = Inr ob \<and>
     (ob = None \<longleftrightarrow> active_trips services exceptions trip_meta (line_trips trip_meta st l) ref dir = []) \<and>
     (\<forall>b. ob = Some b \<longrightarrow>
        trips b = length (active_trips services exceptions trip_meta (line_trips trip_meta st l) ref dir) \<and>
        start b = fmt_hhmm (Min ((\<lambda>t. the (first_departure_min st t)) `
                    set (active_trips services exceptions trip_meta (line_trips trip_meta st l) ref dir))) \<and>
        end' b = fmt_hhmm (Max ((\<lambda>t. the (first_departure_min st t)) `
                    set (active_trips services exceptions trip_meta (line_trips trip_meta st l) ref dir))) \<and>
        ref_date b = format_yyyymmdd ref)"
proof -
  let ?act = "active_trips services exceptions trip_meta (line_trips trip_meta st l) ref dir"
  have c: "fold_res (collect_step services exceptions trip_meta st dir ref) (line_trips trip_meta st l) ([], [], []) =
    Inr (map (\<lambda>t. the (first_departure_min st t)) ?act, map (\<lambda>t. the (first_stop_id st t)) ?act,
         map (\<lambda>t. the (last_stop_id st t)) ?act)"
    using collect_fold [of "line_trips trip_meta st l" trip_meta st services exceptions dir ref "[]" "[]" "[]"]
      line_trips_defined by simp
  show ?thesis
  proof (cases "?act = []")
    case True
    then show ?thesis using c by (simp add: bucket_res_def)
  next
    case False
    then obtain b where b: "bucket_of stop_name ref (map (\<lambda>t. the (first_departure_min st t)) ?act)
        (map (\<lambda>t. the (first_stop_id st t)) ?act) (map (\<lambda>t. the (last_stop_id st t)) ?act) = Inr b"
      and props: "ref_date b = format_yyyymmdd ref"
        "start b = fmt_hhmm (Min (set (map (\<lambda>t. the (first_departure_min st t)) ?act)))"
        "end' b = fmt_hhmm (Max (set (map (\<lambda>t. the (first_departure_min st t)) ?act)))"
        "trips b = length (map (\<lambda>t. the (first_departure_min st t)) ?act)"
      using bucket_of_total [of "map (\<lambda>t. the (first_departure_min st t)) ?act"
          "map (\<lambda>t. the (first_stop_id st t)) ?act" "map (\<lambda>t. the (last_stop_id st t)) ?act" stop_name ref]
      by auto
    show ?thesis using False c b props by (simp add: bucket_res_def)
  qed
qed


lemma report_items_iff:
  "(l, dt, dir) \<in> set report_items \<longleftrightarrow> l \<in> set LINES \<and> dt \<in> set DAY_TYPES \<and> dir \<in> {0, 1}"
  by (auto simp: report_items_def)

lemma report_key_image:
  "(l, dt, k) \<in> report_key ` set report_items \<longleftrightarrow>
     l \<in> set LINES \<and> dt \<in> set DAY_TYPES \<and> k \<in> {show_int 0, show_int 1}"
proof -
  have "(l, dt, k) \<in> report_key ` set report_items \<longleftrightarrow>
        (\<exists>dir. (l, dt, dir) \<in> set report_items \<and> k = show_int dir)"
    unfolding report_key_def image_iff by force
  then show ?thesis by (auto simp: report_items_iff)
qed

lemma summarize_lookup:
  assumes dr: "day_refs today = Inr dr"
    and run: "summarize services exceptions stop_name trip_meta st today = Inr s"
  shows "(\<forall>x\<in>set report_items. lookup3 s (report_key x) =
            report_val services exceptions stop_name trip_meta st dr x None) \<and>
         (\<forall>y. y \<notin> report_key ` set report_items \<longrightarrow> lookup3 s y = None)"
proof -
  have f: "fold_res (report_step services exceptions stop_name trip_meta st dr) report_items
             (map (\<lambda>sn. (sn, [])) LINES) = Inr s"
    using dr run by (simp add: summarize_flat)
  have "(\<forall>x\<in>set report_items. lookup3 s (report_key x) =
            report_val services exceptions stop_name trip_meta st dr x
              (lookup3 (map (\<lambda>sn. (sn, [])) LINES) (report_key x))) \<and>
        (\<forall>y. y \<notin> report_key ` set report_items \<longrightarrow> lookup3 s y = lookup3 (map (\<lambda>sn. (sn, [])) LINES) y)"
    by (rule fold_res_keyed [where look = lookup3 and key = report_key
          and h = "report_val services exceptions stop_name trip_meta st dr", OF _ report_keys_distinct f])
       (rule report_step_effect)
  then show ?thesis by (simp add: lookup3_init)
qed

lemma day_refs_total:
  "today + 6 \<le> MAXORDINAL \<Longrightarrow> \<exists>dr. day_refs today = Inr dr \<and> (\<forall>dt\<in>set DAY_TYPES. dr dt \<noteq> None)"
  using day_selectors_total [of today] by (auto simp: day_refs_def DAY_TYPES_def)

lemma report_step_total:
  assumes "\<forall>dt\<in>set DAY_TYPES. dr dt \<noteq> None" and "x \<in> set report_items"
    and "\<forall>l\<in>set LINES. map_of s l \<noteq> None"
  shows "\<exists>s'. report_step services exceptions stop_name trip_meta st dr s x = Inr s' \<and>
              (\<forall>l\<in>set LINES. map_of s' l \<noteq> None)"
proof -
  obtain l dt dir where x: "x = (l, dt, dir)" by (cases x) auto
  with assms(2) have ld: "l \<in> set LINES" "dt \<in> set DAY_TYPES" by (simp_all add: report_items_iff)
  then obtain ref where r: "dr dt = Some ref" using assms(1) by blast
  obtain days where d: "map_of s l = Some days" using ld assms(3) by blast
  obtain ob where ob: "bucket_res services exceptions stop_name trip_meta st (line_trips trip_meta st l) ref dir = Inr ob"
    using bucket_res_line by blast
  show ?thesis
    using assms(3) r d ob
    by (cases ob) (auto simp: x report_step_def bucket_step_def summary_set_def)
qed

lemma summarize_total_lemma:
  assumes "today + 6 \<le> MAXORDINAL"
  shows "\<exists>s. summarize services exceptions stop_name trip_meta st today = Inr s"
proof -
  obtain dr where dr: "day_refs today = Inr dr" and dom: "\<forall>dt\<in>set DAY_TYPES. dr dt \<noteq> None"
    using day_refs_total [OF assms] by blast
  have "\<forall>l\<in>set LINES. map_of (map (\<lambda>sn. (sn, [])) LINES) l \<noteq> None" by (simp add: LINES_def)
  then have "\<exists>s. fold_res (report_step services exceptions stop_name trip_meta st dr) report_items
                 (map (\<lambda>sn. (sn, [])) LINES) = Inr s \<and> (\<forall>l\<in>set LINES. map_of s l \<noteq> None)"
    by (rule fold_res_total_inv [rotated]) (rule report_step_total [OF dom])
  then show ?thesis using dr by (auto simp: summarize_flat)
qed


subsection \<open>Properties of the report\<close>

lemma day_refs_dom: "day_refs today = Inr dr \<Longrightarrow> dt \<in> set DAY_TYPES \<Longrightarrow> \<exists>ref. dr dt = Some ref"
  by (auto simp: day_refs_def bind_res_eq_Inr DAY_TYPES_def)

lemma summary_set_keys: "summary_set s l dt k b = Inr s' \<Longrightarrow> map fst s' = map fst s"
proof -
  assume "summary_set s l dt k b = Inr s'"
  then obtain days where l: "map_of s l = Some days"
    and s': "s' = dict_set s l (dict_set days dt
                  (dict_set (case map_of days dt of None \<Rightarrow> [] | Some dirs \<Rightarrow> dirs) k b))"
    by (auto simp: summary_set_def getitem_Inr bind_res_eq_Inr)
  from l have "l \<in> set (map fst s)" by (force dest: map_of_SomeD)
  then show ?thesis unfolding s' by (simp add: keys_dict_set)
qed

lemma report_step_keys:
  "report_step services exceptions stop_name trip_meta st dr s x = Inr s' \<Longrightarrow> map fst s' = map fst s"
  by (auto simp: report_step_def bucket_step_def bind_res_eq_Inr summary_set_keys
      split: prod.splits option.splits)

lemma summarize_lines:
  assumes "summarize services exceptions stop_name trip_meta st today = Inr s"
  shows "map fst s = LINES"
proof -
  obtain dr where f: "fold_res (report_step services exceptions stop_name trip_meta st dr) report_items
              (map (\<lambda>sn. (sn, [])) LINES) = Inr s"
    using assms by (auto simp: summarize_flat bind_res_eq_Inr)
  show ?thesis
    by (rule fold_res_invariant [OF _ _ f, where P = "\<lambda>s. map fst s = LINES"])
       (simp_all add: report_step_keys [symmetric] comp_def)
qed

lemma summarize_bucket_res:
  assumes "day_refs today = Inr dr"
    and "summarize services exceptions stop_name trip_meta st today = Inr s"
    and "l \<in> set LINES" "dt \<in> set DAY_TYPES" "dir \<in> {0, 1}" "dr dt = Some ref"
  shows "bucket_res services exceptions stop_name trip_meta st (line_trips trip_meta st l) ref dir =
           Inr (lookup3 s (l, dt, show_int dir))"
proof -
  obtain ob where ob: "bucket_res services exceptions stop_name trip_meta st (line_trips trip_meta st l) ref dir = Inr ob"
    using bucket_res_line by blast
  have "lookup3 s (report_key (l, dt, dir)) =
          report_val services exceptions stop_name trip_meta st dr (l, dt, dir) None"
    using summarize_lookup [OF assms(1,2)] assms(3-5) by (simp add: report_items_iff)
  then have "lookup3 s (l, dt, show_int dir) = ob"
    using assms(6) ob by (cases ob) (simp_all add: report_key_def report_val_def)
  with ob show ?thesis by simp
qed

text \<open>
  C18: The nested loops with \<open>setdefault\<close> compute every bucket on its own: after the report
  phase, the entry \<open>summary[line][dt][str(direction)]\<close> of each line, day type and direction
  is the bucket that \<open>bucket_res\<close> computes for the line's trips on the day type's reference
  date (absent when it computes none); there is no other entry, and the lines are exactly
  \<open>LINES\<close> in order.
\<close>

theorem summarize_buckets:
  assumes "day_refs today = Inr dr"
    and "summarize services exceptions stop_name trip_meta st today = Inr s"
  shows "map fst s = LINES \<and>
    (\<forall>l dt dir. l \<in> set LINES \<and> dt \<in> set DAY_TYPES \<and> dir \<in> {0, 1} \<longrightarrow>
       (\<exists>ref. dr dt = Some ref \<and>
          bucket_res services exceptions stop_name trip_meta st (line_trips trip_meta st l) ref dir =
            Inr (lookup3 s (l, dt, show_int dir)))) \<and>
    (\<forall>l dt k. \<not> (l \<in> set LINES \<and> dt \<in> set DAY_TYPES \<and> k \<in> {show_int 0, show_int 1}) \<longrightarrow>
       lookup3 s (l, dt, k) = None)"
proof (intro conjI allI impI)
  show "map fst s = LINES" using assms(2) by (rule summarize_lines)
next
  fix l dt and dir :: int assume x: "l \<in> set LINES \<and> dt \<in> set DAY_TYPES \<and> dir \<in> {0, 1}"
  obtain ref where r: "dr dt = Some ref" using day_refs_dom [OF assms(1)] x by blast
  then show "\<exists>ref. dr dt = Some ref \<and>
      bucket_res services exceptions stop_name trip_meta st (line_trips trip_meta st l) ref dir =
        Inr (lookup3 s (l, dt, show_int dir))"
    using summarize_bucket_res [OF assms] x by blast
next
  fix l dt k assume "\<not> (l \<in> set LINES \<and> dt \<in> set DAY_TYPES \<and> k \<in> {show_int 0, show_int 1})"
  then show "lookup3 s (l, dt, k) = None"
    using summarize_lookup [OF assms] by (simp add: report_key_image)
qed


text \<open>
  C19: A bucket is omitted from the summary exactly when none of the line's trips in that
  direction is active on the day type's reference date; a bucket that is present counts
  those trips, starts at the earliest and ends at the latest of their first departures, and
  carries the reference date.
\<close>

theorem summarize_omits_empty:
  assumes "day_refs today = Inr dr"
    and "summarize services exceptions stop_name trip_meta st today = Inr s"
    and "l \<in> set LINES" "dt \<in> set DAY_TYPES" "dir \<in> {0, 1}" "dr dt = Some ref"
  shows "(lookup3 s (l, dt, show_int dir) = None \<longleftrightarrow>
            active_trips services exceptions trip_meta (line_trips trip_meta st l) ref dir = []) \<and>
         (\<forall>b. lookup3 s (l, dt, show_int dir) = Some b \<longrightarrow>
            trips b = length (active_trips services exceptions trip_meta (line_trips trip_meta st l) ref dir) \<and>
            start b = fmt_hhmm (Min ((\<lambda>t. the (first_departure_min st t)) `
                        set (active_trips services exceptions trip_meta (line_trips trip_meta st l) ref dir))) \<and>
            end' b = fmt_hhmm (Max ((\<lambda>t. the (first_departure_min st t)) `
                        set (active_trips services exceptions trip_meta (line_trips trip_meta st l) ref dir))) \<and>
            ref_date b = format_yyyymmdd ref)"
  using bucket_res_line [of services exceptions stop_name trip_meta st l ref dir]
    summarize_bucket_res [OF assms] by auto

text \<open>
  C20: Once the tables are loaded, the report phase cannot fail while the reference dates
  are representable: \<open>main\<close> returns a summary exactly when every loader and the stop_times
  scan succeed. On 9999-12-31 the report phase raises \<open>OverflowError\<close>.
\<close>

theorem gtfs_main_errors:
  "(today + 6 \<le> MAXORDINAL \<longrightarrow>
     ((\<exists>s. gtfs_main tables today = Inr s) \<longleftrightarrow>
      (\<exists>r sv ex sn tm st. load_routes (routes_txt tables) = Inr r \<and>
         load_services (calendar_txt tables) = Inr sv \<and>
         load_exceptions (calendar_dates_txt tables) = Inr ex \<and> load_stops (stops_txt tables) = Inr sn \<and>
         load_trips r (trips_txt tables) = Inr tm \<and> scan_stop_times tm (stop_times_txt tables) = Inr st))) \<and>
   summarize services exceptions stop_name trip_meta st0 MAXORDINAL = Inl OverflowError"
proof (intro conjI impI)
  assume d: "today + 6 \<le> MAXORDINAL"
  show "(\<exists>s. gtfs_main tables today = Inr s) \<longleftrightarrow>
      (\<exists>r sv ex sn tm st. load_routes (routes_txt tables) = Inr r \<and>
         load_services (calendar_txt tables) = Inr sv \<and>
         load_exceptions (calendar_dates_txt tables) = Inr ex \<and> load_stops (stops_txt tables) = Inr sn \<and>
         load_trips r (trips_txt tables) = Inr tm \<and> scan_stop_times tm (stop_times_txt tables) = Inr st)"
    using summarize_total_lemma [OF d] by (auto simp: gtfs_main_def bind_res_eq_Inr)
next
  have w: "weekday MAXORDINAL = 4" by (simp add: weekday_def MAXORDINAL_def)
  then have "next_weekday MAXORDINAL = Inr MAXORDINAL"
    by (simp add: next_weekday_def advance_while_stop)
  moreover have "next_saturday MAXORDINAL = Inl OverflowError"
    using w by (simp add: next_saturday_def advance_while_max)
  ultimately show "summarize services exceptions stop_name trip_meta st0 MAXORDINAL = Inl OverflowError"
    by (simp add: summarize_def day_refs_def)
qed

lemma example_scan:
  "case scan_stop_times example_trip_meta example_stop_times of
     Inl _ \<Rightarrow> False
   | Inr st \<Rightarrow> first_departure_min st ''t1'' = Some 1505 \<and> first_stop_id st ''t1'' = Some ''P1'' \<and>
              last_stop_id st ''t1'' = Some ''P9''"
  unfolding example_trip_meta_def example_stop_times_def by code_simp

lemma day_refs_738886:
  "day_refs 738886 = Inr [''weekday'' \<mapsto> 738886, ''saturday'' \<mapsto> 738891, ''sunday'' \<mapsto> 738892]"
proof -
  have w: "weekday 738886 = 0" by (simp add: weekday_def)
  have "next_weekday 738886 = Inr 738886" using w by (simp add: next_weekday_def advance_while_stop)
  moreover have "next_saturday 738886 = Inr 738891"
    using advance_to_weekday [of 5 738886] w by (simp add: next_saturday_def MAXORDINAL_def)
  moreover have "next_sunday 738886 = Inr 738892"
    using advance_to_weekday [of 6 738886] w by (simp add: next_sunday_def MAXORDINAL_def)
  ultimately show ?thesis by (simp add: day_refs_def)
qed

lemma fmt_hhmm_1505: "fmt_hhmm 1505 = ''25h05''"
  by code_simp

lemma example_summary_lookups:
  assumes st: "first_departure_min st ''t1'' = Some 1505" "first_stop_id st ''t1'' = Some ''P1''"
    "last_stop_id st ''t1'' = Some ''P9''"
  shows "summarize example_services Map.empty Map.empty example_trip_meta st 738886 =
   Inr [(''A'', [(''weekday'', [(''0'', \<lparr>ref_date = ''20240101'', start = ''25h05'', end' = ''25h05'',
            trips = 1, headway = \<lparr>median_min = None, p10_min = None, p90_min = None\<rparr>,
            terminus_from = ''P1'', terminus_to = ''P9''\<rparr>)])]),
        (''B'', []), (''C'', []), (''D'', [])]"
proof -
  have w: "weekday 738886 = 0" "weekday 738891 = 5" "weekday 738892 = 6" by (simp_all add: weekday_def)
  show ?thesis
    unfolding summarize_flat day_refs_738886
    using st by (simp add: headway_gaps_def safe_quantiles_def report_items_def LINES_def DAY_TYPES_def report_step_def bucket_step_def
        bucket_res_def line_trips_def example_trip_meta_def collect_step_def is_service_active_def
        example_services_def dow_field_def WEEKDAY_NAMES_def w bucket_of_def format_20240101
        fmt_hhmm_1505 most_common1_def counter_def summary_set_def show_int_def show_nat.simps
        digit_char_def stop_display_def char_of_eq_iff)
qed

lemma example_summary:
  "summarize example_services Map.empty Map.empty example_trip_meta example_state 738886 = Inr example_report"
  using example_summary_lookups [of example_state] by (simp add: example_state_def example_report_def)

lemma fmt_hhmm_480: "fmt_hhmm 480 = ''08h00''"
  by code_simp

lemma fmt_hhmm_480_2: "fmt_hhmm (2401 / 5) = ''08h00''"
proof -
  have "\<lfloor>2401 / 5 :: rat\<rfloor> = 480" by (simp add: floor_eq_iff)
  then have "py_round (2401 / 5) = 480" by (simp add: py_round_def Let_def)
  moreover have "py_round 480 = 480" using py_round_of_int [of 480] by simp
  ultimately have "fmt_hhmm (2401 / 5) = fmt_hhmm 480" by (simp add: fmt_hhmm_def)
  then show ?thesis by (simp add: fmt_hhmm_480)
qed

lemma most_common1_pair: "most_common1 [a, b] = Inr a"
  by (cases "a = b") (simp_all add: most_common1_def counter_def)

lemma most_common1_S1: "most_common1 [''S1'', ''S1'', ''S2''] = Inr ''S1''"
  by code_simp



text \<open>
  C23: The terminus "from" of a bucket whose first stops are S1, S1, S2 is S1's name in the
  stop table, or S1 itself when the stop has no name.
\<close>

theorem bucket_terminus:
  assumes "tms \<noteq> []" and "lasts \<noteq> []"
  shows "\<exists>b. bucket_of stop_name ref tms [''S1'', ''S1'', ''S2''] lasts = Inr b \<and>
           (stop_name ''S1'' = Some n \<longrightarrow> terminus_from b = n) \<and>
           (stop_name ''S1'' = None \<longrightarrow> terminus_from b = ''S1'')"
  using bucket_of_total [OF assms(1) _ assms(2), of "[''S1'', ''S1'', ''S2'']" stop_name ref]
    most_common1_S1 by (auto simp: stop_display_def)

subsection \<open>Witnesses\<close>

theorem summarize_buckets_witness:
  "summarize example_services Map.empty Map.empty example_trip_meta example_state 738886 = Inr example_report \<and>
   map fst example_report = LINES \<and>
   bucket_res example_services Map.empty Map.empty example_trip_meta example_state
     (line_trips example_trip_meta example_state ''A'') 738891 0 = Inr None \<and>
   lookup3 example_report (''A'', ''holiday'', ''0'') = None"
proof -
  note b = summarize_buckets [OF day_refs_738886 example_summary]
  have "\<exists>ref. [''weekday'' \<mapsto> 738886, ''saturday'' \<mapsto> 738891, ''sunday'' \<mapsto> 738892] ''saturday'' = Some ref \<and>
     bucket_res example_services Map.empty Map.empty example_trip_meta example_state
       (line_trips example_trip_meta example_state ''A'') ref 0 =
       Inr (lookup3 example_report (''A'', ''saturday'', show_int 0))"
    using b [THEN conjunct2, THEN conjunct1, rule_format, of "''A''" "''saturday''" 0]
    by (simp add: LINES_def DAY_TYPES_def)
  then have "bucket_res example_services Map.empty Map.empty example_trip_meta example_state
     (line_trips example_trip_meta example_state ''A'') 738891 0 =
       Inr (lookup3 example_report (''A'', ''saturday'', show_int 0))" by simp
  moreover have "lookup3 example_report (''A'', ''saturday'', show_int 0) = None"
    by (simp add: lookup3_def example_report_def)
  moreover have "lookup3 example_report (''A'', ''holiday'', ''0'') = None"
    using b [THEN conjunct2, THEN conjunct2, rule_format, of "''A''" "''holiday''" "''0''"]
    by (simp add: DAY_TYPES_def)
  ultimately show ?thesis using b example_summary by simp
qed

theorem summarize_omits_empty_witness:
  "active_trips example_services Map.empty example_trip_meta
     (line_trips example_trip_meta example_state ''A'') 738891 0 = [] \<and>
   length (active_trips example_services Map.empty example_trip_meta
     (line_trips example_trip_meta example_state ''A'') 738886 0) = 1"
proof -
  have sat: "lookup3 example_report (''A'', ''saturday'', show_int 0) = None"
    by (simp add: lookup3_def example_report_def)
  have wk: "lookup3 example_report (''A'', ''weekday'', show_int 0) =
      Some \<lparr>ref_date = ''20240101'', start = ''25h05'', end' = ''25h05'',
         trips = 1, headway = \<lparr>median_min = None, p10_min = None, p90_min = None\<rparr>,
         terminus_from = ''P1'', terminus_to = ''P9''\<rparr>"
    by (simp add: lookup3_def example_report_def show_int_def show_nat.simps digit_char_def char_of_eq_iff)
  have A: "''A'' \<in> set LINES" by (simp add: LINES_def)
  have D: "''saturday'' \<in> set DAY_TYPES" "''weekday'' \<in> set DAY_TYPES" by (simp_all add: DAY_TYPES_def)
  have z: "(0::int) \<in> {0, 1}" by simp
  have r: "[''weekday'' \<mapsto> 738886, ''saturday'' \<mapsto> (738891::nat), ''sunday'' \<mapsto> 738892] ''saturday'' = Some 738891"
    "[''weekday'' \<mapsto> 738886, ''saturday'' \<mapsto> (738891::nat), ''sunday'' \<mapsto> 738892] ''weekday'' = Some 738886"
    by simp_all
  note s1 = summarize_omits_empty [OF day_refs_738886 example_summary A D(1) z r(1)]
  note s2 = summarize_omits_empty [OF day_refs_738886 example_summary A D(2) z r(2)]
  have "active_trips example_services Map.empty example_trip_meta
     (line_trips example_trip_meta example_state ''A'') 738891 0 = []"
    using s1 sat by blast
  moreover have "trips \<lparr>ref_date = ''20240101'', start = ''25h05'', end' = ''25h05'',
         trips = 1, headway = \<lparr>median_min = None, p10_min = None, p90_min = None\<rparr>,
         terminus_from = ''P1'', terminus_to = ''P9''\<rparr> = length (active_trips example_services Map.empty example_trip_meta
     (line_trips example_trip_meta example_state ''A'') 738886 0)"
    using s2 wk by blast
  ultimately show ?thesis by simp
qed

theorem gtfs_main_errors_witness:
  "(738886::nat) + 6 \<le> MAXORDINAL \<and>
   (\<exists>s. gtfs_main \<lparr>routes_txt = [], calendar_txt = [], calendar_dates_txt = [], stops_txt = [],
                  trips_txt = [], stop_times_txt = []\<rparr> 738886 = Inr s) \<and>
   summarize Map.empty Map.empty Map.empty [] scan_init MAXORDINAL = Inl OverflowError"
  using gtfs_main_errors [of 738886 "\<lparr>routes_txt = [], calendar_txt = [], calendar_dates_txt = [],
      stops_txt = [], trips_txt = [], stop_times_txt = []\<rparr>" Map.empty Map.empty Map.empty "[]" scan_init]
  by (simp add: MAXORDINAL_def load_routes_def load_services_def load_exceptions_def load_stops_def
      load_trips_def scan_stop_times_def)

theorem bucket_terminus_witness:
  "[480::rat] \<noteq> [] \<and> [''S9''] \<noteq> [] \<and>
   (\<exists>b. bucket_of [''S1'' \<mapsto> ''Gare''] 738886 [480] [''S1'', ''S1'', ''S2''] [''S9''] = Inr b \<and>
        terminus_from b = ''Gare'')"
  using bucket_terminus [of "[480]" "[''S9'']" "[''S1'' \<mapsto> ''Gare'']" 738886 "''Gare''"] by simp

end
