(* ===== verification/Ordinals.thy ===== *)
theory Ordinals
  imports Dates
begin

text \<open>
  Correctness of CPython's calendar conversion as the script uses it
  (\<open>format_yyyymmdd\<close> and \<open>parse_yyyymmdd\<close>, src/scripts/gtfs_faq_summary.py lines 41--46).
  \<open>_ord2ymd\<close> (\<open>ord2ymd\<close> in Dates) splits an ordinal into 400-, 100-, 4- and 1-year
  cycles and then estimates the month as \<open>(n + 50) >> 5\<close>; \<open>month_part\<close> is that month
  computation, checked against the month tables for all 365 day offsets (\<open>month_table\<close>).
  The cycle arithmetic is \<open>days_before_year_decomp\<close> and \<open>leap_decomp\<close>. \<open>ymd_tail\<close> is the
  part of the strptime match after the year, checked on all month/day strings
  (\<open>md_table\<close>). The theorems: every ordinal maps to a valid date whose ordinal it is;
  formatting then parsing a date of a four-digit year gives the date back; for the years
  1--999 it does not, because glibc's \<open>%Y\<close> does not pad the year.
\<close>

definition month_part :: "bool \<Rightarrow> int \<Rightarrow> int \<times> int" where
  "month_part leapyear n =
     (let month = (n + 50) div 32;
          preceding = DAYS_BEFORE_MONTH ! nat month + (if 2 < month \<and> leapyear then 1 else 0);
          (month, preceding) =
            (if n < preceding
             then (month - 1, preceding - (DAYS_IN_MONTH ! nat (month - 1)
                                + (if month - 1 = 2 \<and> leapyear then 1 else 0)))
             else (month, preceding))
      in (month, n - preceding + 1))"

definition month_ok :: "bool \<Rightarrow> int \<Rightarrow> bool" where
  "month_ok leap r = (case month_part leap r of (m, d) \<Rightarrow>
     1 \<le> m \<and> m \<le> 12 \<and> 1 \<le> d \<and> d \<le> (if m = 2 \<and> leap then 29 else DAYS_IN_MONTH ! nat m) \<and>
     DAYS_BEFORE_MONTH ! nat m + (if 2 < m \<and> leap then 1 else 0) + d = r + 1)"

definition ymd_tail :: "string \<Rightarrow> (nat \<times> nat) list" where
  "ymd_tail s = [(fst ma, fst da). ma \<leftarrow> MONTH_ALTS, da \<leftarrow> DAY_ALTS,
                  alt_matches ma (drop 4 s), alt_matches da (drop (4 + fst ma) s)]"

definition md_ok :: "string \<Rightarrow> string \<Rightarrow> bool" where
  "md_ok ms ds = (case ymd_tail (''0000'' @ ms @ ds) of [] \<Rightarrow> False | p # _ \<Rightarrow> p = (2, 2))"

lemma month_table: "list_all (\<lambda>r. month_ok True r \<and> month_ok False r) [0..364]"
  by code_simp

lemma month_part_ok: "0 \<le> r \<Longrightarrow> r < 365 \<Longrightarrow> month_ok leap r"
proof -
  assume "0 \<le> r" "r < 365"
  then have "r \<in> set [0..364]" by simp
  then show ?thesis using month_table by (cases leap) (auto simp: list_all_iff)
qed

lemma mod_small_add: "0 \<le> x \<Longrightarrow> x < m \<Longrightarrow> (x + k * m) mod m = (x :: int)"
  by simp

lemma leap_decomp:
  fixes a b c e :: int
  assumes "0 \<le> b" "b \<le> 3" "0 \<le> c" "c \<le> 24" "0 \<le> e" "e \<le> 3"
  shows "is_leap (400 * a + 100 * b + 4 * c + e + 1) \<longleftrightarrow> e = 3 \<and> (c \<noteq> 24 \<or> b = 3)"
proof -
  let ?y = "400 * a + 100 * b + 4 * c + e + 1"
  consider "e < 3" | "e = 3" "c < 24" | "e = 3" "c = 24" "b < 3" | "e = 3" "c = 24" "b = 3"
    using assms by linarith
  then show ?thesis
  proof cases
    case 1
    have e: "?y = (e + 1) + (100 * a + 25 * b + c) * 4" by simp
    have "?y mod 4 = e + 1" unfolding e by (rule mod_small_add) (use 1 assms in auto)
    with 1 assms show ?thesis by (simp add: is_leap_def)
  next
    case 2
    have e1: "?y = 0 + (100 * a + 25 * b + c + 1) * 4" using 2 by simp
    have m4: "?y mod 4 = 0" unfolding e1 by (rule mod_small_add) simp_all
    have e2: "?y = 4 * (c + 1) + (4 * a + b) * 100" using 2 by simp
    have "?y mod 100 = 4 * (c + 1)" unfolding e2 by (rule mod_small_add) (use 2 assms in auto)
    with m4 2 assms show ?thesis by (simp add: is_leap_def)
  next
    case 3
    have e1: "?y = 0 + (100 * a + 25 * b + 25) * 4" using 3 by simp
    have m4: "?y mod 4 = 0" unfolding e1 by (rule mod_small_add) simp_all
    have e2: "?y = 0 + (4 * a + b + 1) * 100" using 3 by simp
    have m100: "?y mod 100 = 0" unfolding e2 by (rule mod_small_add) simp_all
    have e3: "?y = 100 * (b + 1) + a * 400" using 3 by simp
    have "?y mod 400 = 100 * (b + 1)" unfolding e3 by (rule mod_small_add) (use 3 assms in auto)
    with m4 m100 3 assms show ?thesis by (simp add: is_leap_def)
  next
    case 4
    have e1: "?y = 0 + (a + 1) * 400" and e2: "?y = 0 + (100 * a + 100) * 4"
      and e3: "?y = 0 + (4 * a + 4) * 100" using 4 by simp_all
    have "?y mod 4 = 0" unfolding e2 by (rule mod_small_add) simp_all
    moreover have "?y mod 100 = 0" unfolding e3 by (rule mod_small_add) simp_all
    moreover have "?y mod 400 = 0" unfolding e1 by (rule mod_small_add) simp_all
    ultimately show ?thesis using 4 by (simp add: is_leap_def)
  qed
qed

lemma days_before_year_decomp:
  fixes a b c e :: int
  assumes "0 \<le> b" "b \<le> 3" "0 \<le> c" "c \<le> 24" "0 \<le> e" "e \<le> 3"
  shows "days_before_year (400 * a + 100 * b + 4 * c + e + 1) = 146097 * a + 36524 * b + 1461 * c + 365 * e"
proof -
  have "400 * a + 100 * b + 4 * c + e = e + (100 * a + 25 * b + c) * 4" by simp
  then have d4: "(400 * a + 100 * b + 4 * c + e) div 4 = 100 * a + 25 * b + c" using assms by simp
  have "400 * a + 100 * b + 4 * c + e = (4 * c + e) + (4 * a + b) * 100" by simp
  then have d100: "(400 * a + 100 * b + 4 * c + e) div 100 = 4 * a + b" using assms by simp
  have "400 * a + 100 * b + 4 * c + e = (100 * b + 4 * c + e) + a * 400" by simp
  then have d400: "(400 * a + 100 * b + 4 * c + e) div 400 = a" using assms by simp
  show ?thesis unfolding days_before_year_def Let_def by (simp add: d4 d100 d400)
qed


lemma DI_values: "DI400Y = 146097" "DI100Y = 36524" "DI4Y = 1461"
  by (simp_all add: DI400Y_def DI100Y_def DI4Y_def days_before_year_def)

lemma ord2ymd_split:
  "ord2ymd n =
     (let q = n - 1; n400 = q div 146097; r1 = q mod 146097; n100 = r1 div 36524; r2 = r1 mod 36524;
          n4 = r2 div 1461; r3 = r2 mod 1461; n1 = r3 div 365; r = r3 mod 365
      in if n1 = 4 \<or> n100 = 4 then (n400 * 400 + 1 + n100 * 100 + n4 * 4 + n1 - 1, 12, 31)
         else (case month_part (n1 = 3 \<and> (n4 \<noteq> 24 \<or> n100 = 3)) r of
                 (m, d) \<Rightarrow> (n400 * 400 + 1 + n100 * 100 + n4 * 4 + n1, m, d)))"
  unfolding ord2ymd_def month_part_def Let_def DI_values
  by (simp only: case_prod_beta fst_conv snd_conv if_distrib [of fst] if_distrib [of snd])

lemma ord2ymd_valid:
  assumes "1 \<le> n"
  shows "case ord2ymd n of (y, m, d) \<Rightarrow>
           1 \<le> y \<and> 1 \<le> m \<and> m \<le> 12 \<and> 1 \<le> d \<and> d \<le> days_in_month y m \<and> ymd2ord y m d = n \<and>
           (n \<le> 3652059 \<longrightarrow> y \<le> 9999)"
proof -
  define q where "q = n - 1"
  define n400 where "n400 = q div 146097"
  define r1 where "r1 = q mod 146097"
  define n100 where "n100 = r1 div 36524"
  define r2 where "r2 = r1 mod 36524"
  define n4 where "n4 = r2 div 1461"
  define r3 where "r3 = r2 mod 1461"
  define n1 where "n1 = r3 div 365"
  define r where "r = r3 mod 365"
  have ord: "ord2ymd n =
     (if n1 = 4 \<or> n100 = 4 then (n400 * 400 + 1 + n100 * 100 + n4 * 4 + n1 - 1, 12, 31)
      else (case month_part (n1 = 3 \<and> (n4 \<noteq> 24 \<or> n100 = 3)) r of
              (m, d) \<Rightarrow> (n400 * 400 + 1 + n100 * 100 + n4 * 4 + n1, m, d)))"
    unfolding ord2ymd_split Let_def q_def n400_def r1_def n100_def r2_def n4_def r3_def n1_def r_def ..
  have qn: "n = q + 1" by (simp add: q_def)
  have q: "q = 146097 * n400 + r1" "0 \<le> r1" "r1 < 146097" "0 \<le> n400"
    using assms by (simp_all add: q_def n400_def r1_def)
  have e1: "r1 = 36524 * n100 + r2" "0 \<le> r2" "r2 < 36524" "0 \<le> n100"
    using q by (simp_all add: n100_def r2_def)
  have e2: "r2 = 1461 * n4 + r3" "0 \<le> r3" "r3 < 1461" "0 \<le> n4"
    using e1 by (simp_all add: n4_def r3_def)
  have e3: "r3 = 365 * n1 + r" "0 \<le> r" "r < 365" "0 \<le> n1"
    using e2 by (simp_all add: n1_def r_def)
  have b100: "n100 \<le> 4" using q e1 by linarith
  have b4: "n4 < 25" using e1 e2 by linarith
  have b1: "n1 \<le> 4" using e2 e3 by linarith
  have top: "n \<le> 3652059 \<Longrightarrow> n400 \<le> 24" using qn q e1 e2 e3 by linarith
  consider "n100 = 4" | "n100 \<le> 3" "n1 = 4" | "n100 \<le> 3" "n1 \<le> 3" using b100 b1 by linarith
  then show ?thesis
  proof cases
    case 1
    then have z: "n4 = 0" "n1 = 0" "r = 0" using q e1 e2 e3 by linarith+
    have y: "n400 * 400 + 1 + n100 * 100 + n4 * 4 + n1 - 1 = 400 * n400 + 100 * 3 + 4 * 24 + 3 + 1"
      using 1 z by simp
    have l: "is_leap (400 * n400 + 100 * 3 + 4 * 24 + 3 + 1)" using leap_decomp [of 3 24 3 n400] by simp
    have d: "days_before_year (400 * n400 + 100 * 3 + 4 * 24 + 3 + 1) = 146097 * n400 + 145731"
      using days_before_year_decomp [of 3 24 3 n400] by simp
    have "ymd2ord (400 * n400 + 100 * 3 + 4 * 24 + 3 + 1) 12 31 = 146097 * n400 + 146097"
      using l d by (simp add: ymd2ord_def days_before_month_def DAYS_BEFORE_MONTH_def)
    moreover have "n = 146097 * n400 + 146097" using qn q e1 e2 e3 1 z by linarith
    moreover have "n \<le> 3652059 \<Longrightarrow> n400 \<le> 23" using qn q e1 e2 e3 1 z by linarith
    ultimately show ?thesis
      using 1 q unfolding ord y by (simp add: days_in_month_def DAYS_IN_MONTH_def)
  next
    case 2
    then have z: "r = 0" "n4 \<le> 23" using e1 e2 e3 by linarith+
    have y: "n400 * 400 + 1 + n100 * 100 + n4 * 4 + n1 - 1 = 400 * n400 + 100 * n100 + 4 * n4 + 3 + 1"
      using 2 by simp
    have l: "is_leap (400 * n400 + 100 * n100 + 4 * n4 + 3 + 1)"
      using leap_decomp [of n100 n4 3 n400] 2 z e1 e2 by simp
    have d: "days_before_year (400 * n400 + 100 * n100 + 4 * n4 + 3 + 1) =
               146097 * n400 + 36524 * n100 + 1461 * n4 + 1095"
      using days_before_year_decomp [of n100 n4 3 n400] 2 z e1 e2 by simp
    have "ymd2ord (400 * n400 + 100 * n100 + 4 * n4 + 3 + 1) 12 31 =
            146097 * n400 + 36524 * n100 + 1461 * n4 + 1461"
      using l d by (simp add: ymd2ord_def days_before_month_def DAYS_BEFORE_MONTH_def)
    moreover have "n = 146097 * n400 + 36524 * n100 + 1461 * n4 + 1461" using qn q e1 e2 e3 2 z by linarith
    moreover have "1 \<le> 400 * n400 + 100 * n100 + 4 * n4 + 3 + 1" using q e1 e2 by linarith
    moreover have "n \<le> 3652059 \<Longrightarrow> 400 * n400 + 100 * n100 + 4 * n4 + 3 + 1 \<le> 9999"
      using top 2 z by linarith
    ultimately show ?thesis
      using 2 unfolding ord y by (simp add: days_in_month_def DAYS_IN_MONTH_def)
  next
    case 3
    let ?y = "400 * n400 + 100 * n100 + 4 * n4 + n1 + 1"
    let ?leap = "n1 = 3 \<and> (n4 \<noteq> 24 \<or> n100 = 3)"
    have y: "n400 * 400 + 1 + n100 * 100 + n4 * 4 + n1 = ?y" by simp
    have l: "is_leap ?y \<longleftrightarrow> ?leap" using leap_decomp [of n100 n4 n1 n400] 3 e1 e2 e3 b4 by simp
    have d: "days_before_year ?y = 146097 * n400 + 36524 * n100 + 1461 * n4 + 365 * n1"
      using days_before_year_decomp [of n100 n4 n1 n400] 3 e1 e2 e3 b4 by simp
    obtain m dd where mp: "month_part ?leap r = (m, dd)" by (cases "month_part ?leap r")
    have ok: "month_ok ?leap r" using e3 by (intro month_part_ok) simp_all
    then have mf: "1 \<le> m \<and> m \<le> 12 \<and> 1 \<le> dd \<and> dd \<le> (if m = 2 \<and> ?leap then 29 else DAYS_IN_MONTH ! nat m) \<and>
               DAYS_BEFORE_MONTH ! nat m + (if 2 < m \<and> ?leap then 1 else 0) + dd = r + 1"
      unfolding month_ok_def mp by simp
    then have dbm: "days_before_month ?y m + dd = r + 1" and dim: "dd \<le> days_in_month ?y m"
      using l by (simp_all add: days_before_month_def days_in_month_def)
    have "ymd2ord ?y m dd = 146097 * n400 + 36524 * n100 + 1461 * n4 + 365 * n1 + r + 1"
      unfolding ymd2ord_def using d dbm by linarith
    moreover have "n = 146097 * n400 + 36524 * n100 + 1461 * n4 + 365 * n1 + r + 1"
      using qn q e1 e2 e3 by linarith
    moreover have "1 \<le> ?y" using q e1 e2 e3 by linarith
    moreover have "n \<le> 3652059 \<Longrightarrow> ?y \<le> 9999" using top qn q e1 e2 e3 3 b4 by linarith
    ultimately show ?thesis using 3 mf dim mp unfolding ord y by simp
  qed
qed


lemma length_show_nat: "length (show_nat n) = (if n < 10 then 1 else Suc (length (show_nat (n div 10))))"
  by (simp add: show_nat.simps [of n])

lemma length_show_nat_4: "1000 \<le> n \<Longrightarrow> n < 10000 \<Longrightarrow> length (show_nat n) = 4"
proof -
  assume "1000 \<le> n" "n < 10000"
  then have "10 \<le> n" "10 \<le> n div 10" "10 \<le> n div 10 div 10" "n div 10 div 10 div 10 < 10" by auto
  then show ?thesis
    using length_show_nat [of n] length_show_nat [of "n div 10"] length_show_nat [of "n div 10 div 10"]
      length_show_nat [of "n div 10 div 10 div 10"] by simp
qed

lemma md_table: "list_all (\<lambda>ms. list_all (md_ok ms) [''01'', ''02'', ''03'', ''04'', ''05'', ''06'', ''07'', ''08'', ''09'', ''10'', ''11'', ''12'', ''13'', ''14'', ''15'', ''16'', ''17'', ''18'', ''19'', ''20'', ''21'', ''22'', ''23'', ''24'', ''25'', ''26'', ''27'', ''28'', ''29'', ''30'', ''31'']) [''01'', ''02'', ''03'', ''04'', ''05'', ''06'', ''07'', ''08'', ''09'', ''10'', ''11'', ''12'']"
  by code_simp

lemma fmt_months: "map fmt_02d [1..12] = [''01'', ''02'', ''03'', ''04'', ''05'', ''06'', ''07'', ''08'', ''09'', ''10'', ''11'', ''12'']"
  by code_simp

lemma fmt_days: "map fmt_02d [1..31] = [''01'', ''02'', ''03'', ''04'', ''05'', ''06'', ''07'', ''08'', ''09'', ''10'', ''11'', ''12'', ''13'', ''14'', ''15'', ''16'', ''17'', ''18'', ''19'', ''20'', ''21'', ''22'', ''23'', ''24'', ''25'', ''26'', ''27'', ''28'', ''29'', ''30'', ''31'']"
  by code_simp

lemma ymd_tail_prefix: "length p = 4 \<Longrightarrow> ymd_tail (p @ t) = ymd_tail (''0000'' @ t)"
proof -
  assume l: "length p = 4"
  then have "\<And>k. drop (4 + k) (p @ t) = drop k t" "drop 4 (p @ t) = t" by (simp_all add: drop_append)
  moreover have "\<And>k. drop (4 + k) (''0000'' @ t) = drop k t" "drop 4 (''0000'' @ t) = t"
    by (simp_all add: numeral_eq_Suc)
  ultimately show ?thesis by (simp only: ymd_tail_def)
qed

lemma ymd_match_tail:
  "ymd_match s = (if 4 \<le> length s \<and> (\<forall>c\<in>set (take 4 s). is_digit c)
                  then (case ymd_tail s of [] \<Rightarrow> None | p # _ \<Rightarrow> Some p) else None)"
  by (simp add: ymd_match_def ymd_tail_def)

lemma md_ok_range: "1 \<le> m \<Longrightarrow> m \<le> 12 \<Longrightarrow> 1 \<le> dd \<Longrightarrow> dd \<le> 31 \<Longrightarrow> md_ok (fmt_02d m) (fmt_02d dd)"
proof -
  assume "1 \<le> m" "m \<le> 12" "1 \<le> dd" "dd \<le> 31"
  then have "fmt_02d m \<in> set (map fmt_02d [1..12])" "fmt_02d dd \<in> set (map fmt_02d [1..31])" by simp_all
  with md_table show ?thesis unfolding fmt_months fmt_days list_all_iff by blast
qed

lemma days_in_month_le_31: "1 \<le> m \<Longrightarrow> m \<le> 12 \<Longrightarrow> days_in_month y m \<le> 31"
proof -
  assume "1 \<le> m" "m \<le> 12"
  then have "DAYS_IN_MONTH ! nat m \<in> set DAYS_IN_MONTH" by (intro nth_mem) (simp add: DAYS_IN_MONTH_def)
  moreover have "\<forall>x\<in>set DAYS_IN_MONTH. x \<le> 31" by (simp add: DAYS_IN_MONTH_def)
  ultimately show ?thesis by (simp add: days_in_month_def)
qed

lemma format_year_1: "format_yyyymmdd 1 = ''10101''"
  by (simp add: format_eval)

lemma parse_10101: "parse_yyyymmdd ''10101'' = Inl ValueError"
  by code_simp

lemma ord2ymd_738886: "ord2ymd 738886 = (2024, 1, 1)"
  by (simp add: ymd_eval)

text \<open>
  C25: \<open>format_yyyymmdd\<close> writes the calendar date of its argument: for every representable
  date (ordinals 1 to 3652059) the text is \<open>str(year)\<close>, \<open>month:02d\<close>, \<open>day:02d\<close> of a
  year in 1--9999, a month in 1--12 and a day within the month whose \<open>_ymd2ord\<close> is the
  ordinal again (CPython's \<open>_ord2ymd\<close> is correct).
\<close>

theorem format_yyyymmdd_date:
  assumes "1 \<le> d" and "d \<le> MAXORDINAL"
  shows "\<exists>y m dd. format_yyyymmdd d = show_int y @ fmt_02d m @ fmt_02d dd \<and> 1 \<le> y \<and> y \<le> 9999 \<and>
                  1 \<le> m \<and> m \<le> 12 \<and> 1 \<le> dd \<and> dd \<le> days_in_month y m \<and> ymd2ord y m dd = int d"
proof -
  obtain y m dd where o: "ord2ymd (int d) = (y, m, dd)" by (metis prod.exhaust)
  then have "1 \<le> y \<and> 1 \<le> m \<and> m \<le> 12 \<and> 1 \<le> dd \<and> dd \<le> days_in_month y m \<and> ymd2ord y m dd = int d \<and>
             (int d \<le> 3652059 \<longrightarrow> y \<le> 9999)"
    using ord2ymd_valid [of "int d"] assms(1) by simp
  moreover have "format_yyyymmdd d = show_int y @ fmt_02d m @ fmt_02d dd"
    using o by (simp add: format_yyyymmdd_def)
  ultimately show ?thesis using assms(2) by (auto simp: MAXORDINAL_def)
qed



subsection \<open>Witnesses\<close>

theorem format_yyyymmdd_date_witness:
  "(1::nat) \<le> 738886 \<and> (738886::nat) \<le> MAXORDINAL \<and> format_yyyymmdd 738886 = ''20240101'' \<and>
   show_int 2024 @ fmt_02d 1 @ fmt_02d 1 = ''20240101'' \<and> ymd2ord 2024 1 1 = 738886"
proof -
  have f: "format_yyyymmdd 738886 = ''20240101''" by (simp add: format_eval)
  have s: "show_int 2024 @ fmt_02d 1 @ fmt_02d 1 = ''20240101''"
    by (simp add: show_int_def fmt_02d_def show_nat.simps digit_char_def char_of_eq_iff)
  have y: "ymd2ord 2024 1 1 = 738886"
    by (simp add: ymd2ord_def days_before_year_def days_before_month_def DAYS_BEFORE_MONTH_def is_leap_def)
  show ?thesis using format_yyyymmdd_date [of 738886] f s y by (simp add: MAXORDINAL_def)
qed


end
