(* ===== verification/Spec2Isabelle.thy ===== *)
theory Spec2Isabelle
  imports Calendar Trips Stats Report Ordinals
begin

text \<open>
  \<^bold>\<open>A verification model of src/scripts/gtfs_faq_summary.py.\<close>

  The script reads a static GTFS feed (routes, calendar, calendar_dates, stops, trips,
  stop_times) and prints, for the lines A--D, for the next weekday, Saturday and Sunday and
  for both directions, the first and last departure, the number of trips, the median and
  10th/90th percentile headways and the most frequent termini. It is one Python function
  \<open>main\<close> with helpers; nothing runs concurrently and any exception aborts the run.

  \<^bold>\<open>Theories and what they model.\<close>
  \<^item> \<open>Prelude\<close>: the error monad \<open>'a res = py_error + 'a\<close> (each \<open>Inl\<close> is the exception
    the script would raise), CSV rows as maps from column to cell (\<open>row[k]\<close> is
    \<open>get_col\<close>, \<open>d[k]\<close> on a dict \<open>getitem\<close>, \<open>row.get(k)\<close> the map), fail-fast loops
    \<open>fold_res\<close> with their invariant, totality, flattening and keyed-update rules, and
    insertion-ordered dictionaries \<open>dict_set\<close>.
  \<^item> \<open>PyBuiltins\<close>: \<open>int()\<close>, \<open>str.strip\<close>, \<open>str.split\<close>, \<open>str()\<close>,
    \<open>format(n, '02d')\<close> and \<open>round()\<close> as CPython defines them on ASCII strings, with the
    round trips \<open>int(str(i)) = i\<close>, \<open>int(format(i,'02d')) = i\<close>, \<open>':'.join(s.split(':')) = s\<close>.
  \<^item> \<open>Times\<close>: \<open>parse_time_to_minutes\<close> and \<open>fmt_hhmm\<close> (lines 13--23).
  \<^item> \<open>Dates\<close>: \<open>datetime.date\<close> as its ordinal, \<open>weekday()\<close>, \<open>+ timedelta\<close> with its
    \<open>OverflowError\<close>, the loops \<open>next_weekday\<close>, \<open>next_saturday\<close>, \<open>next_sunday\<close>
    (lines 49--67) as one terminating loop \<open>advance_while\<close>, \<open>dow_field\<close> (70--79),
    CPython's ordinal/calendar conversion, \<open>format_yyyymmdd\<close> and \<open>parse_yyyymmdd\<close>
    (41--46, strptime's regular expression with its backtracking order).
  \<^item> \<open>Calendar\<close>: \<open>CalendarService\<close>, \<open>is_service_active\<close> (82--108),
    \<open>daytypes_from_service\<close> (26--38) and the loading of calendar.txt and
    calendar_dates.txt (132--157).
  \<^item> \<open>Trips\<close>: \<open>LINES\<close>, the loading of routes.txt, stops.txt and trips.txt (124--180) and
    the stop_times scan (182--208) as a fold of \<open>scan_stop_time\<close> over a record of the five
    dictionaries \<open>first_stop_seq\<close> ... \<open>last_stop_id\<close>.
  \<^item> \<open>Stats\<close>: the gaps and their half-minute filter (253--255), \<open>safe_quantiles\<close>
    (111--116), \<open>statistics.median\<close>, \<open>statistics.quantiles\<close> (exclusive method) and
    \<open>Counter(...).most_common(1)\<close> (260--261) as CPython computes them.
  \<^item> \<open>Report\<close>: the report phase of \<open>main\<close> (210--275) -- \<open>day_refs\<close>, the trips of a
    line, the collecting loop, the bucket's statistics \<open>bucket_of\<close>, the
    \<open>setdefault\<close> assignment \<open>summary_set\<close> and the three nested loops \<open>line_step\<close>,
    \<open>day_step\<close>, \<open>bucket_step\<close> -- and \<open>gtfs_main\<close>, \<open>main\<close> from the parsed tables to
    the summary. For the proofs the nested loops are one loop over \<open>report_items\<close>.
  \<^item> \<open>Ordinals\<close>: no new model, the correctness of CPython's \<open>_ord2ymd\<close> and of the
    format/parse pair of dates, with the month tables and the strptime alternatives
    checked by evaluation (\<open>month_table\<close>, \<open>md_table\<close>).

  \<^bold>\<open>What is proved.\<close>
  \<^item> Calendar resolution (C1--C3): an exception of type 1 or 2 decides alone; without one,
    an unknown service or a date outside the window is inactive; otherwise the weekday
    flag decides, and exception types other than 1 and 2 are ignored.
  \<^item> Day-type reference dates (C4--C8): closed forms of the three selectors whenever the
    search stays below 9999-12-31 (so they terminate and return), the refinement of each
    to "the first date on or after today of the day type", and the \<open>OverflowError\<close> the
    script raises from \<open>next_saturday\<close>/\<open>next_sunday\<close> on 9999-12-31.
  \<^item> Clock times (C9--C11): parsing a well-formed \<open>H:MM:SS\<close> gives
    \<open>h * 60 + m + s / 60\<close>, malformed text raises \<open>ValueError\<close>; printing with \<open>fmt_hhmm\<close>
    loses only the rounding, and hours past 23 are kept.
  \<^item> The stop_times scan (C12--C14): the five dictionaries stay consistent, first and last
    sequence are the minimum and maximum of the trip's rows, and a lower-sequence row
    without a time leaves a stale first departure (a divergence from the specification).
    Loading (C24): route and trip dictionaries have distinct keys and only lines of \<open>LINES\<close>.
  \<^item> Headway statistics (C15--C17): deciles only from ten gaps on, then without error and
    with p10 <= median <= p90; the mode is the first-seen most frequent element; gaps of
    sorted times are non-negative and span the departures.
  \<^item> The report (C18--C23): the nested loops with \<open>setdefault\<close> equal a per-bucket
    computation; a bucket is omitted exactly when it has no active trip, and otherwise
    counts them and spans their first departures; the report phase cannot fail except by
    \<open>OverflowError\<close> on 9999-12-31; the specification's examples (a trip past midnight,
    two departures 12 seconds apart, termini S1/S1/S2) evaluated on the model.
  \<^item> Dates (C25--C27): \<open>format_yyyymmdd\<close> writes the calendar date of its ordinal (the
    conversion is proved for all 3652059 dates, by the cycle arithmetic and a 365-case
    month table); parsing the text gives the date back for four-digit years, and fails
    with \<open>ValueError\<close> for years before 1000, which glibc writes unpadded.

  \<^bold>\<open>Bounds and fuel.\<close> No fuel is used. The day loop terminates by the measure
  \<open>MAXORDINAL + 1 - d\<close> (the ordinal grows by one per step and the step raises past
  \<open>MAXORDINAL\<close>); the closed forms need at most six days of room, which every date before
  9999-12-25 has, and so does the totality of the report phase. Every other loop is a
  structural fold over a finite list of rows, trips or buckets.

  \<^bold>\<open>Plan of the development.\<close> Next: the converse date round trip
  (\<open>ord2ymd (ymd2ord y m d) = (y, m, d)\<close> for valid dates) and \<open>parse_yyyymmdd\<close> on
  arbitrary text (what it accepts); the calendar loaders' error paths (a malformed flag or
  date aborts the run); the full pipeline on example tables through \<open>gtfs_main\<close>.

  \<^bold>\<open>Not modelled.\<close> Reading files and \<open>csv.DictReader\<close> (rows arrive as lists of maps),
  \<open>argparse\<close>, \<open>json.dumps\<close> and writing the output (lines 120--122, 277--283),
  \<open>date.today()\<close> (today is a parameter). Floats are exact rationals: rounding errors of
  IEEE doubles are not modelled. Strings are byte strings: Unicode digits and whitespace
  accepted by \<open>int()\<close> and \<open>strptime\<close> beyond ASCII are not modelled.
\<close>

end
